(* ===== verification/Prelude.thy ===== *)
theory Prelude
  imports Main "HOL-Library.Word" "HOL-Library.List_Lexorder" "HOL-Library.Product_Lexorder"
begin

text \<open>
  Shared vocabulary of the development: Rust strings as lists of Unicode code points, the
  parsing and printing of the integers the services exchange as text, the result monad in which
  every handler, service function and repository function is written, and generic facts on lists.

  A Rust \<^verbatim>\<open>String\<close> is a \<open>str\<close>, the list of its code points, so that
  \<^verbatim>\<open>chars().count()\<close> is \<open>length\<close>. \<open>u ''abc''\<close> is the literal
  \<^verbatim>\<open>"abc"\<close>. A \<^verbatim>\<open>Uuid\<close> is its 128-bit value.
\<close>

named_theorems io_simps "evaluation of the result monad"

section \<open>Strings\<close>

type_synonym str = "nat list"
type_synonym uuid = "128 word"
type_synonym time = int  \<comment> \<open>microseconds since the epoch, the resolution of timestamptz\<close>

definition u :: "string \<Rightarrow> str" where
  "u s = map of_char s"

lemma inj_of_char_nat: "inj (of_char :: char \<Rightarrow> nat)"
  by (rule injI) simp

lemma u_eq_iff [simp]: "u s = u t \<longleftrightarrow> s = t"
  unfolding u_def by (simp add: inj_map_eq_map inj_of_char_nat)

lemma u_Nil [simp]: "u [] = []"
  by (simp add: u_def)

lemma u_eq_Nil [simp]: "u s = [] \<longleftrightarrow> s = []" "[] = u s \<longleftrightarrow> s = []"
  by (simp_all add: u_def)

lemma length_u [simp]: "length (u s) = length s"
  by (simp add: u_def)

text \<open>\<^verbatim>\<open>char::is_whitespace\<close>: the code points with the property White\_Space.\<close>

definition is_ws :: "nat \<Rightarrow> bool" where
  "is_ws c \<longleftrightarrow> (9 \<le> c \<and> c \<le> 13) \<or> c = 32 \<or> c = 0x85 \<or> c = 0xA0 \<or> c = 0x1680
     \<or> (0x2000 \<le> c \<and> c \<le> 0x200A) \<or> c = 0x2028 \<or> c = 0x2029 \<or> c = 0x202F \<or> c = 0x205F \<or> c = 0x3000"

definition trim_start :: "str \<Rightarrow> str" where
  "trim_start s = dropWhile is_ws s"

definition trim_end :: "str \<Rightarrow> str" where
  "trim_end s = rev (dropWhile is_ws (rev s))"

definition trim :: "str \<Rightarrow> str" where
  "trim s = trim_end (trim_start s)"

lemma trim_end_Nil_iff: "trim_end s = [] \<longleftrightarrow> (\<forall>c \<in> set s. is_ws c)"
  by (simp add: trim_end_def)

lemma trim_Nil [simp]: "trim [] = []"
  by (simp add: trim_def trim_start_def trim_end_def)

lemma trim_Nil_iff: "trim s = [] \<longleftrightarrow> (\<forall>c \<in> set s. is_ws c)"
proof
  assume "trim s = []"
  then have rest: "\<forall>c \<in> set (dropWhile is_ws s). is_ws c"
    by (simp add: trim_def trim_start_def trim_end_Nil_iff)
  have "set s = set (takeWhile is_ws s) \<union> set (dropWhile is_ws s)"
    by (metis set_append takeWhile_dropWhile_id)
  with rest show "\<forall>c \<in> set s. is_ws c"
    by (auto dest: set_takeWhileD)
next
  assume "\<forall>c \<in> set s. is_ws c"
  then have d: "dropWhile is_ws s = []" by simp
  show "trim s = []"
    unfolding trim_def trim_start_def trim_end_def d by simp
qed

lemma length_trim_le: "length (trim s) \<le> length s"
  by (metis trim_def trim_start_def trim_end_def length_dropWhile_le length_rev order_trans)

lemma dropWhile_idem_hd:
  "dropWhile p xs = [] \<or> \<not> p (hd (dropWhile p xs))"
  using hd_dropWhile by blast

lemma trim_start_idem: "s = [] \<or> \<not> is_ws (hd s) \<Longrightarrow> trim_start s = s"
  by (cases s) (auto simp: trim_start_def)

lemma trim_idem [simp]: "trim (trim s) = trim s"
proof -
  let ?a = "trim_start s" and ?b = "trim_end (trim_start s)"
  have split_a: "\<exists>w. ?a = ?b @ w"
    unfolding trim_end_def
    by (metis rev_append rev_rev_ident takeWhile_dropWhile_id)
  have "?b = [] \<or> \<not> is_ws (hd ?b)"
  proof (cases "?b = []")
    case False
    from split_a obtain w where w: "?a = ?b @ w" by blast
    then have "hd ?a = hd ?b" using False by (metis hd_append2)
    moreover have "?a \<noteq> []" using w False by auto
    then have "\<not> is_ws (hd ?a)" unfolding trim_start_def by (rule hd_dropWhile)
    ultimately show ?thesis by simp
  qed simp
  then have start: "trim_start ?b = ?b" by (rule trim_start_idem)
  have "trim_end ?b = ?b"
    unfolding trim_end_def by simp
  with start show ?thesis by (simp add: trim_def)
qed

lemma trim_fixed:
  assumes "s \<noteq> []" "\<not> is_ws (hd s)" "\<not> is_ws (last s)"
  shows "trim s = s"
proof -
  have "trim_start s = s" using assms(1,2) by (cases s) (simp_all add: trim_start_def)
  moreover have "trim_end s = s"
    using assms(1,3) by (cases s rule: rev_cases) (simp_all add: trim_end_def)
  ultimately show ?thesis by (simp add: trim_def)
qed

text \<open>\<^verbatim>\<open>str::to_lowercase\<close> and \<^verbatim>\<open>to_ascii_lowercase\<close> on the ASCII
  letters, the only ones the services compare against.\<close>

definition lower_cp :: "nat \<Rightarrow> nat" where
  "lower_cp c = (if 65 \<le> c \<and> c \<le> 90 then c + 32 else c)"

definition to_lower :: "str \<Rightarrow> str" where
  "to_lower s = map lower_cp s"

lemma length_to_lower [simp]: "length (to_lower s) = length s"
  by (simp add: to_lower_def)

definition starts_with :: "str \<Rightarrow> str \<Rightarrow> bool" where
  "starts_with p s \<longleftrightarrow> take (length p) s = p"

fun split_on :: "nat \<Rightarrow> str \<Rightarrow> str list" where
  "split_on c [] = [[]]"
| "split_on c (x # xs) =
     (if x = c then [] # split_on c xs
      else (case split_on c xs of [] \<Rightarrow> [[x]] | w # ws \<Rightarrow> (x # w) # ws))"

lemma split_on_not_Nil [simp]: "split_on c s \<noteq> []"
  by (induction s) (auto split: list.splits)

section \<open>Integers as text\<close>

text \<open>\<^verbatim>\<open>format!("{}", n)\<close> for an unsigned integer.\<close>

fun show_nat :: "nat \<Rightarrow> str" where
  "show_nat n = (if n < 10 then [48 + n] else show_nat (n div 10) @ [48 + n mod 10])"

declare show_nat.simps [simp del]

definition is_digit :: "nat \<Rightarrow> bool" where
  "is_digit c \<longleftrightarrow> 48 \<le> c \<and> c \<le> 57"

definition digits_val :: "str \<Rightarrow> nat" where
  "digits_val s = foldl (\<lambda>acc c. 10 * acc + (c - 48)) 0 s"

definition parse_digits :: "str \<Rightarrow> nat option" where
  "parse_digits s = (if s \<noteq> [] \<and> list_all is_digit s then Some (digits_val s) else None)"

text \<open>\<^verbatim>\<open>str::parse\<close> for an unsigned type with largest value \<open>hi\<close>: an optional
  plus sign, at least one digit, and no overflow.\<close>

definition parse_unsigned :: "nat \<Rightarrow> str \<Rightarrow> nat option" where
  "parse_unsigned hi s =
     (case parse_digits (case s of c # r \<Rightarrow> if c = 43 then r else s | [] \<Rightarrow> []) of
        None \<Rightarrow> None
      | Some n \<Rightarrow> if n \<le> hi then Some n else None)"

text \<open>\<^verbatim>\<open>str::parse\<close> for a signed type with \<open>2 * lim\<close> values: an optional sign,
  at least one digit, and no overflow.\<close>

definition parse_signed :: "int \<Rightarrow> str \<Rightarrow> int option" where
  "parse_signed lim s =
     (case s of
        c # r \<Rightarrow>
          (if c = 45 then
             (case parse_digits r of
                None \<Rightarrow> None
              | Some n \<Rightarrow> if - int n \<ge> - lim then Some (- int n) else None)
           else
             (case parse_digits (if c = 43 then r else s) of
                None \<Rightarrow> None
              | Some n \<Rightarrow> if int n < lim then Some (int n) else None))
      | [] \<Rightarrow> None)"

definition parse_i64 :: "str \<Rightarrow> 64 word option" where
  "parse_i64 s = map_option word_of_int (parse_signed (2 ^ 63) s)"

definition parse_i32 :: "str \<Rightarrow> 32 word option" where
  "parse_i32 s = map_option word_of_int (parse_signed (2 ^ 31) s)"

definition parse_u64 :: "str \<Rightarrow> 64 word option" where
  "parse_u64 s = map_option word_of_nat (parse_unsigned (2 ^ 64 - 1) s)"

lemma digits_val_snoc [simp]: "digits_val (s @ [c]) = 10 * digits_val s + (c - 48)"
  by (simp add: digits_val_def)

lemma show_nat_digits: "list_all is_digit (show_nat n) \<and> show_nat n \<noteq> []"
proof (induction n rule: show_nat.induct)
  case (1 n)
  then show ?case
    by (cases "n < 10") (simp_all add: show_nat.simps [of n] is_digit_def)
qed

lemma digits_val_show_nat [simp]: "digits_val (show_nat n) = n"
proof (induction n rule: show_nat.induct)
  case (1 n)
  show ?case
  proof (cases "n < 10")
    case True
    then show ?thesis by (subst show_nat.simps) (simp add: digits_val_def)
  next
    case False
    then show ?thesis using 1 by (subst show_nat.simps) simp
  qed
qed

lemma parse_digits_show_nat [simp]: "parse_digits (show_nat n) = Some n"
  using show_nat_digits [of n] by (simp add: parse_digits_def)

lemma trim_digits: "list_all is_digit s \<Longrightarrow> trim s = s"
proof (cases "s = []")
  case False
  assume "list_all is_digit s"
  with False have "is_digit (hd s)" "is_digit (last s)" by (auto simp: list_all_iff)
  then show ?thesis using False by (intro trim_fixed) (auto simp: is_digit_def is_ws_def)
qed simp

lemma trim_u:
  assumes "s \<noteq> []" "\<not> is_ws (of_char (hd s))" "\<not> is_ws (of_char (last s))"
  shows "trim (u s) = u s"
proof (rule trim_fixed)
  show "\<not> is_ws (hd (u s))" "\<not> is_ws (last (u s))" using assms by (simp_all add: u_def hd_map last_map)
qed (use assms in simp)

lemma trim_show_nat [simp]: "trim (show_nat n) = show_nat n"
  using show_nat_digits [of n] by (intro trim_digits) simp

lemma parse_signed_range:
  "parse_signed lim s = Some i \<Longrightarrow> - lim \<le> i \<and> (0 < lim \<longrightarrow> i < lim)"
  by (auto simp: parse_signed_def split: list.splits if_splits option.splits)

section \<open>Results and effects\<close>

text \<open>
  An async function that returns \<^verbatim>\<open>Result<T, E>\<close> and acts on the outside world is a
  function from the world to the result and the world it leaves. \<open>bind_io\<close> is the
  \<^verbatim>\<open>?\<close> operator, \<open>throw\<close> an early return of an error, \<open>try_io\<close> the
  inspection of a result without propagating it.
\<close>

type_synonym ('w, 'e, 'a) io = "'w \<Rightarrow> ('e + 'a) \<times> 'w"

definition ret :: "'a \<Rightarrow> ('w, 'e, 'a) io" where
  "ret a = (\<lambda>w. (Inr a, w))"

definition throw :: "'e \<Rightarrow> ('w, 'e, 'a) io" where
  "throw e = (\<lambda>w. (Inl e, w))"

definition bind_io :: "('w, 'e, 'a) io \<Rightarrow> ('a \<Rightarrow> ('w, 'e, 'b) io) \<Rightarrow> ('w, 'e, 'b) io" where
  "bind_io m f = (\<lambda>w. case m w of (Inl e, w') \<Rightarrow> (Inl e, w') | (Inr a, w') \<Rightarrow> f a w')"

definition try_io :: "('w, 'e, 'a) io \<Rightarrow> ('w, 'f, 'e + 'a) io" where
  "try_io m = (\<lambda>w. case m w of (r, w') \<Rightarrow> (Inr r, w'))"

definition map_err_io :: "('e \<Rightarrow> 'f) \<Rightarrow> ('w, 'e, 'a) io \<Rightarrow> ('w, 'f, 'a) io" where
  "map_err_io g m = (\<lambda>w. case m w of (Inl e, w') \<Rightarrow> (Inl (g e), w') | (Inr a, w') \<Rightarrow> (Inr a, w'))"

definition lift_result :: "'e + 'a \<Rightarrow> ('w, 'e, 'a) io" where
  "lift_result r = (\<lambda>w. (r, w))"

definition guard_io :: "bool \<Rightarrow> 'e \<Rightarrow> ('w, 'e, unit) io" where
  "guard_io b e = (if b then ret () else throw e)"

definition ok_or :: "'a option \<Rightarrow> 'e \<Rightarrow> 'e + 'a" where
  "ok_or x e = (case x of None \<Rightarrow> Inl e | Some a \<Rightarrow> Inr a)"

definition is_err :: "'e + 'a \<Rightarrow> bool" where
  "is_err r = (case r of Inl _ \<Rightarrow> True | Inr _ \<Rightarrow> False)"

lemma is_err_simps [simp]: "is_err (Inl e)" "\<not> is_err (Inr a)"
  by (simp_all add: is_err_def)

text \<open>\<^verbatim>\<open>collect::<Result<Vec<_>, _>>()\<close>: the first error wins.\<close>

fun collect_results :: "('e + 'a) list \<Rightarrow> 'e + 'a list" where
  "collect_results [] = Inr []"
| "collect_results (Inl e # rs) = Inl e"
| "collect_results (Inr a # rs) =
     (case collect_results rs of Inl e \<Rightarrow> Inl e | Inr as \<Rightarrow> Inr (a # as))"

fun for_each_io :: "('a \<Rightarrow> ('w, 'e, unit) io) \<Rightarrow> 'a list \<Rightarrow> ('w, 'e, unit) io" where
  "for_each_io f [] = ret ()"
| "for_each_io f (x # xs) = bind_io (f x) (\<lambda>_. for_each_io f xs)"

lemma ret_apply [io_simps]: "ret a w = (Inr a, w)"
  by (simp add: ret_def)

lemma throw_apply [io_simps]: "throw e w = (Inl e, w)"
  by (simp add: throw_def)

lemma lift_result_apply [io_simps]: "lift_result r w = (r, w)"
  by (simp add: lift_result_def)

lemma bind_io_apply [io_simps]:
  "bind_io m f w = (case m w of (Inl e, w') \<Rightarrow> (Inl e, w') | (Inr a, w') \<Rightarrow> f a w')"
  by (simp add: bind_io_def)

lemma try_io_apply [io_simps]: "try_io m w = (Inr (fst (m w)), snd (m w))"
  by (simp add: try_io_def split: prod.splits)

lemma map_err_io_apply [io_simps]:
  "map_err_io g m w = (case m w of (Inl e, w') \<Rightarrow> (Inl (g e), w') | (Inr a, w') \<Rightarrow> (Inr a, w'))"
  by (simp add: map_err_io_def)

lemma guard_io_apply [io_simps]: "guard_io b e w = (if b then (Inr (), w) else (Inl e, w))"
  by (simp add: guard_io_def ret_apply throw_apply)

lemma ok_or_simps [simp]: "ok_or None e = Inl e" "ok_or (Some a) e = Inr a"
  by (simp_all add: ok_or_def)

lemma bind_ret_left [simp]: "bind_io (ret a) f = f a"
  by (rule ext) (simp add: io_simps)

lemma bind_throw_left [simp]: "bind_io (throw e) f = throw e"
  by (rule ext) (simp add: io_simps)

lemma bind_assoc: "bind_io (bind_io m f) g = bind_io m (\<lambda>a. bind_io (f a) g)"
  by (rule ext) (simp add: io_simps split: prod.splits sum.splits)

lemma collect_results_InrD: "collect_results rs = Inr as \<Longrightarrow> rs = map Inr as"
proof (induction rs arbitrary: as)
  case (Cons r rs)
  then obtain a bs where "r = Inr a" "collect_results rs = Inr bs" "as = a # bs"
    by (cases r; cases "collect_results rs") auto
  with Cons.IH show ?case by simp
qed simp

lemma collect_results_map_Inr [simp]: "collect_results (map (\<lambda>x. Inr (f x)) xs) = Inr (map f xs)"
  by (induction xs) auto

lemma collect_results_ok:
  "(\<And>x. x \<in> set xs \<Longrightarrow> g x = Inr (f x)) \<Longrightarrow> collect_results (map g xs) = Inr (map f xs)"
  by (induction xs) auto

text \<open>\<^verbatim>\<open>?\<close> in a function without effects, and a check that only fails or passes.\<close>

definition and_then :: "'e + 'a \<Rightarrow> ('a \<Rightarrow> 'e + 'b) \<Rightarrow> 'e + 'b" where
  "and_then r f = (case r of Inl e \<Rightarrow> Inl e | Inr a \<Rightarrow> f a)"

definition ensure :: "bool \<Rightarrow> 'e \<Rightarrow> 'e + unit" where
  "ensure b e = (if b then Inr () else Inl e)"

lemma and_then_simps [simp]: "and_then (Inl e) f = Inl e" "and_then (Inr a) f = f a"
  by (simp_all add: and_then_def)

lemma and_then_Inr: "and_then r f = Inr b \<longleftrightarrow> (\<exists>a. r = Inr a \<and> f a = Inr b)"
  by (cases r) simp_all

lemma ensure_Inr [simp]: "ensure b e = Inr x \<longleftrightarrow> b"
  by (simp add: ensure_def)

lemma ensure_True [simp]: "ensure True e = Inr ()"
  by (simp add: ensure_def)

lemma ok_or_Inr: "ok_or x e = Inr a \<longleftrightarrow> x = Some a"
  by (cases x) simp_all

subsection \<open>What every run preserves\<close>

text \<open>\<open>keeps R m\<close>: every run of \<open>m\<close>, successful or not, leaves a world related
  to the one it started from. For a preorder \<open>R\<close> this is compositional, whatever the
  program does between its effects.\<close>

definition keeps :: "('w \<Rightarrow> 'w \<Rightarrow> bool) \<Rightarrow> ('w, 'e, 'a) io \<Rightarrow> bool" where
  "keeps R m \<longleftrightarrow> (\<forall>w. R w (snd (m w)))"

lemma keepsD: "keeps R m \<Longrightarrow> R w (snd (m w))"
  by (simp add: keeps_def)

lemma keepsI: "(\<And>w. R w (snd (m w))) \<Longrightarrow> keeps R m"
  by (simp add: keeps_def)

locale run_preorder =
  fixes R :: "'w \<Rightarrow> 'w \<Rightarrow> bool"
  assumes R_refl: "R w w"
    and R_trans: "R a b \<Longrightarrow> R b c \<Longrightarrow> R a c"
begin

lemma keeps_ret [intro, simp]: "keeps R (ret a)"
  by (simp add: keeps_def R_refl io_simps)

lemma keeps_throw [intro, simp]: "keeps R (throw e)"
  by (simp add: keeps_def R_refl io_simps)

lemma keeps_lift [intro, simp]: "keeps R (lift_result r)"
  by (simp add: keeps_def R_refl io_simps)

lemma keeps_guard [intro, simp]: "keeps R (guard_io b e)"
  by (simp add: guard_io_def)

lemma keeps_bind [intro]:
  assumes m: "keeps R m" and f: "\<And>a. keeps R (f a)"
  shows "keeps R (bind_io m f)"
proof (rule keepsI)
  fix w
  obtain r w' where run: "m w = (r, w')" by (cases "m w") auto
  with keepsD [OF m, of w] have step: "R w w'" by simp
  show "R w (snd (bind_io m f w))"
  proof (cases r)
    case (Inl e)
    with run step show ?thesis by (simp add: io_simps)
  next
    case (Inr a)
    with run have "bind_io m f w = f a w'" by (simp add: io_simps)
    with keepsD [OF f, of w' a] step show ?thesis by (metis R_trans)
  qed
qed

lemma keeps_try [intro]: "keeps R m \<Longrightarrow> keeps R (try_io m)"
  by (simp add: keeps_def io_simps)

lemma keeps_map_err [intro]: "keeps R m \<Longrightarrow> keeps R (map_err_io g m)"
  unfolding keeps_def map_err_io_apply by (auto split: prod.split sum.split) (metis snd_conv)+

lemma keeps_if [intro]: "(b \<Longrightarrow> keeps R m) \<Longrightarrow> (\<not> b \<Longrightarrow> keeps R n) \<Longrightarrow> keeps R (if b then m else n)"
  by simp

lemma keeps_option [intro]:
  "(x = None \<Longrightarrow> keeps R m) \<Longrightarrow> (\<And>a. x = Some a \<Longrightarrow> keeps R (f a)) \<Longrightarrow>
   keeps R (case x of None \<Rightarrow> m | Some a \<Rightarrow> f a)"
  by (cases x) auto

lemma keeps_sum [intro]:
  "(\<And>e. x = Inl e \<Longrightarrow> keeps R (g e)) \<Longrightarrow> (\<And>a. x = Inr a \<Longrightarrow> keeps R (f a)) \<Longrightarrow>
   keeps R (case x of Inl e \<Rightarrow> g e | Inr a \<Rightarrow> f a)"
  by (cases x) auto

lemma keeps_for_each [intro]: "(\<And>x. keeps R (f x)) \<Longrightarrow> keeps R (for_each_io f xs)"
  by (induction xs) auto

end

text \<open>The same with a budget: \<open>within R n m\<close> says that a run of \<open>m\<close> spends at most \<open>n\<close>,
  for a relation graded by what is spent.\<close>

definition within :: "(nat \<Rightarrow> 'w \<Rightarrow> 'w \<Rightarrow> bool) \<Rightarrow> nat \<Rightarrow> ('w, 'e, 'a) io \<Rightarrow> bool" where
  "within R n m \<longleftrightarrow> (\<forall>w. R n w (snd (m w)))"

lemma withinD: "within R n m \<Longrightarrow> R n w (snd (m w))"
  by (simp add: within_def)

lemma withinI: "(\<And>w. R n w (snd (m w))) \<Longrightarrow> within R n m"
  by (simp add: within_def)

locale graded_runs =
  fixes R :: "nat \<Rightarrow> 'w \<Rightarrow> 'w \<Rightarrow> bool"
  assumes R_zero: "R n w w"
    and R_add: "R m a b \<Longrightarrow> R n b c \<Longrightarrow> R (m + n) a c"
    and R_mono: "R m a b \<Longrightarrow> m \<le> n \<Longrightarrow> R n a b"
begin

lemma within_ret [simp]: "within R n (ret a)"
  by (simp add: within_def R_zero io_simps)

lemma within_throw [simp]: "within R n (throw e)"
  by (simp add: within_def R_zero io_simps)

lemma within_lift [simp]: "within R n (lift_result r)"
  by (simp add: within_def R_zero io_simps)

lemma within_mono: "within R m x \<Longrightarrow> m \<le> n \<Longrightarrow> within R n x"
  using R_mono unfolding within_def by blast

lemma within_bind:
  assumes m: "within R k m" and f: "\<And>a. within R l (f a)"
  shows "within R (k + l) (bind_io m f)"
proof (rule withinI)
  fix w
  obtain r w' where run: "m w = (r, w')" by (cases "m w") auto
  with withinD [OF m, of w] have step: "R k w w'" by simp
  show "R (k + l) w (snd (bind_io m f w))"
  proof (cases r)
    case (Inl e)
    have "R (k + l) w w'" using step by (rule R_mono) simp
    with Inl run show ?thesis by (simp add: io_simps)
  next
    case (Inr a)
    with run have "bind_io m f w = f a w'" by (simp add: io_simps)
    with withinD [OF f, of w' a] step show ?thesis by (metis R_add)
  qed
qed

lemma within_bind0:
  "within R 0 m \<Longrightarrow> (\<And>a. within R l (f a)) \<Longrightarrow> within R l (bind_io m f)"
  using within_bind [of 0 m l f] by simp

lemma within_bind_last:
  "within R l m \<Longrightarrow> (\<And>a. within R 0 (f a)) \<Longrightarrow> within R l (bind_io m f)"
  using within_bind [of l m 0 f] by simp

lemma within_try: "within R n m \<Longrightarrow> within R n (try_io m)"
  by (simp add: within_def io_simps)

lemma within_if: "(b \<Longrightarrow> within R n x) \<Longrightarrow> (\<not> b \<Longrightarrow> within R n y) \<Longrightarrow> within R n (if b then x else y)"
  by simp

lemma within_option:
  "(x = None \<Longrightarrow> within R n m) \<Longrightarrow> (\<And>a. x = Some a \<Longrightarrow> within R n (f a)) \<Longrightarrow>
   within R n (case x of None \<Rightarrow> m | Some a \<Rightarrow> f a)"
  by (cases x) auto

lemma within_sum:
  "(\<And>e. x = Inl e \<Longrightarrow> within R n (g e)) \<Longrightarrow> (\<And>a. x = Inr a \<Longrightarrow> within R n (f a)) \<Longrightarrow>
   within R n (case x of Inl e \<Rightarrow> g e | Inr a \<Rightarrow> f a)"
  by (cases x) auto

lemma within_for_each:
  "(\<And>x. within R n (f x)) \<Longrightarrow> within R (length xs * n) (for_each_io f xs)"
  by (induction xs) (auto intro: within_bind)

end

section \<open>Lists\<close>

text \<open>\<open>ORDER BY k DESC\<close> is a stable descending sort.\<close>

definition sort_desc :: "('a \<Rightarrow> 'b::linorder) \<Rightarrow> 'a list \<Rightarrow> 'a list" where
  "sort_desc k xs = rev (sort_key k (rev xs))"

lemma set_sort_desc [simp]: "set (sort_desc k xs) = set xs"
  by (simp add: sort_desc_def)

lemma length_sort_desc [simp]: "length (sort_desc k xs) = length xs"
  by (simp add: sort_desc_def)

lemma distinct_sort_desc [simp]: "distinct (sort_desc k xs) = distinct xs"
  by (simp add: sort_desc_def)

lemma sort_desc_sorted: "sorted (rev (map k (sort_desc k xs)))"
  by (simp add: sort_desc_def rev_map [symmetric])

lemma count_map_update:
  "length (filter p (map (\<lambda>r. if p r then f r else r) xs)) \<le> length xs"
  by (metis length_filter_le length_map)

text \<open>A key that picks one row.\<close>

lemma filter_unique:
  "distinct (map k xs) \<Longrightarrow> x \<in> set xs \<Longrightarrow> p x \<Longrightarrow> (\<And>y. p y \<Longrightarrow> k y = k x) \<Longrightarrow> filter p xs = [x]"
proof (induction xs)
  case (Cons y ys)
  show ?case
  proof (cases "x = y")
    case True
    then have "\<not> p z" if "z \<in> set ys" for z
      using that Cons.prems(1) Cons.prems(4) [of z] True by (auto simp: image_iff)
    then show ?thesis using True Cons.prems(3) by (simp add: filter_empty_conv)
  next
    case False
    then have x: "x \<in> set ys" using Cons.prems(2) by simp
    then have "\<not> p y" using Cons.prems(1) Cons.prems(4) [of y] by (auto simp: image_iff)
    then show ?thesis using Cons.IH [OF _ x Cons.prems(3) Cons.prems(4)] Cons.prems(1) by simp
  qed
qed simp

lemma map_update_id: "\<forall>x \<in> set xs. \<not> p x \<Longrightarrow> map (\<lambda>r. if p r then f r else r) xs = xs"
  by (induction xs) auto

end
