(* ===== verification/App_Error.thy ===== *)
theory App_Error
  imports Prelude
begin

text \<open>
  The error type of the accounts service (\<^verbatim>\<open>accounts-service/src/errors/app_error.rs\<close>): the
  variants, their \<^verbatim>\<open>Display\<close> texts, HTTP status and the response built from them. The payload
  of \<open>Database\<close> is the text of the sqlx error.
\<close>

datatype app_error =
    Database str
  | NotFound str
  | Validation str
  | BusinessLogic str
  | AccountNotActive
  | InsufficientFunds
  | InvalidAccountType
  | TooManyRequests
  | Unauthorized str
  | Internal str

primrec error_to_string :: "app_error \<Rightarrow> str" where
  "error_to_string (Database e) = u ''Database error: '' @ e"
| "error_to_string (NotFound m) = u ''Not found: '' @ m"
| "error_to_string (Validation m) = u ''Validation error: '' @ m"
| "error_to_string (BusinessLogic m) = u ''Business logic error: '' @ m"
| "error_to_string AccountNotActive = u ''Account is not active''"
| "error_to_string InsufficientFunds =
     u ''Insufficient funds: cannot withdraw or transfer more than available balance''"
| "error_to_string InvalidAccountType = u ''Invalid account type''"
| "error_to_string TooManyRequests = u ''Too many requests''"
| "error_to_string (Unauthorized m) = u ''Unauthorized: '' @ m"
| "error_to_string (Internal m) = u ''Internal server error: '' @ m"

fun status_code :: "app_error \<Rightarrow> nat" where
  "status_code (Database _) = 500"
| "status_code (NotFound _) = 404"
| "status_code (Validation _) = 400"
| "status_code (BusinessLogic _) = 400"
| "status_code AccountNotActive = 400"
| "status_code InsufficientFunds = 400"
| "status_code InvalidAccountType = 400"
| "status_code TooManyRequests = 429"
| "status_code (Unauthorized _) = 401"
| "status_code (Internal _) = 500"

record error_body =
  eb_status :: nat
  eb_message :: str
  eb_correlation_id :: uuid
  eb_timestamp :: time

text \<open>\<^verbatim>\<open>IntoResponse\<close>: the status line is chosen by its own match, the body repeats
  it; the correlation id is a fresh v4 UUID and the time stamp the current time.\<close>

fun response_status :: "app_error \<Rightarrow> nat" where
  "response_status (Database _) = 500"
| "response_status (NotFound _) = 404"
| "response_status (Validation _) = 400"
| "response_status (BusinessLogic _) = 400"
| "response_status AccountNotActive = 400"
| "response_status InsufficientFunds = 400"
| "response_status InvalidAccountType = 400"
| "response_status TooManyRequests = 429"
| "response_status (Unauthorized _) = 401"
| "response_status (Internal _) = 500"

definition into_response :: "uuid \<Rightarrow> time \<Rightarrow> app_error \<Rightarrow> nat \<times> error_body" where
  "into_response fresh now e =
     (response_status e,
      \<lparr>eb_status = response_status e, eb_message = error_to_string e,
       eb_correlation_id = fresh, eb_timestamp = now\<rparr>)"

lemma status_code_response: "status_code e = response_status e"
  by (cases e) simp_all

lemma status_code_range: "400 \<le> status_code e \<and> status_code e < 600"
  by (cases e) simp_all

lemma status_code_server_iff:
  "500 \<le> status_code e \<longleftrightarrow> (\<exists>m. e = Database m \<or> e = Internal m)"
  by (cases e) simp_all

end
