(* ===== verification/Models.thy ===== *)
theory Models
  imports App_Error
begin

text \<open>
  The data of the accounts service (\<^verbatim>\<open>accounts-service/src/models\<close>): accounts, transactions,
  their API views and the pagination block. A field \<^verbatim>\<open>x\<close> of
  \<^verbatim>\<open>Account\<close> is \<open>acc_x\<close>, of \<^verbatim>\<open>AccountResponse\<close> \<open>ar_x\<close>, of
  \<^verbatim>\<open>Transaction\<close> \<open>tx_x\<close>, of \<^verbatim>\<open>TransactionResponse\<close> \<open>tr_x\<close> and of
  \<^verbatim>\<open>AccountTransactionResponse\<close> \<open>atr_x\<close>. An \<^verbatim>\<open>i64\<close> amount is a 64-bit
  word read with \<open>sint\<close>.
\<close>

section \<open>Accounts\<close>

datatype account_type = Checking | Saving
datatype account_status = Active | Suspended | Closed

primrec account_type_str :: "account_type \<Rightarrow> str" where
  "account_type_str Checking = u ''checking''"
| "account_type_str Saving = u ''saving''"

primrec account_status_str :: "account_status \<Rightarrow> str" where
  "account_status_str Active = u ''active''"
| "account_status_str Suspended = u ''suspended''"
| "account_status_str Closed = u ''closed''"

record account =
  acc_id :: uuid
  acc_account_number :: str
  acc_account_type :: account_type
  acc_organization_id :: "uuid option"
  acc_environment :: "str option"
  acc_holder_id :: "uuid option"
  acc_user_id :: "uuid option"
  acc_admin_user_id :: "uuid option"
  acc_user_role :: "str option"
  acc_currency :: "str option"
  acc_status :: "account_status option"
  acc_created_at :: "time option"
  acc_updated_at :: "time option"

record create_account_request =
  car_account_type :: account_type
  car_currency :: str
  car_email :: str
  car_first_name :: str
  car_last_name :: str

record account_response =
  ar_id :: uuid
  ar_account_number :: str
  ar_account_type :: account_type
  ar_organization_id :: "uuid option"
  ar_environment :: str
  ar_holder_id :: "uuid option"
  ar_user_id :: "uuid option"
  ar_admin_user_id :: "uuid option"
  ar_user_role :: "str option"
  ar_currency :: str
  ar_status :: account_status
  ar_created_at :: "time option"
  ar_updated_at :: "time option"
  ar_balance :: "64 word"

definition unwrap_or :: "'a option \<Rightarrow> 'a \<Rightarrow> 'a" where
  "unwrap_or x d = (case x of None \<Rightarrow> d | Some a \<Rightarrow> a)"

lemma unwrap_or_simps [simp]: "unwrap_or None d = d" "unwrap_or (Some a) d = a"
  by (simp_all add: unwrap_or_def)

definition account_response_from :: "account \<Rightarrow> account_response" where
  "account_response_from a =
     \<lparr>ar_id = acc_id a,
      ar_account_number = acc_account_number a,
      ar_account_type = acc_account_type a,
      ar_organization_id = acc_organization_id a,
      ar_environment = unwrap_or (acc_environment a) [],
      ar_holder_id = acc_holder_id a,
      ar_user_id = acc_user_id a,
      ar_admin_user_id = acc_admin_user_id a,
      ar_user_role = acc_user_role a,
      ar_currency = unwrap_or (acc_currency a) (u ''USD''),
      ar_status = unwrap_or (acc_status a) Active,
      ar_created_at = acc_created_at a,
      ar_updated_at = acc_updated_at a,
      ar_balance = 0\<rparr>"

definition with_balance :: "account_response \<Rightarrow> 64 word \<Rightarrow> account_response" where
  "with_balance r b = r\<lparr>ar_balance := b\<rparr>"

record pagination_meta =
  pm_page :: "32 word"
  pm_per_page :: "32 word"
  pm_total_count :: "64 word"
  pm_total_pages :: "32 word"

record paginated_accounts_response =
  par_data :: "account_response list"
  par_pagination :: pagination_meta

section \<open>Transactions\<close>

datatype transaction_kind = Deposit | Withdraw | Transfer
datatype transaction_status = Pending | Posting | Posted | Failed

primrec kind_str :: "transaction_kind \<Rightarrow> str" where
  "kind_str Deposit = u ''deposit''"
| "kind_str Withdraw = u ''withdraw''"
| "kind_str Transfer = u ''transfer''"

primrec status_str :: "transaction_status \<Rightarrow> str" where
  "status_str Pending = u ''pending''"
| "status_str Posting = u ''posting''"
| "status_str Posted = u ''posted''"
| "status_str Failed = u ''failed''"

record transaction =
  tx_id :: uuid
  tx_organization_id :: uuid
  tx_from_account_id :: uuid
  tx_to_account_id :: uuid
  tx_amount :: "64 word"
  tx_currency :: str
  tx_transaction_kind :: transaction_kind
  tx_status :: transaction_status
  tx_failure_reason :: "str option"
  tx_idempotency_key :: str
  tx_environment :: "str option"
  tx_description :: "str option"
  tx_external_recipient_id :: "str option"
  tx_reference_id :: "uuid option"
  tx_retry_count :: "32 word"
  tx_last_attempted_at :: "time option"
  tx_next_retry_at :: "time option"
  tx_terminal_failure_at :: "time option"
  tx_created_at :: time
  tx_updated_at :: time

record transaction_response =
  tr_id :: uuid
  tr_organization_id :: uuid
  tr_from_account_id :: uuid
  tr_to_account_id :: uuid
  tr_amount :: "64 word"
  tr_currency :: str
  tr_transaction_kind :: transaction_kind
  tr_status :: transaction_status
  tr_failure_reason :: "str option"
  tr_idempotency_key :: str
  tr_environment :: "str option"
  tr_created_at :: time
  tr_updated_at :: time

definition transaction_response_from :: "transaction \<Rightarrow> transaction_response" where
  "transaction_response_from t =
     \<lparr>tr_id = tx_id t,
      tr_organization_id = tx_organization_id t,
      tr_from_account_id = tx_from_account_id t,
      tr_to_account_id = tx_to_account_id t,
      tr_amount = tx_amount t,
      tr_currency = tx_currency t,
      tr_transaction_kind = tx_transaction_kind t,
      tr_status = tx_status t,
      tr_failure_reason = tx_failure_reason t,
      tr_idempotency_key = tx_idempotency_key t,
      tr_environment = tx_environment t,
      tr_created_at = tx_created_at t,
      tr_updated_at = tx_updated_at t\<rparr>"

record account_transaction_response =
  atr_id :: uuid
  atr_account_id :: uuid
  atr_transaction_type :: str
  atr_amount :: "64 word"
  atr_balance_after :: "64 word"
  atr_currency :: str
  atr_status :: str
  atr_created_at :: time
  atr_updated_at :: time
  atr_description :: str
  atr_external_recipient_id :: str
  atr_recipient_account_id :: str
  atr_reference_id :: str

record paginated_transactions_response =
  ptr_data :: "account_transaction_response list"
  ptr_pagination :: pagination_meta

primrec view_status :: "transaction_status \<Rightarrow> str" where
  "view_status Pending = u ''pending''"
| "view_status Posting = u ''pending''"
| "view_status Posted = u ''completed''"
| "view_status Failed = u ''failed''"

definition build ::
  "transaction \<Rightarrow> uuid \<Rightarrow> str \<Rightarrow> str \<Rightarrow> str \<Rightarrow> 64 word \<Rightarrow> str \<Rightarrow> str \<Rightarrow> account_transaction_response" where
  "build t account_id transaction_type recipient description balance_after external reference =
     \<lparr>atr_id = tx_id t,
      atr_account_id = account_id,
      atr_transaction_type = transaction_type,
      atr_amount = tx_amount t,
      atr_balance_after = balance_after,
      atr_currency = tx_currency t,
      atr_status = view_status (tx_status t),
      atr_created_at = tx_created_at t,
      atr_updated_at = tx_updated_at t,
      atr_description = description,
      atr_external_recipient_id = external,
      atr_recipient_account_id = recipient,
      atr_reference_id = reference\<rparr>"

text \<open>\<open>us\<close> is the uuid crate's \<^verbatim>\<open>to_string\<close>.\<close>

definition from_transaction ::
  "(uuid \<Rightarrow> str) \<Rightarrow> transaction \<Rightarrow> uuid \<Rightarrow> 64 word \<Rightarrow> account_transaction_response" where
  "from_transaction us t for_account_id balance_after =
     (let (transaction_type, recipient) =
            (case tx_transaction_kind t of
               Deposit \<Rightarrow> (u ''deposit'', [])
             | Withdraw \<Rightarrow> (u ''withdrawal'', [])
             | Transfer \<Rightarrow>
                 if tx_from_account_id t = for_account_id
                 then (u ''withdrawal'', us (tx_to_account_id t))
                 else (u ''deposit'', us (tx_from_account_id t)))
      in build t for_account_id transaction_type recipient
           (unwrap_or (tx_description t) []) balance_after
           (unwrap_or (tx_external_recipient_id t) [])
           (unwrap_or (map_option us (tx_reference_id t)) []))"

definition for_mutation_response ::
  "(uuid \<Rightarrow> str) \<Rightarrow> transaction \<Rightarrow> 64 word \<Rightarrow> account_transaction_response" where
  "for_mutation_response us t balance_after =
     (let (account_id, transaction_type, recipient) =
            (case tx_transaction_kind t of
               Deposit \<Rightarrow> (tx_from_account_id t, u ''deposit'', [])
             | Withdraw \<Rightarrow> (tx_from_account_id t, u ''withdrawal'', [])
             | Transfer \<Rightarrow> (tx_from_account_id t, u ''transfer'', us (tx_to_account_id t)))
      in build t account_id transaction_type recipient
           (unwrap_or (tx_description t) []) balance_after
           (unwrap_or (tx_external_recipient_id t) [])
           (unwrap_or (map_option us (tx_reference_id t)) []))"

section \<open>Facts\<close>

lemma account_type_str_inj [simp]: "account_type_str a = account_type_str b \<longleftrightarrow> a = b"
  by (cases a; cases b) simp_all

lemma account_status_str_inj [simp]: "account_status_str a = account_status_str b \<longleftrightarrow> a = b"
  by (cases a; cases b) simp_all

lemma kind_str_inj [simp]: "kind_str a = kind_str b \<longleftrightarrow> a = b"
  by (cases a; cases b) simp_all

lemma status_str_inj [simp]: "status_str a = status_str b \<longleftrightarrow> a = b"
  by (cases a; cases b) simp_all

lemma view_status_completed: "view_status s = u ''completed'' \<longleftrightarrow> s = Posted"
  by (cases s) simp_all

lemma view_status_pending: "view_status s = u ''pending'' \<longleftrightarrow> s = Pending \<or> s = Posting"
  by (cases s) simp_all

text \<open>What a view of a transaction carries over unchanged, for either constructor.\<close>

lemma views_economic:
  "atr_id (from_transaction us t a b) = tx_id t \<and>
   atr_amount (from_transaction us t a b) = tx_amount t \<and>
   atr_currency (from_transaction us t a b) = tx_currency t \<and>
   atr_balance_after (from_transaction us t a b) = b \<and>
   atr_account_id (from_transaction us t a b) = a \<and>
   atr_status (from_transaction us t a b) = view_status (tx_status t)"
  "atr_id (for_mutation_response us t b) = tx_id t \<and>
   atr_amount (for_mutation_response us t b) = tx_amount t \<and>
   atr_currency (for_mutation_response us t b) = tx_currency t \<and>
   atr_balance_after (for_mutation_response us t b) = b \<and>
   atr_account_id (for_mutation_response us t b) = tx_from_account_id t \<and>
   atr_status (for_mutation_response us t b) = view_status (tx_status t)"
  by (cases "tx_transaction_kind t"; simp add: from_transaction_def for_mutation_response_def build_def)+

end
