(* ===== verification/Audit_Proto.thy ===== *)
theory Audit_Proto
  imports Prelude
begin

text \<open>
  The messages of \<^verbatim>\<open>proto/audit/v1/audit.proto\<close>, shared by the services that emit audit
  events and the audit service that ingests them, the gRPC status codes, and HTTP headers.
  Proto enumerations travel as \<^verbatim>\<open>i32\<close>, here \<open>int\<close>. A metadata map is the
  list of its entries, one per key.
\<close>

datatype actor_type = Actor_Unspecified | Actor_User | Actor_Api_Key | Actor_Internal_Service | Actor_Anonymous
datatype outcome = Outcome_Unspecified | Outcome_Success | Outcome_Client_Error | Outcome_Server_Error

primrec actor_type_i32 :: "actor_type \<Rightarrow> int" where
  "actor_type_i32 Actor_Unspecified = 0"
| "actor_type_i32 Actor_User = 1"
| "actor_type_i32 Actor_Api_Key = 2"
| "actor_type_i32 Actor_Internal_Service = 3"
| "actor_type_i32 Actor_Anonymous = 4"

primrec outcome_i32 :: "outcome \<Rightarrow> int" where
  "outcome_i32 Outcome_Unspecified = 0"
| "outcome_i32 Outcome_Success = 1"
| "outcome_i32 Outcome_Client_Error = 2"
| "outcome_i32 Outcome_Server_Error = 3"

definition actor_type_try_from :: "int \<Rightarrow> actor_type option" where
  "actor_type_try_from i =
     (if i = 0 then Some Actor_Unspecified else if i = 1 then Some Actor_User
      else if i = 2 then Some Actor_Api_Key else if i = 3 then Some Actor_Internal_Service
      else if i = 4 then Some Actor_Anonymous else None)"

definition outcome_try_from :: "int \<Rightarrow> outcome option" where
  "outcome_try_from i =
     (if i = 0 then Some Outcome_Unspecified else if i = 1 then Some Outcome_Success
      else if i = 2 then Some Outcome_Client_Error else if i = 3 then Some Outcome_Server_Error
      else None)"

lemma actor_type_roundtrip [simp]: "actor_type_try_from (actor_type_i32 a) = Some a"
  by (cases a) (simp_all add: actor_type_try_from_def)

lemma outcome_roundtrip [simp]: "outcome_try_from (outcome_i32 a) = Some a"
  by (cases a) (simp_all add: outcome_try_from_def)

lemma actor_type_try_from_Some: "actor_type_try_from i = Some a \<longleftrightarrow> i = actor_type_i32 a"
  by (cases a) (auto simp: actor_type_try_from_def)

lemma outcome_try_from_Some: "outcome_try_from i = Some a \<longleftrightarrow> i = outcome_i32 a"
  by (cases a) (auto simp: outcome_try_from_def)

record actor_msg =
  am_type :: int
  am_id :: str
  am_roles :: "str list"

record target_msg =
  tm_type :: str
  tm_id :: str

record request_context =
  rc_id :: str
  rc_method :: str
  rc_path :: str
  rc_ip :: str
  rc_user_agent :: str

record audit_event =
  ev_occurred_at :: str
  ev_schema_version :: int
  ev_source_service :: str
  ev_organization_id :: str
  ev_environment :: str
  ev_actor :: "actor_msg option"
  ev_action :: str
  ev_target :: "target_msg option"
  ev_outcome :: int
  ev_request :: "request_context option"
  ev_correlation_id :: str
  ev_reason :: "str option"
  ev_metadata :: "(str \<times> str) list"

section \<open>gRPC status\<close>

datatype grpc_code =
    Code_Ok | Code_Cancelled | Code_Unknown | Code_Invalid_Argument | Code_Deadline_Exceeded
  | Code_Not_Found | Code_Already_Exists | Code_Permission_Denied | Code_Resource_Exhausted
  | Code_Failed_Precondition | Code_Aborted | Code_Out_Of_Range | Code_Unimplemented
  | Code_Internal | Code_Unavailable | Code_Data_Loss | Code_Unauthenticated

record grpc_status =
  gs_code :: grpc_code
  gs_message :: str

section \<open>HTTP headers\<close>

text \<open>A header map is the list of its entries, names in lower case (the http crate normalises
  them), values as bytes. \<open>header_str\<close> is
  \<^verbatim>\<open>headers.get(name).and_then(|v| v.to_str().ok())\<close>: the first value, provided every
  byte is visible ASCII, a blank or a tab.\<close>

type_synonym headers = "(str \<times> str) list"

definition header_byte_ok :: "nat \<Rightarrow> bool" where
  "header_byte_ok b \<longleftrightarrow> (32 \<le> b \<and> b < 127) \<or> b = 9"

definition header_str :: "headers \<Rightarrow> str \<Rightarrow> str option" where
  "header_str hs name =
     (case map_of hs (to_lower name) of
        None \<Rightarrow> None
      | Some v \<Rightarrow> if list_all header_byte_ok v then Some v else None)"

text \<open>\<^verbatim>\<open>.map(|s| s.trim().to_string()).filter(|s| !s.is_empty())\<close>\<close>

definition trimmed_header :: "headers \<Rightarrow> str \<Rightarrow> str option" where
  "trimmed_header hs name =
     (case header_str hs name of
        None \<Rightarrow> None
      | Some s \<Rightarrow> if trim s = [] then None else Some (trim s))"

lemma trimmed_header_Some:
  "trimmed_header hs name = Some s \<Longrightarrow> s \<noteq> [] \<and> trim s = s"
  by (auto simp: trimmed_header_def split: option.splits if_splits)

end
