(* ===== verification/World.thy ===== *)
theory World
  imports Models Audit_Proto
begin

text \<open>
  The world the accounts service acts on: its two tables as PostgreSQL keeps them (constraints of
  \<^verbatim>\<open>accounts-service/migrations_accounts\<close> included), the ledger and users services behind
  gRPC, the audit requests sent, and a tick that counts the external interactions so far.

  \<open>params\<close> collects everything the code does not decide: what other processes do to the
  tables between two of our statements (\<open>p_other\<close>), which statements fail and whether the
  failure strikes before or after their effect (\<open>p_fault\<close>), the clock, fresh UUIDs, rows
  locked by concurrent transactions, the remote services, and the crates the code calls.
\<close>

section \<open>Tables\<close>

record account_row =
  a_id :: uuid
  a_account_number :: str
  a_account_type :: str
  a_organization_id :: "uuid option"
  a_environment :: str
  a_holder_id :: "uuid option"
  a_user_id :: "uuid option"
  a_admin_user_id :: "uuid option"
  a_user_role :: "str option"
  a_currency :: str
  a_status :: str
  a_created_at :: time
  a_updated_at :: time

record tx_row =
  r_id :: uuid
  r_organization_id :: uuid
  r_from_account_id :: uuid
  r_to_account_id :: uuid
  r_amount :: "64 word"
  r_currency :: str
  r_transaction_kind :: str
  r_status :: str
  r_failure_reason :: "str option"
  r_idempotency_key :: str
  r_environment :: "str option"
  r_description :: "str option"
  r_external_recipient_id :: "str option"
  r_reference_id :: "uuid option"
  r_retry_count :: "32 word"
  r_last_attempted_at :: "time option"
  r_next_retry_at :: "time option"
  r_terminal_failure_at :: "time option"
  r_created_at :: time
  r_updated_at :: time

record db =
  db_accounts :: "account_row list"
  db_transactions :: "tx_row list"

text \<open>\<^verbatim>\<open>UPDATE ... SET ... WHERE p RETURNING ...\<close>: the updated rows and the new table.\<close>

definition update_returning :: "('r \<Rightarrow> bool) \<Rightarrow> ('r \<Rightarrow> 'r) \<Rightarrow> 'r list \<Rightarrow> 'r list \<times> 'r list" where
  "update_returning p f rows = (map f (filter p rows), map (\<lambda>r. if p r then f r else r) rows)"

text \<open>The unique index \<^verbatim>\<open>idx_transactions_org_env_idempotency_key\<close>.\<close>

definition idem_key :: "tx_row \<Rightarrow> uuid \<times> str option \<times> str" where
  "idem_key r = (r_organization_id r, r_environment r, r_idempotency_key r)"

text \<open>CHECK, NOT NULL and length constraints of the transactions table.\<close>

definition tx_row_ok :: "tx_row \<Rightarrow> bool" where
  "tx_row_ok r \<longleftrightarrow>
     r_transaction_kind r \<in> {u ''deposit'', u ''withdraw'', u ''transfer''} \<and>
     r_status r \<in> {u ''pending'', u ''posting'', u ''posted'', u ''failed''} \<and>
     r_environment r \<in> {Some (u ''sandbox''), Some (u ''production'')} \<and>
     length (r_currency r) \<le> 3 \<and>
     length (r_idempotency_key r) \<le> 255 \<and>
     (case r_external_recipient_id r of None \<Rightarrow> True | Some x \<Rightarrow> length x \<le> 255)"

definition account_row_ok :: "account_row \<Rightarrow> bool" where
  "account_row_ok a \<longleftrightarrow>
     a_account_type a \<in> {u ''checking'', u ''saving''} \<and>
     a_status a \<in> {u ''active'', u ''suspended'', u ''closed''} \<and>
     a_environment a \<in> {u ''sandbox'', u ''production''} \<and>
     length (a_account_number a) \<le> 50 \<and>
     length (a_currency a) \<le> 3"

text \<open>What the schema guarantees of a table.\<close>

definition tx_table_ok :: "tx_row list \<Rightarrow> bool" where
  "tx_table_ok rows \<longleftrightarrow>
     distinct (map r_id rows) \<and> distinct (map idem_key rows) \<and> list_all tx_row_ok rows"

definition account_table_ok :: "account_row list \<Rightarrow> bool" where
  "account_table_ok rows \<longleftrightarrow>
     distinct (map a_id rows) \<and> distinct (map a_account_number rows) \<and> list_all account_row_ok rows"

definition db_ok :: "db \<Rightarrow> bool" where
  "db_ok d \<longleftrightarrow> account_table_ok (db_accounts d) \<and> tx_table_ok (db_transactions d)"

lemma update_returning_simps [simp]:
  "fst (update_returning p f rows) = map f (filter p rows)"
  "snd (update_returning p f rows) = map (\<lambda>r. if p r then f r else r) rows"
  by (simp_all add: update_returning_def)

lemma map_update_key:
  assumes "\<And>r. k (f r) = k r"
  shows "map k (map (\<lambda>r. if p r then f r else r) rows) = map k rows"
  using assms by (induction rows) auto

lemma tx_table_ok_update:
  assumes "tx_table_ok rows" "\<And>r. r_id (f r) = r_id r" "\<And>r. idem_key (f r) = idem_key r"
    and "\<And>r. tx_row_ok r \<Longrightarrow> tx_row_ok (f r)"
  shows "tx_table_ok (map (\<lambda>r. if p r then f r else r) rows)"
proof -
  have "list_all tx_row_ok (map (\<lambda>r. if p r then f r else r) rows)"
    using assms(1,4) by (auto simp: tx_table_ok_def list_all_iff)
  moreover have "map r_id (map (\<lambda>r. if p r then f r else r) rows) = map r_id rows"
    by (rule map_update_key) (rule assms(2))
  moreover have "map idem_key (map (\<lambda>r. if p r then f r else r) rows) = map idem_key rows"
    by (rule map_update_key) (rule assms(3))
  ultimately show ?thesis
    using assms(1) unfolding tx_table_ok_def by (simp del: map_map)
qed

lemma account_table_ok_update:
  assumes "account_table_ok rows" "\<And>r. a_id (f r) = a_id r"
    and "\<And>r. a_account_number (f r) = a_account_number r"
    and "\<And>r. account_row_ok r \<Longrightarrow> account_row_ok (f r)"
  shows "account_table_ok (map (\<lambda>r. if p r then f r else r) rows)"
proof -
  have "list_all account_row_ok (map (\<lambda>r. if p r then f r else r) rows)"
    using assms(1,4) by (auto simp: account_table_ok_def list_all_iff)
  moreover have "map a_id (map (\<lambda>r. if p r then f r else r) rows) = map a_id rows"
    by (rule map_update_key) (rule assms(2))
  moreover have "map a_account_number (map (\<lambda>r. if p r then f r else r) rows) = map a_account_number rows"
    by (rule map_update_key) (rule assms(3))
  ultimately show ?thesis
    using assms(1) unfolding account_table_ok_def by (simp del: map_map)
qed

section \<open>Remote services\<close>

text \<open>The requests the ledger client sends (\<^verbatim>\<open>proto/ledger.proto\<close>) and what can come back:
  the timeout expiring, an error status, or a response message.\<close>

record post_request =
  pr_organization_id :: str
  pr_environment :: int
  pr_source :: str
  pr_destination :: str
  pr_amount :: "64 word"
  pr_currency :: str
  pr_external_transaction_id :: str
  pr_idempotency_key :: str
  pr_correlation_id :: str

record balance_request =
  br_organization_id :: str
  br_environment :: int
  br_external_account_id :: str
  br_currency :: str

record balances_request =
  bsr_organization_id :: str
  bsr_environment :: int
  bsr_from :: str
  bsr_to :: str
  bsr_currency :: str

datatype 'a rpc_reply = Timed_Out | Rpc_Error str | Reply 'a

datatype connect_result = Connected | Bad_Url str | Connect_Failed str

datatype db_fault = No_Fault | Fault_Before str | Fault_After str

record 'x params =
  p_other :: "nat \<Rightarrow> db \<Rightarrow> db"
  p_fault :: "nat \<Rightarrow> db_fault"
  p_clock :: "nat \<Rightarrow> time"
  p_uuid :: "nat \<Rightarrow> uuid"
  p_locked :: "nat \<Rightarrow> uuid \<Rightarrow> bool"
  p_constraint_error :: str
  p_uuid_str :: "uuid \<Rightarrow> str"
  p_uuid_parse :: "str \<Rightarrow> uuid option"
  p_rfc3339 :: "time \<Rightarrow> str"
  p_digits :: "nat \<Rightarrow> nat \<Rightarrow> nat"
  p_luhn :: "str \<Rightarrow> nat option"
  p_env_var :: "str \<Rightarrow> str option"
  p_connect :: "nat \<Rightarrow> connect_result"
  p_post :: "post_request \<Rightarrow> 'x \<Rightarrow> (str \<times> str) rpc_reply \<times> 'x"
  p_balance :: "balance_request \<Rightarrow> 'x \<Rightarrow> str rpc_reply \<times> 'x"
  p_balances :: "balances_request \<Rightarrow> 'x \<Rightarrow> (str \<times> str) rpc_reply \<times> 'x"
  p_validate_key :: "str \<Rightarrow> str \<Rightarrow> 'x \<Rightarrow> (grpc_status + str \<times> str \<times> str) \<times> 'x"
  p_resolve_user ::
    "str \<Rightarrow> str \<Rightarrow> str \<Rightarrow> str \<Rightarrow> str \<Rightarrow> 'x \<Rightarrow> (grpc_status + str \<times> str \<times> str) \<times> 'x"
  p_audit_client :: bool

record 'x world =
  w_db :: db
  w_ext :: 'x
  w_channel :: bool
  w_posts :: "post_request list"
  w_audit :: "audit_event list"
  w_tick :: nat

type_synonym ('x, 'a) svc = "('x world, app_error, 'a) io"

text \<open>One external interaction that is not a statement: it only advances the tick.\<close>

definition tick :: "('x world, 'e, nat) io" where
  "tick = (\<lambda>w. (Inr (w_tick w), w\<lparr>w_tick := Suc (w_tick w)\<rparr>))"

definition utc_now :: "'x params \<Rightarrow> ('x world, 'e, time) io" where
  "utc_now P = bind_io tick (\<lambda>t. ret (p_clock P t))"

definition new_v4 :: "'x params \<Rightarrow> ('x world, 'e, uuid) io" where
  "new_v4 P = bind_io tick (\<lambda>t. ret (p_uuid P t))"

section \<open>Statements\<close>

text \<open>One statement in its own transaction. The tables may first be changed by other processes;
  then the statement runs atomically, unless a fault turns it into an error, with or without its
  effect.\<close>

definition db_query ::
  "'x params \<Rightarrow> (nat \<Rightarrow> db \<Rightarrow> (app_error + 'a) \<times> db) \<Rightarrow> ('x, 'a) svc" where
  "db_query P q = (\<lambda>w.
     let t = w_tick w; d = p_other P t (w_db w) in
     case p_fault P t of
       Fault_Before e \<Rightarrow> (Inl (Database e), w\<lparr>w_db := d, w_tick := Suc t\<rparr>)
     | Fault_After e \<Rightarrow> (Inl (Database e), w\<lparr>w_db := snd (q t d), w_tick := Suc t\<rparr>)
     | No_Fault \<Rightarrow> (fst (q t d), w\<lparr>w_db := snd (q t d), w_tick := Suc t\<rparr>))"

text \<open>\<^verbatim>\<open>pool.begin()\<close>, one statement and what is computed from it, \<^verbatim>\<open>commit()\<close>. A
  statement that fails, or a commit that fails before it takes effect, leaves no trace; a commit
  whose acknowledgement is lost does. \<^verbatim>\<open>NOW()\<close> is the time of the \<^verbatim>\<open>BEGIN\<close>.\<close>

definition db_transaction ::
  "'x params \<Rightarrow> (nat \<Rightarrow> db \<Rightarrow> (app_error + 'a) \<times> db) \<Rightarrow> ('x, 'a) svc" where
  "db_transaction P q = (\<lambda>w.
     let t = w_tick w; d0 = p_other P t (w_db w); d = p_other P (Suc t) d0 in
     case p_fault P t of
       Fault_Before e \<Rightarrow> (Inl (Database e), w\<lparr>w_db := d0, w_tick := Suc t\<rparr>)
     | Fault_After e \<Rightarrow> (Inl (Database e), w\<lparr>w_db := d0, w_tick := Suc t\<rparr>)
     | No_Fault \<Rightarrow>
        (case p_fault P (Suc t) of
           Fault_Before e \<Rightarrow> (Inl (Database e), w\<lparr>w_db := d, w_tick := t + 2\<rparr>)
         | Fault_After e \<Rightarrow> (Inl (Database e), w\<lparr>w_db := d, w_tick := t + 2\<rparr>)
         | No_Fault \<Rightarrow>
            (case q t d of
               (Inl e, _) \<Rightarrow> (Inl e, w\<lparr>w_db := d, w_tick := t + 2\<rparr>)
             | (Inr a, d') \<Rightarrow>
                (case p_fault P (t + 2) of
                   Fault_Before e \<Rightarrow> (Inl (Database e), w\<lparr>w_db := d, w_tick := t + 3\<rparr>)
                 | Fault_After e \<Rightarrow> (Inl (Database e), w\<lparr>w_db := d', w_tick := t + 3\<rparr>)
                 | No_Fault \<Rightarrow> (Inr a, w\<lparr>w_db := d', w_tick := t + 3\<rparr>)))))"

text \<open>\<^verbatim>\<open>fetch_one\<close> on no rows is sqlx's \<^verbatim>\<open>RowNotFound\<close>.\<close>

definition row_not_found :: app_error where
  "row_not_found =
     Database (u ''no rows returned by a query that expected to return at least one row'')"

definition fetch_one :: "'r list \<Rightarrow> app_error + 'r" where
  "fetch_one rows = (case rows of [] \<Rightarrow> Inl row_not_found | r # _ \<Rightarrow> Inr r)"

definition fetch_optional :: "'r list \<Rightarrow> 'r option" where
  "fetch_optional rows = (case rows of [] \<Rightarrow> None | r # _ \<Rightarrow> Some r)"

text \<open>A run of the service alone on its database: no other process, no fault.\<close>

definition undisturbed :: "'x params \<Rightarrow> bool" where
  "undisturbed P \<longleftrightarrow> (\<forall>t. p_other P t = id) \<and> (\<forall>t. p_fault P t = No_Fault)"

lemma db_query_undisturbed [simp]:
  "undisturbed P \<Longrightarrow>
   db_query P q w = (fst (q (w_tick w) (w_db w)),
     w\<lparr>w_db := snd (q (w_tick w) (w_db w)), w_tick := Suc (w_tick w)\<rparr>)"
  by (simp add: db_query_def undisturbed_def Let_def)

text \<open>Frame: a statement changes nothing but the tables and the tick.\<close>

lemma db_query_frame:
  "w_posts (snd (db_query P q w)) = w_posts w"
  "w_audit (snd (db_query P q w)) = w_audit w"
  "w_ext (snd (db_query P q w)) = w_ext w"
  by (simp_all add: db_query_def Let_def split: db_fault.splits)

lemma db_transaction_frame:
  "w_posts (snd (db_transaction P q w)) = w_posts w"
  "w_audit (snd (db_transaction P q w)) = w_audit w"
  "w_ext (snd (db_transaction P q w)) = w_ext w"
  by (simp_all add: db_transaction_def Let_def split: db_fault.splits prod.splits sum.splits)

lemma tick_apply [io_simps]: "tick w = (Inr (w_tick w), w\<lparr>w_tick := Suc (w_tick w)\<rparr>)"
  by (simp add: tick_def)

end
