(* ===== verification/Pagination.thy ===== *)
theory Pagination
  imports World
begin

text \<open>
  The page arithmetic shared by every paginated listing of the accounts service: the 32-bit offset
  of a page, the number of pages, and \<^verbatim>\<open>LIMIT/OFFSET\<close>. The locale \<open>paged_listing\<close> is
  what a listing promises to its client, that pages 1, 2, ... of a fixed size put together are the
  whole result.

  The code computes \<^verbatim>\<open>(total as f64 / per_page as f64).ceil() as u32\<close>. Below \<open>2 ^ 53\<close> rows
  the doubles are exact enough for this to be the exact ceiling, saturated at \<^verbatim>\<open>u32::MAX\<close>,
  and that is what \<open>total_pages\<close> computes; \<open>0 / 0\<close> is NaN and converts to 0.
\<close>

definition page_offset :: "32 word \<Rightarrow> 32 word \<Rightarrow> 32 word" where
  "page_offset page per_page = (page - 1) * per_page"

definition total_pages :: "64 word \<Rightarrow> 32 word \<Rightarrow> 32 word" where
  "total_pages count per_page =
     (if per_page = 0 then (if count = 0 then 0 else - 1)
      else let q = (nat (sint count) + unat per_page - 1) div unat per_page
           in if q < 2 ^ 32 then of_nat q else - 1)"

definition limit_offset :: "32 word \<Rightarrow> 32 word \<Rightarrow> 'r list \<Rightarrow> 'r list" where
  "limit_offset limit offset rows = take (unat limit) (drop (unat offset) rows)"

definition make_pagination :: "32 word \<Rightarrow> 32 word \<Rightarrow> nat \<Rightarrow> pagination_meta" where
  "make_pagination page per_page n =
     \<lparr>pm_page = page, pm_per_page = per_page, pm_total_count = of_nat n,
      pm_total_pages = total_pages (of_nat n) per_page\<rparr>"

lemma page_offset_exact:
  assumes "1 \<le> unat page" "(unat page - 1) * unat per_page < 2 ^ 32"
  shows "unat (page_offset page per_page) = (unat page - 1) * unat per_page"
proof -
  have "page \<noteq> 0" using assms(1) by auto
  then have "unat (page - 1) = unat page - 1"
    by (simp add: unat_minus_one)
  then show ?thesis
    using assms(2) by (simp add: page_offset_def unat_word_ariths)
qed

lemma concat_pages:
  "concat (map (\<lambda>k. take m (drop (k * m) xs)) [0..<n]) = take (n * m) xs"
proof (induction n)
  case (Suc n)
  have "take (n * m + m) xs = take (n * m) xs @ take m (drop (n * m) xs)"
    by (rule take_add)
  then have "take (Suc n * m) xs = take (n * m) xs @ take m (drop (n * m) xs)"
    by (simp only: mult_Suc add.commute)
  with Suc show ?case by simp
qed simp

lemma length_limit_offset: "length (limit_offset l off xs) \<le> unat l"
  by (simp add: limit_offset_def)

locale paged_listing =
  fixes fetch :: "'d \<Rightarrow> 32 word \<Rightarrow> 32 word \<Rightarrow> 'r list"
    and listing :: "'d \<Rightarrow> 'r list"
  assumes fetch_page: "fetch d page per_page = limit_offset per_page (page_offset page per_page) (listing d)"
begin

lemma page_bounded: "length (fetch d page per_page) \<le> unat per_page"
  by (simp add: fetch_page length_limit_offset)

lemma page_sub: "set (fetch d page per_page) \<subseteq> set (listing d)"
  unfolding fetch_page limit_offset_def
  by (meson in_set_dropD in_set_takeD subsetI)

lemma fetch_nth_page:
  assumes "Suc k < 2 ^ 32" "k * unat per_page < 2 ^ 32"
  shows "fetch d (of_nat (Suc k)) per_page = take (unat per_page) (drop (k * unat per_page) (listing d))"
proof -
  have un: "unat (of_nat (Suc k) :: 32 word) = Suc k"
    using assms(1) by (simp add: unat_of_nat del: of_nat_Suc)
  then have "unat (page_offset (of_nat (Suc k)) per_page) = k * unat per_page"
    using page_offset_exact [of "of_nat (Suc k)" per_page] assms(2) by simp
  then show ?thesis by (simp add: fetch_page limit_offset_def)
qed

lemma pages_concat:
  assumes n: "n < 2 ^ 32" and small: "n * unat per_page < 2 ^ 32"
    and enough: "length (listing d) \<le> n * unat per_page"
  shows "concat (map (\<lambda>k. fetch d (of_nat (Suc k)) per_page) [0..<n]) = listing d"
proof -
  have "fetch d (of_nat (Suc k)) per_page = take (unat per_page) (drop (k * unat per_page) (listing d))"
    if "k < n" for k
  proof (rule fetch_nth_page)
    show "Suc k < 2 ^ 32" using that n by simp
    have "k * unat per_page \<le> n * unat per_page" using that by simp
    then show "k * unat per_page < 2 ^ 32" using small by linarith
  qed
  then have "concat (map (\<lambda>k. fetch d (of_nat (Suc k)) per_page) [0..<n])
      = concat (map (\<lambda>k. take (unat per_page) (drop (k * unat per_page) (listing d))) [0..<n])"
    by (intro arg_cong [where f = concat] map_cong) auto
  also have "\<dots> = listing d" using enough by (simp add: concat_pages)
  finally show ?thesis .
qed

end

end
