(* ===== verification/Tx_Repo.thy ===== *)
theory Tx_Repo
  imports Pagination
begin

text \<open>
  The transaction repository (\<^verbatim>\<open>accounts-service/src/repositories/transaction_repository.rs\<close>).
  Each SQL statement is a function \<open>..._stmt\<close> on the rows of the table, and each repository
  function runs its statements through \<open>db_query\<close>. A \<^verbatim>\<open>chrono::Duration\<close> is its
  number of nanoseconds.

  Two choices PostgreSQL leaves open are fixed: rows that tie in an \<^verbatim>\<open>ORDER BY\<close> keep the order of
  the table, and \<^verbatim>\<open>RETURNING\<close> lists the updated rows in table order.
\<close>

section \<open>Rows and structs\<close>

definition parse_kind :: "str \<Rightarrow> transaction_kind option" where
  "parse_kind s =
     (if s = u ''deposit'' then Some Deposit
      else if s = u ''withdraw'' then Some Withdraw
      else if s = u ''transfer'' then Some Transfer
      else None)"

definition parse_status :: "str \<Rightarrow> transaction_status option" where
  "parse_status s =
     (if s = u ''pending'' then Some Pending
      else if s = u ''posting'' then Some Posting
      else if s = u ''posted'' then Some Posted
      else if s = u ''failed'' then Some Failed
      else None)"

text \<open>\<open>full\<close> tells whether the statement returns the retry columns; the struct gets the
  defaults otherwise.\<close>

definition row_to_transaction :: "bool \<Rightarrow> tx_row \<Rightarrow> app_error + transaction" where
  "row_to_transaction full r =
     (case parse_kind (r_transaction_kind r) of
        None \<Rightarrow> Inl (Internal (u ''Invalid transaction kind''))
      | Some kind \<Rightarrow>
     (case parse_status (r_status r) of
        None \<Rightarrow> Inl (Internal (u ''Invalid transaction status''))
      | Some status \<Rightarrow> Inr
         \<lparr>tx_id = r_id r,
          tx_organization_id = r_organization_id r,
          tx_from_account_id = r_from_account_id r,
          tx_to_account_id = r_to_account_id r,
          tx_amount = r_amount r,
          tx_currency = r_currency r,
          tx_transaction_kind = kind,
          tx_status = status,
          tx_failure_reason = r_failure_reason r,
          tx_idempotency_key = r_idempotency_key r,
          tx_environment = r_environment r,
          tx_description = r_description r,
          tx_external_recipient_id = r_external_recipient_id r,
          tx_reference_id = r_reference_id r,
          tx_retry_count = (if full then r_retry_count r else 0),
          tx_last_attempted_at = (if full then r_last_attempted_at r else None),
          tx_next_retry_at = (if full then r_next_retry_at r else None),
          tx_terminal_failure_at = (if full then r_terminal_failure_at r else None),
          tx_created_at = r_created_at r,
          tx_updated_at = r_updated_at r\<rparr>))"

definition num_seconds :: "int \<Rightarrow> int" where
  "num_seconds d = (if d < 0 then - ((- d) div 1000000000) else d div 1000000000)"

definition seconds :: "int \<Rightarrow> int" where
  "seconds s = s * 1000000000"

definition on_transactions :: "(tx_row list \<Rightarrow> 'a \<times> tx_row list) \<Rightarrow> db \<Rightarrow> 'a \<times> db" where
  "on_transactions f d =
     (fst (f (db_transactions d)), d\<lparr>db_transactions := snd (f (db_transactions d))\<rparr>)"

section \<open>Statements\<close>

subsection \<open>Reconciliation\<close>

definition requeue_stale_stmt :: "time \<Rightarrow> int \<Rightarrow> tx_row list \<Rightarrow> tx_row list \<times> tx_row list" where
  "requeue_stale_stmt now stale_secs =
     update_returning
       (\<lambda>r. r_status r = u ''posting'' \<and> r_updated_at r < now - stale_secs * 1000000)
       (\<lambda>r. r\<lparr>r_status := u ''pending'',
              r_failure_reason := Some (u ''reconciler: posting stale; requeued''),
              r_updated_at := now\<rparr>)"

definition fail_aged_stmt :: "time \<Rightarrow> int \<Rightarrow> tx_row list \<Rightarrow> tx_row list \<times> tx_row list" where
  "fail_aged_stmt now pending_secs =
     update_returning
       (\<lambda>r. r_status r = u ''pending'' \<and> r_created_at r < now - pending_secs * 1000000 \<and>
            1 \<le> sint (r_retry_count r))
       (\<lambda>r. r\<lparr>r_status := u ''failed'',
              r_failure_reason :=
                Some (unwrap_or (r_failure_reason r) (u ''reconciler: pending age exceeded'')),
              r_next_retry_at := None,
              r_terminal_failure_at := Some now,
              r_updated_at := now\<rparr>)"

subsection \<open>Creation and lookups\<close>

definition idem_match :: "uuid \<Rightarrow> str \<Rightarrow> str \<Rightarrow> tx_row \<Rightarrow> bool" where
  "idem_match org env key r \<longleftrightarrow>
     r_organization_id r = org \<and> r_environment r = Some env \<and> r_idempotency_key r = key"

definition select_idem_stmt :: "uuid \<Rightarrow> str \<Rightarrow> str \<Rightarrow> tx_row list \<Rightarrow> tx_row list" where
  "select_idem_stmt org env key rows = take 1 (filter (idem_match org env key) rows)"

text \<open>The row the \<^verbatim>\<open>INSERT\<close> adds: the bound columns, and the column defaults.\<close>

definition new_tx_row ::
  "time \<Rightarrow> uuid \<Rightarrow> uuid \<Rightarrow> uuid \<Rightarrow> uuid \<Rightarrow> 64 word \<Rightarrow> str \<Rightarrow> transaction_kind \<Rightarrow> str \<Rightarrow> str
   \<Rightarrow> str option \<Rightarrow> str option \<Rightarrow> uuid option \<Rightarrow> tx_row" where
  "new_tx_row now fresh org from_id to_id amount currency kind key env description external reference =
     \<lparr>r_id = fresh,
      r_organization_id = org,
      r_from_account_id = from_id,
      r_to_account_id = to_id,
      r_amount = amount,
      r_currency = currency,
      r_transaction_kind = kind_str kind,
      r_status = u ''pending'',
      r_failure_reason = None,
      r_idempotency_key = key,
      r_environment = Some env,
      r_description = description,
      r_external_recipient_id = external,
      r_reference_id = reference,
      r_retry_count = 0,
      r_last_attempted_at = None,
      r_next_retry_at = None,
      r_terminal_failure_at = None,
      r_created_at = now,
      r_updated_at = now\<rparr>"

definition insert_ok :: "tx_row \<Rightarrow> tx_row list \<Rightarrow> bool" where
  "insert_ok row rows \<longleftrightarrow>
     tx_row_ok row \<and> r_id row \<notin> r_id ` set rows \<and> idem_key row \<notin> idem_key ` set rows"

definition create_or_get_stmt ::
  "str \<Rightarrow> tx_row \<Rightarrow> tx_row list \<Rightarrow> (app_error + tx_row list) \<times> tx_row list" where
  "create_or_get_stmt constraint_error row rows =
     (case select_idem_stmt (r_organization_id row) (the (r_environment row)) (r_idempotency_key row) rows of
        r # _ \<Rightarrow> (Inr [r], rows)
      | [] \<Rightarrow>
          if insert_ok row rows then (Inr [row], rows @ [row])
          else (Inl (Database constraint_error), rows))"

definition select_id_stmt :: "uuid \<Rightarrow> tx_row list \<Rightarrow> tx_row list" where
  "select_id_stmt i rows = filter (\<lambda>r. r_id r = i) rows"

definition sql_limit :: "str \<Rightarrow> 64 word \<Rightarrow> 'r list \<Rightarrow> app_error + 'r list" where
  "sql_limit error limit rows =
     (if sint limit < 0 then Inl (Database error) else Inr (take (nat (sint limit)) rows))"

definition select_account_stmt :: "uuid \<Rightarrow> str option \<Rightarrow> tx_row list \<Rightarrow> tx_row list" where
  "select_account_stmt acc env rows =
     sort_desc r_created_at
       (filter (\<lambda>r. (r_from_account_id r = acc \<or> r_to_account_id r = acc) \<and>
                    (env = None \<or> r_environment r = env)) rows)"

definition org_listing :: "uuid \<Rightarrow> str \<Rightarrow> tx_row list \<Rightarrow> tx_row list" where
  "org_listing org env rows =
     sort_desc (\<lambda>r. (r_created_at r, uint (r_id r)))
       (filter (\<lambda>r. r_organization_id r = org \<and> r_environment r = Some env) rows)"

subsection \<open>Claiming\<close>

definition try_claim_stmt :: "time \<Rightarrow> uuid \<Rightarrow> tx_row list \<Rightarrow> tx_row list \<times> tx_row list" where
  "try_claim_stmt now i =
     update_returning
       (\<lambda>r. r_id r = i \<and> r_status r = u ''pending'')
       (\<lambda>r. r\<lparr>r_status := u ''posting'', r_failure_reason := None, r_updated_at := now\<rparr>)"

definition reclaim_stmt :: "time \<Rightarrow> int \<Rightarrow> str option \<Rightarrow> tx_row list \<Rightarrow> tx_row list \<times> tx_row list" where
  "reclaim_stmt now stale_secs env =
     update_returning
       (\<lambda>r. r_status r = u ''posting'' \<and> r_updated_at r < now - stale_secs * 1000000 \<and>
            (env = None \<or> r_environment r = env))
       (\<lambda>r. r\<lparr>r_status := u ''pending'',
              r_failure_reason := Some (u ''posting lease expired; reclaimed for retry''),
              r_updated_at := now\<rparr>)"

definition claimable :: "time \<Rightarrow> int \<Rightarrow> str option \<Rightarrow> tx_row \<Rightarrow> bool" where
  "claimable now older_secs env r \<longleftrightarrow>
     r_status r = u ''pending'' \<and>
     r_created_at r < now - older_secs * 1000000 \<and>
     (case r_next_retry_at r of None \<Rightarrow> True | Some t \<Rightarrow> t \<le> now) \<and>
     (env = None \<or> r_environment r = env)"

text \<open>The candidates: \<^verbatim>\<open>FOR UPDATE SKIP LOCKED\<close> passes over the rows another transaction holds,
  and only then does the \<^verbatim>\<open>LIMIT\<close> count. The increment of the INTEGER column fails at its
  largest value.\<close>

definition claim_batch_stmt ::
  "str \<Rightarrow> time \<Rightarrow> (uuid \<Rightarrow> bool) \<Rightarrow> int \<Rightarrow> 64 word \<Rightarrow> str option \<Rightarrow> tx_row list
   \<Rightarrow> (app_error + tx_row list) \<times> tx_row list" where
  "claim_batch_stmt error now locked older_secs limit env rows =
     (case sql_limit error limit
             (filter (\<lambda>r. \<not> locked (r_id r))
               (sort_key r_created_at (filter (claimable now older_secs env) rows))) of
        Inl e \<Rightarrow> (Inl e, rows)
      | Inr candidates \<Rightarrow>
          if list_ex (\<lambda>r. r_retry_count r = 0x7FFFFFFF) candidates
          then (Inl (Database error), rows)
          else
            let upd = update_returning (\<lambda>r. r_id r \<in> set (map r_id candidates))
                  (\<lambda>r. r\<lparr>r_status := u ''posting'',
                         r_failure_reason := None,
                         r_retry_count := r_retry_count r + 1,
                         r_last_attempted_at := Some now,
                         r_updated_at := now\<rparr>) rows
            in (Inr (fst upd), snd upd))"

subsection \<open>Status changes\<close>

definition update_status_stmt ::
  "time \<Rightarrow> uuid \<Rightarrow> transaction_status \<Rightarrow> str option \<Rightarrow> tx_row list \<Rightarrow> tx_row list \<times> tx_row list" where
  "update_status_stmt now i status reason =
     update_returning (\<lambda>r. r_id r = i)
       (\<lambda>r. r\<lparr>r_status := status_str status, r_failure_reason := reason, r_updated_at := now\<rparr>)"

definition schedule_retry_stmt ::
  "time \<Rightarrow> uuid \<Rightarrow> str \<Rightarrow> time \<Rightarrow> tx_row list \<Rightarrow> tx_row list \<times> tx_row list" where
  "schedule_retry_stmt now i reason next_retry_at =
     update_returning (\<lambda>r. r_id r = i)
       (\<lambda>r. r\<lparr>r_status := u ''pending'',
              r_failure_reason := Some reason,
              r_next_retry_at := Some next_retry_at,
              r_terminal_failure_at := None,
              r_updated_at := now\<rparr>)"

definition mark_terminal_stmt ::
  "time \<Rightarrow> uuid \<Rightarrow> str \<Rightarrow> tx_row list \<Rightarrow> tx_row list \<times> tx_row list" where
  "mark_terminal_stmt now i reason =
     update_returning (\<lambda>r. r_id r = i)
       (\<lambda>r. r\<lparr>r_status := u ''failed'',
              r_failure_reason := Some reason,
              r_next_retry_at := None,
              r_terminal_failure_at := Some now,
              r_updated_at := now\<rparr>)"

section \<open>Repository functions\<close>

text \<open>A statement that reads, updates, or may be rejected.\<close>

definition tx_read :: "(tx_row list \<Rightarrow> 'a) \<Rightarrow> db \<Rightarrow> (app_error + 'a) \<times> db" where
  "tx_read f d = (Inr (f (db_transactions d)), d)"

definition tx_update :: "(tx_row list \<Rightarrow> 'a \<times> tx_row list) \<Rightarrow> db \<Rightarrow> (app_error + 'a) \<times> db" where
  "tx_update f d = (Inr (fst (f (db_transactions d))), snd (on_transactions f d))"

definition tx_try_update ::
  "(tx_row list \<Rightarrow> (app_error + 'a) \<times> tx_row list) \<Rightarrow> db \<Rightarrow> (app_error + 'a) \<times> db" where
  "tx_try_update f d = on_transactions f d"

definition one_transaction :: "bool \<Rightarrow> tx_row list \<Rightarrow> app_error + transaction" where
  "one_transaction full rows =
     (case fetch_one rows of Inl e \<Rightarrow> Inl e | Inr r \<Rightarrow> row_to_transaction full r)"

definition optional_transaction :: "bool \<Rightarrow> tx_row list \<Rightarrow> app_error + transaction option" where
  "optional_transaction full rows =
     (case fetch_optional rows of
        None \<Rightarrow> Inr None
      | Some r \<Rightarrow> (case row_to_transaction full r of Inl e \<Rightarrow> Inl e | Inr t \<Rightarrow> Inr (Some t)))"

definition all_transactions :: "bool \<Rightarrow> tx_row list \<Rightarrow> app_error + transaction list" where
  "all_transactions full rows = collect_results (map (row_to_transaction full) rows)"

definition reconcile_stale_transactions :: "'x params \<Rightarrow> int \<Rightarrow> int \<Rightarrow> ('x, nat \<times> nat) svc" where
  "reconcile_stale_transactions P stale_posting_after max_pending_age =
     (let stale_secs = max (num_seconds stale_posting_after) 1;
          pending_secs = max (num_seconds max_pending_age) 1 in
      bind_io (db_query P (\<lambda>t. tx_update (requeue_stale_stmt (p_clock P t) stale_secs))) (\<lambda>requeued.
      bind_io (db_query P (\<lambda>t. tx_update (fail_aged_stmt (p_clock P t) pending_secs))) (\<lambda>failed.
      ret (length requeued, length failed))))"

text \<open>\<open>create_or_get_by_idempotency\<close> runs inside the caller's transaction: it is the statement
  together with the conversion of its row.\<close>

definition create_or_get_by_idempotency ::
  "'x params \<Rightarrow> uuid \<Rightarrow> uuid \<Rightarrow> uuid \<Rightarrow> 64 word \<Rightarrow> str \<Rightarrow> transaction_kind \<Rightarrow> str \<Rightarrow> str
   \<Rightarrow> str option \<Rightarrow> str option \<Rightarrow> uuid option \<Rightarrow> nat \<Rightarrow> db \<Rightarrow> (app_error + transaction) \<times> db" where
  "create_or_get_by_idempotency P org from_id to_id amount currency kind key env
     description external reference t d =
     (case tx_try_update (create_or_get_stmt (p_constraint_error P)
             (new_tx_row (p_clock P t) (p_uuid P t) org from_id to_id amount currency kind key env
                description external reference)) d of
        (Inl e, d') \<Rightarrow> (Inl e, d')
      | (Inr rows, d') \<Rightarrow> (one_transaction False rows, d'))"

definition find_by_idempotency ::
  "'x params \<Rightarrow> uuid \<Rightarrow> str \<Rightarrow> str \<Rightarrow> ('x, transaction option) svc" where
  "find_by_idempotency P org env key =
     bind_io (db_query P (\<lambda>t. tx_read (select_idem_stmt org env key))) (\<lambda>rows.
     lift_result (optional_transaction False rows))"

definition find_tx_by_id :: "'x params \<Rightarrow> uuid \<Rightarrow> ('x, transaction) svc" where
  "find_tx_by_id P i =
     bind_io (db_query P (\<lambda>t. tx_read (select_id_stmt i))) (\<lambda>rows.
     bind_io (lift_result (ok_or (fetch_optional rows)
        (NotFound (u ''Transaction with id '' @ p_uuid_str P i @ u '' not found'')))) (\<lambda>r.
     lift_result (row_to_transaction False r)))"

definition find_by_account_id ::
  "'x params \<Rightarrow> uuid \<Rightarrow> 64 word option \<Rightarrow> str option \<Rightarrow> ('x, transaction list) svc" where
  "find_by_account_id P acc limit env =
     (let limit = unwrap_or limit 100 in
      bind_io (db_query P (\<lambda>t d.
         (sql_limit (p_constraint_error P) limit (select_account_stmt acc env (db_transactions d)), d))) (\<lambda>rows.
      lift_result (all_transactions False rows)))"

definition find_tx_by_organization_id_paginated ::
  "'x params \<Rightarrow> uuid \<Rightarrow> str \<Rightarrow> 32 word \<Rightarrow> 32 word \<Rightarrow> ('x, transaction list \<times> pagination_meta) svc" where
  "find_tx_by_organization_id_paginated P org env page per_page =
     (let offset = page_offset page per_page in
      bind_io (db_query P (\<lambda>t. tx_read (\<lambda>rows. length (org_listing org env rows)))) (\<lambda>total_count.
      bind_io (db_query P (\<lambda>t. tx_read (\<lambda>rows. limit_offset per_page offset (org_listing org env rows)))) (\<lambda>rows.
      bind_io (lift_result (all_transactions False rows)) (\<lambda>transactions.
      ret (transactions, make_pagination page per_page total_count)))))"

definition try_claim_pending_for_post :: "'x params \<Rightarrow> uuid \<Rightarrow> ('x, transaction option) svc" where
  "try_claim_pending_for_post P i =
     bind_io (db_query P (\<lambda>t. tx_update (try_claim_stmt (p_clock P t) i))) (\<lambda>rows.
     lift_result (optional_transaction False rows))"

definition reclaim_stale_posting_rows :: "'x params \<Rightarrow> int \<Rightarrow> str option \<Rightarrow> ('x, unit) svc" where
  "reclaim_stale_posting_rows P stale_posting_after env =
     (let stale_secs = max (num_seconds stale_posting_after) 1 in
      bind_io (db_query P (\<lambda>t. tx_update (reclaim_stmt (p_clock P t) stale_secs env))) (\<lambda>_. ret ()))"

definition claim_pending_transactions_for_ledger_post ::
  "'x params \<Rightarrow> int \<Rightarrow> int \<Rightarrow> 64 word option \<Rightarrow> str option \<Rightarrow> ('x, transaction list) svc" where
  "claim_pending_transactions_for_ledger_post P older_than stale_posting_after limit env =
     bind_io (reclaim_stale_posting_rows P stale_posting_after env) (\<lambda>_.
     (let limit = unwrap_or limit 100;
          older_secs = max (num_seconds older_than) 1 in
      bind_io (db_query P (\<lambda>t. tx_try_update
         (claim_batch_stmt (p_constraint_error P) (p_clock P t) (p_locked P t) older_secs limit env))) (\<lambda>rows.
      lift_result (all_transactions True rows))))"

definition update_status ::
  "'x params \<Rightarrow> uuid \<Rightarrow> transaction_status \<Rightarrow> str option \<Rightarrow> ('x, transaction) svc" where
  "update_status P i status reason =
     bind_io (db_query P (\<lambda>t. tx_update (update_status_stmt (p_clock P t) i status reason))) (\<lambda>rows.
     lift_result (one_transaction False rows))"

definition schedule_retry :: "'x params \<Rightarrow> uuid \<Rightarrow> str \<Rightarrow> time \<Rightarrow> ('x, transaction) svc" where
  "schedule_retry P i reason next_retry_at =
     bind_io (db_query P (\<lambda>t. tx_update (schedule_retry_stmt (p_clock P t) i reason next_retry_at))) (\<lambda>rows.
     lift_result (one_transaction True rows))"

definition mark_terminal_failure :: "'x params \<Rightarrow> uuid \<Rightarrow> str \<Rightarrow> ('x, transaction) svc" where
  "mark_terminal_failure P i reason =
     bind_io (db_query P (\<lambda>t. tx_update (mark_terminal_stmt (p_clock P t) i reason))) (\<lambda>rows.
     lift_result (one_transaction True rows))"

end
