(* ===== verification/Tx_Table.thy ===== *)
theory Tx_Table
  imports Tx_Repo "HOL-Library.Sublist"
begin

text \<open>
  What the statements of \<open>Tx_Repo\<close> do to the transactions table, one lemma per statement and
  fact: the schema's constraints hold after it, the intent of every row (everything a ledger post
  is made of) is untouched, rows are only appended, and retry counters never fall.
  \<open>tx_step\<close> is the union of all the statements the service issues against the table; the
  facts lift to every run of it.
\<close>

named_theorems tx_frame "frame facts of the statements"

section \<open>Conversion of rows\<close>

lemma parse_kind_str [simp]: "parse_kind (kind_str k) = Some k"
  by (cases k) (simp_all add: parse_kind_def)

lemma parse_status_str [simp]: "parse_status (status_str s) = Some s"
  by (cases s) (simp_all add: parse_status_def)

lemma tx_row_ok_kind: "tx_row_ok r \<Longrightarrow> \<exists>k. r_transaction_kind r = kind_str k"
  unfolding tx_row_ok_def by (metis kind_str.simps insertE singletonD)

lemma tx_row_ok_status: "tx_row_ok r \<Longrightarrow> \<exists>s. r_status r = status_str s"
  unfolding tx_row_ok_def by (metis status_str.simps insertE singletonD)

lemma row_to_transaction_ok:
  assumes "tx_row_ok r"
  shows "\<exists>t. row_to_transaction full r = Inr t"
proof -
  obtain k s where "r_transaction_kind r = kind_str k" "r_status r = status_str s"
    using assms tx_row_ok_kind tx_row_ok_status by blast
  then show ?thesis by (simp add: row_to_transaction_def)
qed

lemma row_to_transaction_InrD:
  assumes "row_to_transaction full r = Inr t"
  shows "kind_str (tx_transaction_kind t) = r_transaction_kind r"
    "status_str (tx_status t) = r_status r"
    "tx_id t = r_id r" "tx_organization_id t = r_organization_id r"
    "tx_from_account_id t = r_from_account_id r" "tx_to_account_id t = r_to_account_id r"
    "tx_amount t = r_amount r" "tx_currency t = r_currency r"
    "tx_idempotency_key t = r_idempotency_key r" "tx_environment t = r_environment r"
    "tx_failure_reason t = r_failure_reason r"
    "full \<Longrightarrow> tx_retry_count t = r_retry_count r"
    "tx_created_at t = r_created_at r" "tx_updated_at t = r_updated_at r"
  using assms
  by (auto simp: row_to_transaction_def parse_kind_def parse_status_def split: if_splits)

lemma all_transactions_ok:
  assumes "list_all tx_row_ok rows"
  shows "\<exists>ts. all_transactions full rows = Inr ts \<and> map tx_id ts = map r_id rows"
  using assms
proof (induction rows)
  case (Cons r rows)
  then obtain ts where "all_transactions full rows = Inr ts" "map tx_id ts = map r_id rows" by auto
  moreover obtain t where "row_to_transaction full r = Inr t"
    using Cons.prems row_to_transaction_ok by fastforce
  ultimately show ?case
    by (auto simp: all_transactions_def dest: row_to_transaction_InrD(3))
qed (simp add: all_transactions_def)

section \<open>Intent\<close>

text \<open>Everything the ledger is told about, as it was written at creation.\<close>

record tx_intent =
  ti_id :: uuid
  ti_organization_id :: uuid
  ti_from :: uuid
  ti_to :: uuid
  ti_amount :: "64 word"
  ti_currency :: str
  ti_kind :: str
  ti_key :: str
  ti_environment :: "str option"
  ti_created_at :: time

definition intent :: "tx_row \<Rightarrow> tx_intent" where
  "intent r =
     \<lparr>ti_id = r_id r, ti_organization_id = r_organization_id r, ti_from = r_from_account_id r,
      ti_to = r_to_account_id r, ti_amount = r_amount r, ti_currency = r_currency r,
      ti_kind = r_transaction_kind r, ti_key = r_idempotency_key r,
      ti_environment = r_environment r, ti_created_at = r_created_at r\<rparr>"

definition evolves :: "tx_row list \<Rightarrow> tx_row list \<Rightarrow> bool" where
  "evolves rows rows' \<longleftrightarrow>
     prefix (map intent rows) (map intent rows') \<and>
     list_all2 (\<lambda>r r'. sint (r_retry_count r) \<le> sint (r_retry_count r'))
       rows (take (length rows) rows')"

lemma evolves_refl [simp]: "evolves rows rows"
  by (simp add: evolves_def list.rel_refl)

lemma evolves_trans:
  assumes ab: "evolves a b" and bc: "evolves b c"
  shows "evolves a c"
proof -
  have "prefix (map intent a) (map intent c)"
    using assms prefix_order.trans unfolding evolves_def by blast
  moreover have len: "length a \<le> length b" "length b \<le> length c"
    using assms unfolding evolves_def by (metis prefix_length_le length_map)+
  moreover have "sint (r_retry_count (a ! i)) \<le> sint (r_retry_count (take (length a) c ! i))"
    if "i < length a" for i
  proof -
    have "sint (r_retry_count (a ! i)) \<le> sint (r_retry_count (b ! i))"
      using ab that unfolding evolves_def by (auto simp: list_all2_conv_all_nth)
    also have "\<dots> \<le> sint (r_retry_count (c ! i))"
      using bc that len unfolding evolves_def by (auto simp: list_all2_conv_all_nth)
    finally show ?thesis using that by simp
  qed
  ultimately show ?thesis
    unfolding evolves_def by (auto simp: list_all2_conv_all_nth)
qed

lemma evolves_update:
  assumes "\<And>r. intent (f r) = intent r"
    and "\<And>r. r \<in> set rows \<Longrightarrow> p r \<Longrightarrow> sint (r_retry_count r) \<le> sint (r_retry_count (f r))"
  shows "evolves rows (map (\<lambda>r. if p r then f r else r) rows)"
proof -
  have "map intent (map (\<lambda>r. if p r then f r else r) rows) = map intent rows"
    by (rule map_update_key) (rule assms(1))
  then show ?thesis
    using assms(2) unfolding evolves_def
    by (auto simp: list_all2_conv_all_nth simp del: map_map)
qed

lemma evolves_append: "evolves rows (rows @ new)"
  by (simp add: evolves_def list.rel_refl)

lemma evolves_row:
  assumes "evolves rows rows'" "r \<in> set rows"
  shows "\<exists>r' \<in> set rows'. intent r' = intent r \<and> sint (r_retry_count r) \<le> sint (r_retry_count r')"
proof -
  obtain i where i: "i < length rows" "r = rows ! i"
    using assms(2) by (metis in_set_conv_nth)
  have len: "length rows \<le> length rows'"
    using assms(1) unfolding evolves_def by (metis prefix_length_le length_map)
  have "intent (rows' ! i) = intent (rows ! i)"
  proof -
    obtain zs where "map intent rows' = map intent rows @ zs"
      using assms(1) unfolding evolves_def by (blast elim: prefixE)
    then have "map intent rows' ! i = map intent rows ! i" using i by (simp add: nth_append)
    then show ?thesis using i len by simp
  qed
  moreover have "sint (r_retry_count (rows ! i)) \<le> sint (r_retry_count (rows' ! i))"
    using assms(1) i unfolding evolves_def by (auto simp: list_all2_conv_all_nth)
  ultimately show ?thesis using i len by (metis nth_mem order_less_le_trans)
qed

section \<open>The statements, one by one\<close>

lemma sint_incr: "(x :: 32 word) \<noteq> 0x7FFFFFFF \<Longrightarrow> sint (x + 1) = sint x + 1"
proof -
  assume ne: "x \<noteq> 0x7FFFFFFF"
  have "sint x \<noteq> 0x7FFFFFFF"
  proof
    assume "sint x = 0x7FFFFFFF"
    then have "word_of_int (sint x) = (0x7FFFFFFF :: 32 word)" by simp
    with ne show False by simp
  qed
  moreover have "sint x < 2 ^ 31" "- (2 ^ 31) \<le> sint x"
    using sint_lt [of x] sint_ge [of x] by simp_all
  ultimately have "sint x + 1 < 2 ^ 31" "- (2 ^ 31) \<le> sint x + 1" by simp_all
  then show ?thesis
    by (simp add: sint_word_ariths signed_take_bit_int_eq_self)
qed

lemma claim_batch_cases:
  obtains e where "claim_batch_stmt err now locked older limit env rows = (Inl e, rows)"
  | ids where "claim_batch_stmt err now locked older limit env rows =
        (let upd = update_returning (\<lambda>r. r_id r \<in> set ids)
           (\<lambda>r. r\<lparr>r_status := u ''posting'', r_failure_reason := None,
                  r_retry_count := r_retry_count r + 1,
                  r_last_attempted_at := Some now, r_updated_at := now\<rparr>) rows
         in (Inr (fst upd), snd upd))"
      "\<forall>i \<in> set ids. \<exists>r \<in> set rows. r_id r = i \<and> claimable now older env r \<and>
         \<not> locked i \<and> r_retry_count r \<noteq> 0x7FFFFFFF"
proof (cases "sql_limit err limit (filter (\<lambda>r. \<not> locked (r_id r))
        (sort_key r_created_at (filter (claimable now older env) rows)))")
  case (Inl e)
  then show ?thesis using that(1) by (simp add: claim_batch_stmt_def)
next
  case (Inr cands)
  show ?thesis
  proof (cases "list_ex (\<lambda>r. r_retry_count r = 0x7FFFFFFF) cands")
    case True
    with Inr show ?thesis using that(1) by (simp add: claim_batch_stmt_def)
  next
    case False
    have "r \<in> set rows \<and> claimable now older env r \<and> \<not> locked (r_id r) \<and> r_retry_count r \<noteq> 0x7FFFFFFF"
      if "r \<in> set cands" for r
      using that Inr False
      by (auto simp: sql_limit_def list_ex_iff split: if_splits dest: in_set_takeD)
    then have "\<forall>i \<in> set (map r_id cands). \<exists>r \<in> set rows. r_id r = i \<and> claimable now older env r \<and>
         \<not> locked i \<and> r_retry_count r \<noteq> 0x7FFFFFFF" by fastforce
    with Inr False show ?thesis using that(2) [of "map r_id cands"] by (simp add: claim_batch_stmt_def)
  qed
qed

text \<open>The updates that do not touch the columns of the intent or the counter.\<close>

lemma status_update_frame [simp]:
  "intent (r\<lparr>r_status := s, r_failure_reason := m, r_updated_at := t\<rparr>) = intent r"
  "intent (r\<lparr>r_status := s, r_failure_reason := m, r_retry_count := n,
             r_last_attempted_at := l, r_updated_at := t\<rparr>) = intent r"
  "intent (r\<lparr>r_status := s, r_failure_reason := m, r_next_retry_at := x,
             r_terminal_failure_at := y, r_updated_at := t\<rparr>) = intent r"
  by (simp_all add: intent_def)

lemma status_update_ok:
  assumes "s \<in> {u ''pending'', u ''posting'', u ''posted'', u ''failed''}"
  shows "tx_row_ok r \<Longrightarrow> tx_row_ok (r\<lparr>r_status := s, r_failure_reason := m, r_updated_at := t\<rparr>)"
    "tx_row_ok r \<Longrightarrow> tx_row_ok (r\<lparr>r_status := s, r_failure_reason := m, r_retry_count := n,
             r_last_attempted_at := l, r_updated_at := t\<rparr>)"
    "tx_row_ok r \<Longrightarrow> tx_row_ok (r\<lparr>r_status := s, r_failure_reason := m, r_next_retry_at := x,
             r_terminal_failure_at := y, r_updated_at := t\<rparr>)"
  using assms by (simp_all add: tx_row_ok_def)

lemma status_str_valid: "status_str s \<in> {u ''pending'', u ''posting'', u ''posted'', u ''failed''}"
  by (cases s) simp_all

lemma status_str_update_ok:
  "tx_row_ok r \<Longrightarrow> tx_row_ok (r\<lparr>r_status := status_str s, r_failure_reason := m, r_updated_at := t\<rparr>)"
  by (rule status_update_ok(1) [OF status_str_valid])

lemma idem_key_update [simp]:
  "idem_key (r\<lparr>r_status := s, r_failure_reason := m, r_updated_at := t\<rparr>) = idem_key r"
  "idem_key (r\<lparr>r_status := s, r_failure_reason := m, r_retry_count := n,
             r_last_attempted_at := l, r_updated_at := t\<rparr>) = idem_key r"
  "idem_key (r\<lparr>r_status := s, r_failure_reason := m, r_next_retry_at := x,
             r_terminal_failure_at := y, r_updated_at := t\<rparr>) = idem_key r"
  by (simp_all add: idem_key_def)

lemmas update_facts = update_returning_simps status_update_frame idem_key_update

section \<open>All the statements together\<close>

inductive tx_step :: "tx_row list \<Rightarrow> tx_row list \<Rightarrow> bool" where
  requeue: "tx_step rows (snd (requeue_stale_stmt now secs rows))"
| fail_aged: "tx_step rows (snd (fail_aged_stmt now secs rows))"
| create: "r_environment row = Some env \<Longrightarrow> r_status row = u ''pending'' \<Longrightarrow> r_retry_count row = 0 \<Longrightarrow>
    tx_step rows (snd (create_or_get_stmt err row rows))"
| try_claim: "tx_step rows (snd (try_claim_stmt now i rows))"
| reclaim: "tx_step rows (snd (reclaim_stmt now secs env rows))"
| claim_batch: "tx_step rows (snd (claim_batch_stmt err now locked older limit env rows))"
| set_status: "tx_step rows (snd (update_status_stmt now i s reason rows))"
| retry_later: "tx_step rows (snd (schedule_retry_stmt now i m at rows))"
| terminal: "tx_step rows (snd (mark_terminal_stmt now i m rows))"

lemma create_or_get_cases:
  obtains (old) r where "r \<in> set rows" "r_organization_id r = r_organization_id row"
      "r_environment r = Some (the (r_environment row))" "r_idempotency_key r = r_idempotency_key row"
      "create_or_get_stmt err row rows = (Inr [r], rows)"
  | (new) "insert_ok row rows" "create_or_get_stmt err row rows = (Inr [row], rows @ [row])"
      "\<forall>r \<in> set rows. \<not> idem_match (r_organization_id row) (the (r_environment row)) (r_idempotency_key row) r"
  | (rejected) "\<not> insert_ok row rows" "create_or_get_stmt err row rows = (Inl (Database err), rows)"
proof (cases "filter (idem_match (r_organization_id row) (the (r_environment row)) (r_idempotency_key row)) rows")
  case Nil
  then have none: "\<forall>r \<in> set rows. \<not> idem_match (r_organization_id row) (the (r_environment row)) (r_idempotency_key row) r"
    by (simp add: filter_empty_conv)
  show ?thesis
  proof (cases "insert_ok row rows")
    case True
    with Nil none show ?thesis by (intro new) (simp_all add: create_or_get_stmt_def select_idem_stmt_def)
  next
    case False
    with Nil show ?thesis by (intro rejected) (simp_all add: create_or_get_stmt_def select_idem_stmt_def)
  qed
next
  case (Cons r rs)
  then have "r \<in> set (filter (idem_match (r_organization_id row) (the (r_environment row)) (r_idempotency_key row)) rows)"
    by simp
  then have "r \<in> set rows" "idem_match (r_organization_id row) (the (r_environment row)) (r_idempotency_key row) r"
    by auto
  with Cons show ?thesis
    by (intro old [of r]) (simp_all add: create_or_get_stmt_def select_idem_stmt_def idem_match_def)
qed

lemma tx_step_ok:
  assumes "tx_step rows rows'" "tx_table_ok rows"
  shows "tx_table_ok rows'"
  using assms
proof (induction rule: tx_step.induct)
  case (create row env rows err)
  show ?case
  proof (cases rule: create_or_get_cases [of rows row err])
    case new
    then show ?thesis using create.prems by (auto simp: tx_table_ok_def insert_ok_def)
  qed (use create.prems in simp_all)
next
  case (claim_batch rows err now locked older limit env)
  show ?case
    by (rule claim_batch_cases [of err now locked older limit env rows])
      (use claim_batch.prems in \<open>auto simp: Let_def intro!: tx_table_ok_update status_update_ok\<close>)
qed (auto simp: requeue_stale_stmt_def fail_aged_stmt_def try_claim_stmt_def reclaim_stmt_def
      update_status_stmt_def schedule_retry_stmt_def mark_terminal_stmt_def
      intro!: tx_table_ok_update status_str_update_ok status_update_ok)

lemma tx_step_evolves:
  assumes "tx_step rows rows'" "tx_table_ok rows"
  shows "evolves rows rows'"
  using assms
proof (induction rule: tx_step.induct)
  case (create row env rows err)
  show ?case by (cases rule: create_or_get_cases [of rows row err]) (auto simp: evolves_append)
next
  case (claim_batch rows err now locked older limit env)
  have uniq: "r = r'" if "r \<in> set rows" "r' \<in> set rows" "r_id r = r_id r'" for r r'
    using that claim_batch.prems by (auto simp: tx_table_ok_def distinct_map dest: inj_onD)
  show ?case
  proof (rule claim_batch_cases [of err now locked older limit env rows])
    fix ids
    assume run: "claim_batch_stmt err now locked older limit env rows =
        (let upd = update_returning (\<lambda>r. r_id r \<in> set ids)
           (\<lambda>r. r\<lparr>r_status := u ''posting'', r_failure_reason := None,
                  r_retry_count := r_retry_count r + 1,
                  r_last_attempted_at := Some now, r_updated_at := now\<rparr>) rows
         in (Inr (fst upd), snd upd))"
      and ids: "\<forall>i \<in> set ids. \<exists>r \<in> set rows. r_id r = i \<and> claimable now older env r \<and>
         \<not> locked i \<and> r_retry_count r \<noteq> 0x7FFFFFFF"
    have "sint (r_retry_count r) \<le> sint (r_retry_count r + 1)"
      if "r \<in> set rows" "r_id r \<in> set ids" for r
      using that ids uniq sint_incr by fastforce
    then show ?thesis unfolding run by (auto simp: Let_def intro!: evolves_update)
  qed simp
qed (auto simp: requeue_stale_stmt_def fail_aged_stmt_def try_claim_stmt_def reclaim_stmt_def
      update_status_stmt_def schedule_retry_stmt_def mark_terminal_stmt_def intro!: evolves_update)

lemma tx_steps_ok: "tx_step\<^sup>*\<^sup>* rows rows' \<Longrightarrow> tx_table_ok rows \<Longrightarrow> tx_table_ok rows'"
  by (induction rule: rtranclp_induct) (auto intro: tx_step_ok)

lemma tx_steps_evolve: "tx_step\<^sup>*\<^sup>* rows rows' \<Longrightarrow> tx_table_ok rows \<Longrightarrow> evolves rows rows'"
proof (induction rule: rtranclp_induct)
  case (step b c)
  then have "tx_table_ok b" using tx_steps_ok by blast
  with step show ?case using tx_step_evolves evolves_trans by blast
qed simp

section \<open>Idempotent creation\<close>

lemma select_idem_unique:
  assumes ok: "tx_table_ok rows" and r: "r \<in> set rows" "idem_match org env key r"
  shows "select_idem_stmt org env key rows = [r]"
proof -
  have "r' = r" if "r' \<in> set rows" "idem_match org env key r'" for r'
  proof -
    have "idem_key r' = idem_key r" using that r by (simp add: idem_match_def idem_key_def)
    then show ?thesis using ok that r by (auto simp: tx_table_ok_def distinct_map dest: inj_onD)
  qed
  then have all: "\<forall>x \<in> set (filter (idem_match org env key) rows). x = r" by simp
  moreover have "filter (idem_match org env key) rows \<noteq> []"
    using r by (auto simp: filter_empty_conv)
  ultimately obtain rest where "filter (idem_match org env key) rows = r # rest"
    by (cases "filter (idem_match org env key) rows") auto
  then show ?thesis by (simp add: select_idem_stmt_def)
qed

lemma create_or_get_again:
  assumes ok: "tx_table_ok rows"
    and first: "create_or_get_stmt err row rows = (Inr [r], rows1)"
    and env: "r_environment row = Some env" "r_status row = u ''pending''" "r_retry_count row = 0"
    and later: "tx_step\<^sup>*\<^sup>* rows1 rows2"
    and same: "idem_key row2 = idem_key row"
  shows "\<exists>r2. create_or_get_stmt err2 row2 rows2 = (Inr [r2], rows2) \<and> intent r2 = intent r"
proof -
  have "tx_step rows (snd (create_or_get_stmt err row rows))" using env by (rule create)
  then have ok1: "tx_table_ok rows1" using first ok tx_step_ok by fastforce
  have r: "r \<in> set rows1 \<and> idem_match (r_organization_id row) env (r_idempotency_key row) r"
    using first env
    by (cases rule: create_or_get_cases [of rows row err]) (auto simp: idem_match_def)
  have ok2: "tx_table_ok rows2" using later ok1 by (rule tx_steps_ok)
  from tx_steps_evolve [OF later ok1] r obtain r2 where
    r2: "r2 \<in> set rows2" "intent r2 = intent r" using evolves_row by blast
  then have "idem_match (r_organization_id row) env (r_idempotency_key row) r2"
    using r by (simp add: idem_match_def intent_def)
  then have "select_idem_stmt (r_organization_id row) env (r_idempotency_key row) rows2 = [r2]"
    using ok2 r2 by (intro select_idem_unique) auto
  then have "create_or_get_stmt err2 row2 rows2 = (Inr [r2], rows2)"
    using same env by (simp add: create_or_get_stmt_def idem_key_def)
  with r2 show ?thesis by blast
qed

end
