(* ===== verification/Account_Repo.thy ===== *)
theory Account_Repo
  imports Pagination "HOL-Library.Sublist"
begin

text \<open>
  The account repository (\<^verbatim>\<open>accounts-service/src/repositories/account_repository.rs\<close>) and the
  generation of account numbers (\<^verbatim>\<open>accounts-service/src/utils/account_number.rs\<close>): the
  statements on the accounts table, the functions that run them, and the facts the service layer
  needs, in the same layout as \<open>Tx_Repo\<close> and \<open>Tx_Table\<close>.
\<close>

section \<open>Rows and structs\<close>

definition parse_account_type :: "str \<Rightarrow> account_type option" where
  "parse_account_type s =
     (if s = u ''checking'' then Some Checking else if s = u ''saving'' then Some Saving else None)"

definition parse_account_status :: "str \<Rightarrow> account_status option" where
  "parse_account_status s =
     (if s = u ''active'' then Some Active else if s = u ''suspended'' then Some Suspended
      else if s = u ''closed'' then Some Closed else None)"

definition row_to_account :: "account_row \<Rightarrow> app_error + account" where
  "row_to_account a =
     (case parse_account_type (a_account_type a) of
        None \<Rightarrow> Inl InvalidAccountType
      | Some type \<Rightarrow>
     (case parse_account_status (a_status a) of
        None \<Rightarrow> Inl (Internal (u ''Invalid account status''))
      | Some status \<Rightarrow> Inr
         \<lparr>acc_id = a_id a,
          acc_account_number = a_account_number a,
          acc_account_type = type,
          acc_organization_id = a_organization_id a,
          acc_environment = Some (a_environment a),
          acc_holder_id = a_holder_id a,
          acc_user_id = a_user_id a,
          acc_admin_user_id = a_admin_user_id a,
          acc_user_role = a_user_role a,
          acc_currency = Some (a_currency a),
          acc_status = Some status,
          acc_created_at = Some (a_created_at a),
          acc_updated_at = Some (a_updated_at a)\<rparr>))"

section \<open>Statements\<close>

definition new_account_row ::
  "time \<Rightarrow> uuid \<Rightarrow> str \<Rightarrow> account_type \<Rightarrow> uuid option \<Rightarrow> str \<Rightarrow> uuid \<Rightarrow> str \<Rightarrow> account_row" where
  "new_account_row now fresh number type org env user currency =
     \<lparr>a_id = fresh,
      a_account_number = number,
      a_account_type = account_type_str type,
      a_organization_id = org,
      a_environment = env,
      a_holder_id = None,
      a_user_id = Some user,
      a_admin_user_id = None,
      a_user_role = None,
      a_currency = currency,
      a_status = u ''active'',
      a_created_at = now,
      a_updated_at = now\<rparr>"

definition insert_account_stmt ::
  "str \<Rightarrow> account_row \<Rightarrow> account_row list \<Rightarrow> (app_error + account_row list) \<times> account_row list" where
  "insert_account_stmt error row rows =
     (if account_row_ok row \<and> a_id row \<notin> a_id ` set rows \<and>
         a_account_number row \<notin> a_account_number ` set rows
      then (Inr [row], rows @ [row])
      else (Inl (Database error), rows))"

definition select_account_id_stmt :: "uuid \<Rightarrow> str \<Rightarrow> account_row list \<Rightarrow> account_row list" where
  "select_account_id_stmt i env rows = filter (\<lambda>a. a_id a = i \<and> a_environment a = env) rows"

definition account_listing :: "(account_row \<Rightarrow> bool) \<Rightarrow> str \<Rightarrow> account_row list \<Rightarrow> account_row list" where
  "account_listing p env rows =
     sort_desc (\<lambda>a. (a_created_at a, uint (a_id a))) (filter (\<lambda>a. p a \<and> a_environment a = env) rows)"

definition by_user :: "uuid \<Rightarrow> account_row \<Rightarrow> bool" where
  "by_user i a \<longleftrightarrow> a_user_id a = Some i"

definition by_organization :: "uuid \<Rightarrow> account_row \<Rightarrow> bool" where
  "by_organization i a \<longleftrightarrow> a_organization_id a = Some i"

definition by_admin :: "uuid \<Rightarrow> account_row \<Rightarrow> bool" where
  "by_admin i a \<longleftrightarrow> a_admin_user_id a = Some i"

definition set_account_status_stmt ::
  "time \<Rightarrow> uuid \<Rightarrow> str \<Rightarrow> account_status \<Rightarrow> account_row list \<Rightarrow> account_row list \<times> account_row list" where
  "set_account_status_stmt now i env status =
     update_returning (\<lambda>a. a_id a = i \<and> a_environment a = env)
       (\<lambda>a. a\<lparr>a_status := account_status_str status, a_updated_at := now\<rparr>)"

definition count_by_user_and_type_stmt :: "uuid \<Rightarrow> account_type \<Rightarrow> str \<Rightarrow> account_row list \<Rightarrow> nat" where
  "count_by_user_and_type_stmt user type env rows =
     length (filter (\<lambda>a. a_user_id a = Some user \<and> a_account_type a = account_type_str type \<and>
                         a_environment a = env) rows)"

definition number_exists_stmt :: "str \<Rightarrow> account_row list \<Rightarrow> bool" where
  "number_exists_stmt number rows = list_ex (\<lambda>a. a_account_number a = number) rows"

section \<open>Repository functions\<close>

definition acc_read :: "(account_row list \<Rightarrow> 'a) \<Rightarrow> db \<Rightarrow> (app_error + 'a) \<times> db" where
  "acc_read f d = (Inr (f (db_accounts d)), d)"

definition acc_update :: "(account_row list \<Rightarrow> 'a \<times> account_row list) \<Rightarrow> db \<Rightarrow> (app_error + 'a) \<times> db" where
  "acc_update f d = (Inr (fst (f (db_accounts d))), d\<lparr>db_accounts := snd (f (db_accounts d))\<rparr>)"

definition acc_try_update ::
  "(account_row list \<Rightarrow> (app_error + 'a) \<times> account_row list) \<Rightarrow> db \<Rightarrow> (app_error + 'a) \<times> db" where
  "acc_try_update f d = (fst (f (db_accounts d)), d\<lparr>db_accounts := snd (f (db_accounts d))\<rparr>)"

definition one_account :: "account_row list \<Rightarrow> app_error + account" where
  "one_account rows = (case fetch_one rows of Inl e \<Rightarrow> Inl e | Inr a \<Rightarrow> row_to_account a)"

definition all_accounts :: "account_row list \<Rightarrow> app_error + account list" where
  "all_accounts rows = collect_results (map row_to_account rows)"

definition create_account_row ::
  "'x params \<Rightarrow> str \<Rightarrow> account_type \<Rightarrow> uuid option \<Rightarrow> str \<Rightarrow> uuid \<Rightarrow> str \<Rightarrow> ('x, account) svc" where
  "create_account_row P number type org env user currency =
     bind_io (db_query P (\<lambda>t. acc_try_update (insert_account_stmt (p_constraint_error P)
        (new_account_row (p_clock P t) (p_uuid P t) number type org env user currency)))) (\<lambda>rows.
     lift_result (one_account rows))"

definition find_account_by_id :: "'x params \<Rightarrow> uuid \<Rightarrow> str \<Rightarrow> ('x, account) svc" where
  "find_account_by_id P i env =
     bind_io (db_query P (\<lambda>t. acc_read (select_account_id_stmt i env))) (\<lambda>rows.
     bind_io (lift_result (ok_or (fetch_optional rows)
        (NotFound (u ''Account with id '' @ p_uuid_str P i @ u '' not found in environment '' @ env)))) (\<lambda>a.
     lift_result (row_to_account a)))"

definition find_accounts_by_user_id :: "'x params \<Rightarrow> uuid \<Rightarrow> str \<Rightarrow> ('x, account list) svc" where
  "find_accounts_by_user_id P i env =
     bind_io (db_query P (\<lambda>t. acc_read (account_listing (by_user i) env))) (\<lambda>rows.
     lift_result (all_accounts rows))"

definition find_accounts_by_organization_id :: "'x params \<Rightarrow> uuid \<Rightarrow> str \<Rightarrow> ('x, account list) svc" where
  "find_accounts_by_organization_id P i env =
     bind_io (db_query P (\<lambda>t. acc_read (account_listing (by_organization i) env))) (\<lambda>rows.
     lift_result (all_accounts rows))"

definition find_accounts_by_admin_user_id :: "'x params \<Rightarrow> uuid \<Rightarrow> str \<Rightarrow> ('x, account list) svc" where
  "find_accounts_by_admin_user_id P i env =
     bind_io (db_query P (\<lambda>t. acc_read (account_listing (by_admin i) env))) (\<lambda>rows.
     lift_result (all_accounts rows))"

text \<open>The body the three paginated lookups share, with the predicate of their
  \<^verbatim>\<open>WHERE\<close> clause.\<close>

definition paginated_accounts ::
  "'x params \<Rightarrow> (account_row \<Rightarrow> bool) \<Rightarrow> str \<Rightarrow> 32 word \<Rightarrow> 32 word \<Rightarrow> ('x, paginated_accounts_response) svc" where
  "paginated_accounts P p env page per_page =
     (let offset = page_offset page per_page in
      bind_io (db_query P (\<lambda>t. acc_read (\<lambda>rows. length (account_listing p env rows)))) (\<lambda>total_count.
      bind_io (db_query P (\<lambda>t. acc_read (\<lambda>rows. limit_offset per_page offset (account_listing p env rows)))) (\<lambda>rows.
      bind_io (lift_result (all_accounts rows)) (\<lambda>accounts.
      ret \<lparr>par_data = map account_response_from accounts,
           par_pagination = make_pagination page per_page total_count\<rparr>))))"

definition find_by_user_id_paginated ::
  "'x params \<Rightarrow> uuid \<Rightarrow> str \<Rightarrow> 32 word \<Rightarrow> 32 word \<Rightarrow> ('x, paginated_accounts_response) svc" where
  "find_by_user_id_paginated P i env page per_page = paginated_accounts P (by_user i) env page per_page"

definition find_by_organization_id_paginated ::
  "'x params \<Rightarrow> uuid \<Rightarrow> str \<Rightarrow> 32 word \<Rightarrow> 32 word \<Rightarrow> ('x, paginated_accounts_response) svc" where
  "find_by_organization_id_paginated P i env page per_page =
     paginated_accounts P (by_organization i) env page per_page"

definition find_by_admin_user_id_paginated ::
  "'x params \<Rightarrow> uuid \<Rightarrow> str \<Rightarrow> 32 word \<Rightarrow> 32 word \<Rightarrow> ('x, paginated_accounts_response) svc" where
  "find_by_admin_user_id_paginated P i env page per_page =
     paginated_accounts P (by_admin i) env page per_page"

definition set_account_status ::
  "'x params \<Rightarrow> uuid \<Rightarrow> str \<Rightarrow> account_status \<Rightarrow> ('x, account) svc" where
  "set_account_status P i env status =
     bind_io (db_query P (\<lambda>t. acc_update (set_account_status_stmt (p_clock P t) i env status))) (\<lambda>rows.
     lift_result (one_account rows))"

definition count_by_user_and_type :: "'x params \<Rightarrow> uuid \<Rightarrow> account_type \<Rightarrow> str \<Rightarrow> ('x, nat) svc" where
  "count_by_user_and_type P user type env =
     db_query P (\<lambda>t. acc_read (count_by_user_and_type_stmt user type env))"

section \<open>Account numbers\<close>

definition clamp_account_number_length :: "nat \<Rightarrow> nat" where
  "clamp_account_number_length n = max 10 (min 16 n)"

text \<open>\<open>p_digits P t k\<close> is the \<open>k\<close>-th draw of the random generator at tick \<open>t\<close>, reduced to
  the range asked for; \<open>p_luhn P\<close> the check digit (an ASCII byte) the luhn3 crate computes.\<close>

definition base_number :: "(nat \<Rightarrow> nat) \<Rightarrow> nat \<Rightarrow> str" where
  "base_number rng base_length =
     show_nat (1 + rng 0 mod 9) @ concat (map (\<lambda>k. show_nat (rng k mod 10)) [1..<base_length])"

definition random_account_number_with_luhn :: "'x params \<Rightarrow> nat \<Rightarrow> ('x, str) svc" where
  "random_account_number_with_luhn P n =
     (let n = clamp_account_number_length n; base_length = n - 1 in
      bind_io tick (\<lambda>t.
      let base = base_number (p_digits P t) base_length in
      bind_io (lift_result (ok_or (p_luhn P base)
        (Internal (u ''Failed to compute Luhn checksum'')))) (\<lambda>checksum.
      ret (base @ [checksum]))))"

definition account_number_exists :: "'x params \<Rightarrow> str \<Rightarrow> ('x, bool) svc" where
  "account_number_exists P number = db_query P (\<lambda>t. acc_read (number_exists_stmt number))"

fun generate_attempts :: "'x params \<Rightarrow> nat \<Rightarrow> nat \<Rightarrow> ('x, str) svc" where
  "generate_attempts P n 0 =
     throw (Internal (u ''Failed to generate unique account number after multiple attempts''))"
| "generate_attempts P n (Suc k) =
     bind_io (random_account_number_with_luhn P n) (\<lambda>number.
     bind_io (account_number_exists P number) (\<lambda>taken.
     if \<not> taken then ret number else generate_attempts P n k))"

definition generate_account_number :: "'x params \<Rightarrow> nat \<Rightarrow> ('x, str) svc" where
  "generate_account_number P n = generate_attempts P n 10"

end
