(* ===== verification/Ledger_Client.thy ===== *)
theory Ledger_Client
  imports World
begin

text \<open>
  The gRPC clients of the accounts service: the ledger
  (\<^verbatim>\<open>accounts-service/src/ledger_grpc.rs\<close>) with its cached channel, and users
  (\<^verbatim>\<open>accounts-service/src/users_grpc.rs\<close>). What the remote end answers is a parameter;
  which requests go out, with what content and in what order, is the model's. \<open>w_posts\<close> logs
  every \<^verbatim>\<open>PostTransaction\<close> that is sent.
\<close>

section \<open>Ledger\<close>

definition ledger_timeout_secs :: "'x params \<Rightarrow> 64 word" where
  "ledger_timeout_secs P =
     (case p_env_var P (u ''LEDGER_GRPC_TIMEOUT_SECS'') of
        None \<Rightarrow> 60
      | Some v \<Rightarrow> (case parse_u64 v of
                    None \<Rightarrow> 60
                  | Some n \<Rightarrow> if n > 0 then n else 60))"

definition connect_channel :: "'x params \<Rightarrow> ('x, unit) svc" where
  "connect_channel P = (\<lambda>w.
     if w_channel w then (Inr (), w)
     else (case p_connect P (w_tick w) of
        Bad_Url e \<Rightarrow> (Inl (Internal (u ''invalid LEDGER_GRPC_URL: '' @ e)), w\<lparr>w_tick := Suc (w_tick w)\<rparr>)
      | Connect_Failed e \<Rightarrow>
          (Inl (Internal (u ''ledger gRPC connect failed: '' @ e)), w\<lparr>w_tick := Suc (w_tick w)\<rparr>)
      | Connected \<Rightarrow> (Inr (), w\<lparr>w_channel := True, w_tick := Suc (w_tick w)\<rparr>)))"

definition env_to_proto :: "str \<Rightarrow> app_error + int" where
  "env_to_proto env =
     (if env = u ''sandbox'' then Inr 1
      else if env = u ''production'' then Inr 2
      else Inl (Validation (u ''invalid environment for ledger gRPC: '' @ env)))"

definition send_post :: "'x params \<Rightarrow> post_request \<Rightarrow> ('x, (str \<times> str) rpc_reply) svc" where
  "send_post P req = (\<lambda>w.
     (Inr (fst (p_post P req (w_ext w))),
      w\<lparr>w_ext := snd (p_post P req (w_ext w)), w_posts := w_posts w @ [req], w_tick := Suc (w_tick w)\<rparr>))"

definition post_transaction ::
  "'x params \<Rightarrow> uuid \<Rightarrow> str \<Rightarrow> str \<Rightarrow> str \<Rightarrow> 64 word \<Rightarrow> str \<Rightarrow> uuid \<Rightarrow> str \<Rightarrow> str \<Rightarrow> ('x, unit) svc" where
  "post_transaction P org env source destination amount currency external_id key correlation_id =
     bind_io (lift_result (env_to_proto env)) (\<lambda>env_i.
     bind_io (connect_channel P) (\<lambda>_.
     bind_io (send_post P
        \<lparr>pr_organization_id = p_uuid_str P org,
         pr_environment = env_i,
         pr_source = source,
         pr_destination = destination,
         pr_amount = amount,
         pr_currency = currency,
         pr_external_transaction_id = p_uuid_str P external_id,
         pr_idempotency_key = key,
         pr_correlation_id = correlation_id\<rparr>) (\<lambda>reply.
     case reply of
       Timed_Out \<Rightarrow> throw (Internal (u ''ledger gRPC post timeout expired''))
     | Rpc_Error e \<Rightarrow> throw (Internal (u ''ledger gRPC post failed: '' @ e))
     | Reply (status, failure_reason) \<Rightarrow>
         if status = u ''posted'' then ret ()
         else throw (BusinessLogic (u ''ledger post failed: '' @ failure_reason)))))"

definition send_balance :: "'x params \<Rightarrow> balance_request \<Rightarrow> ('x, str rpc_reply) svc" where
  "send_balance P req = (\<lambda>w.
     (Inr (fst (p_balance P req (w_ext w))),
      w\<lparr>w_ext := snd (p_balance P req (w_ext w)), w_tick := Suc (w_tick w)\<rparr>))"

definition get_account_balance :: "'x params \<Rightarrow> uuid \<Rightarrow> str \<Rightarrow> uuid \<Rightarrow> str \<Rightarrow> ('x, str) svc" where
  "get_account_balance P org env account currency =
     bind_io (lift_result (env_to_proto env)) (\<lambda>env_i.
     bind_io (connect_channel P) (\<lambda>_.
     bind_io (send_balance P
        \<lparr>br_organization_id = p_uuid_str P org, br_environment = env_i,
         br_external_account_id = p_uuid_str P account, br_currency = currency\<rparr>) (\<lambda>reply.
     case reply of
       Timed_Out \<Rightarrow> throw (Internal (u ''ledger gRPC get_account_balance timeout expired''))
     | Rpc_Error e \<Rightarrow> throw (Internal (u ''ledger gRPC get_account_balance failed: '' @ e))
     | Reply balance \<Rightarrow> ret balance)))"

definition send_balances :: "'x params \<Rightarrow> balances_request \<Rightarrow> ('x, (str \<times> str) rpc_reply) svc" where
  "send_balances P req = (\<lambda>w.
     (Inr (fst (p_balances P req (w_ext w))),
      w\<lparr>w_ext := snd (p_balances P req (w_ext w)), w_tick := Suc (w_tick w)\<rparr>))"

definition get_account_balances ::
  "'x params \<Rightarrow> uuid \<Rightarrow> str \<Rightarrow> uuid \<Rightarrow> uuid \<Rightarrow> str \<Rightarrow> ('x, str \<times> str) svc" where
  "get_account_balances P org env from_account to_account currency =
     bind_io (lift_result (env_to_proto env)) (\<lambda>env_i.
     bind_io (connect_channel P) (\<lambda>_.
     bind_io (send_balances P
        \<lparr>bsr_organization_id = p_uuid_str P org, bsr_environment = env_i,
         bsr_from = p_uuid_str P from_account, bsr_to = p_uuid_str P to_account,
         bsr_currency = currency\<rparr>) (\<lambda>reply.
     case reply of
       Timed_Out \<Rightarrow> throw (Internal (u ''ledger gRPC get_account_balances timeout expired''))
     | Rpc_Error e \<Rightarrow> throw (Internal (u ''ledger gRPC get_account_balances failed: '' @ e))
     | Reply balances \<Rightarrow> ret balances)))"

section \<open>Users\<close>

record resolved_account_user =
  rau_business_id :: uuid
  rau_environment_id :: uuid
  rau_user_id :: uuid

definition parse_uuid_field :: "'x params \<Rightarrow> string \<Rightarrow> str \<Rightarrow> app_error + uuid" where
  "parse_uuid_field P field s =
     ok_or (p_uuid_parse P s) (Internal (u ''Invalid '' @ u field @ u '' from users service''))"

definition users_call ::
  "('x \<Rightarrow> (grpc_status + 'r) \<times> 'x) \<Rightarrow> (grpc_status \<Rightarrow> app_error) \<Rightarrow> ('x, 'r) svc" where
  "users_call call on_error = (\<lambda>w.
     let w' = w\<lparr>w_ext := snd (call (w_ext w)), w_tick := Suc (w_tick w)\<rparr> in
     case fst (call (w_ext w)) of
       Inl e \<Rightarrow> (Inl (on_error e), w')
     | Inr r \<Rightarrow> (Inr r, w'))"

definition validate_key_error :: "grpc_status \<Rightarrow> app_error" where
  "validate_key_error e =
     (if gs_code e = Code_Unauthenticated \<or> gs_code e = Code_Invalid_Argument
      then Unauthorized (gs_message e)
      else Internal (u ''Users gRPC error: '' @ gs_message e))"

definition validate_api_key :: "'x params \<Rightarrow> str \<Rightarrow> str \<Rightarrow> ('x, uuid \<times> uuid \<times> uuid) svc" where
  "validate_api_key P api_key env =
     bind_io (users_call (p_validate_key P api_key env) validate_key_error) (\<lambda>(b, e, a).
     bind_io (lift_result (parse_uuid_field P ''business_id'' b)) (\<lambda>business_id.
     bind_io (lift_result (parse_uuid_field P ''environment_id'' e)) (\<lambda>environment_id.
     bind_io (lift_result (parse_uuid_field P ''admin_user_id'' a)) (\<lambda>admin_user_id.
     ret (business_id, environment_id, admin_user_id)))))"

definition resolve_user_error :: "grpc_status \<Rightarrow> app_error" where
  "resolve_user_error e =
     (case gs_code e of
        Code_Unauthenticated \<Rightarrow> Unauthorized (gs_message e)
      | Code_Invalid_Argument \<Rightarrow> Validation (gs_message e)
      | Code_Not_Found \<Rightarrow> Validation (gs_message e)
      | Code_Failed_Precondition \<Rightarrow> Validation (gs_message e)
      | _ \<Rightarrow> Internal (u ''Users gRPC error: '' @ gs_message e))"

definition resolve_account_user_for_api_key ::
  "'x params \<Rightarrow> str \<Rightarrow> str \<Rightarrow> str \<Rightarrow> str \<Rightarrow> str \<Rightarrow> ('x, resolved_account_user) svc" where
  "resolve_account_user_for_api_key P api_key env email first_name last_name =
     bind_io (users_call (p_resolve_user P api_key env email first_name last_name) resolve_user_error)
       (\<lambda>(b, e, us).
     bind_io (lift_result (parse_uuid_field P ''business_id'' b)) (\<lambda>business_id.
     bind_io (lift_result (parse_uuid_field P ''environment_id'' e)) (\<lambda>environment_id.
     bind_io (lift_result (parse_uuid_field P ''user_id'' us)) (\<lambda>user_id.
     ret \<lparr>rau_business_id = business_id, rau_environment_id = environment_id, rau_user_id = user_id\<rparr>))))"

section \<open>Facts\<close>

lemma env_to_proto_Inr: "env_to_proto env = Inr i \<longleftrightarrow>
    env = u ''sandbox'' \<and> i = 1 \<or> env = u ''production'' \<and> i = 2"
  by (auto simp: env_to_proto_def)

text \<open>Frames: the ledger client never touches the tables, only posts are logged, and a call logs at
  most one.\<close>

lemma connect_channel_frame [simp]:
  "w_db (snd (connect_channel P w)) = w_db w"
  "w_posts (snd (connect_channel P w)) = w_posts w"
  "w_audit (snd (connect_channel P w)) = w_audit w"
  "w_ext (snd (connect_channel P w)) = w_ext w"
  by (simp_all add: connect_channel_def split: connect_result.splits)

lemma send_frame [simp]:
  "w_db (snd (send_post P req w)) = w_db w"
  "w_posts (snd (send_post P req w)) = w_posts w @ [req]"
  "w_db (snd (send_balance P breq w)) = w_db w"
  "w_posts (snd (send_balance P breq w)) = w_posts w"
  "w_db (snd (send_balances P bsreq w)) = w_db w"
  "w_posts (snd (send_balances P bsreq w)) = w_posts w"
  by (simp_all add: send_post_def send_balance_def send_balances_def)

lemma users_call_frame [simp]:
  "w_db (snd (users_call c f w)) = w_db w"
  "w_posts (snd (users_call c f w)) = w_posts w"
  by (simp_all add: users_call_def Let_def split: sum.splits)

end
