(* ===== verification/Account_Service.thy ===== *)
theory Account_Service
  imports Tx_Table Account_Repo Ledger_Client
begin

text \<open>
  The service layer: \<^verbatim>\<open>accounts-service/src/services/account_service.rs\<close> (account creation and
  status, deposit, withdraw, transfer) and \<^verbatim>\<open>transaction_service.rs\<close> (the reads). The block
  that deposit, withdraw and transfer share after the intent has been written, from
  \<^verbatim>\<open>resolve_immediate_ledger_post\<close> to the final status update, is \<open>settle\<close>; it takes
  the two ledger accounts, in which alone the three differ.
\<close>

section \<open>Immediate post\<close>

datatype immediate_ledger_outcome = ReturnWithoutPost transaction | Post transaction

definition resolve_immediate_ledger_post ::
  "'x params \<Rightarrow> transaction \<Rightarrow> ('x, immediate_ledger_outcome) svc" where
  "resolve_immediate_ledger_post P t =
     (case tx_status t of
        Posted \<Rightarrow> ret (ReturnWithoutPost t)
      | Posting \<Rightarrow> ret (ReturnWithoutPost t)
      | Failed \<Rightarrow> ret (ReturnWithoutPost t)
      | Pending \<Rightarrow>
          bind_io (try_claim_pending_for_post P (tx_id t)) (\<lambda>claimed.
          case claimed of
            Some t' \<Rightarrow> ret (Post t')
          | None \<Rightarrow>
              bind_io (find_tx_by_id P (tx_id t)) (\<lambda>current.
              ret (ReturnWithoutPost current))))"

definition settle ::
  "'x params \<Rightarrow> uuid \<Rightarrow> str \<Rightarrow> str \<Rightarrow> str \<Rightarrow> 64 word \<Rightarrow> str \<Rightarrow> str option \<Rightarrow> transaction \<Rightarrow> ('x, transaction) svc" where
  "settle P org env source destination amount currency correlation_id t0 =
     bind_io (resolve_immediate_ledger_post P t0) (\<lambda>outcome.
     case outcome of
       ReturnWithoutPost t \<Rightarrow> ret t
     | Post t \<Rightarrow>
         let correlation_id = unwrap_or correlation_id (p_uuid_str P (tx_id t)) in
         bind_io (try_io (post_transaction P org env source destination amount currency
                    (tx_id t) (tx_idempotency_key t) correlation_id)) (\<lambda>post_result.
         case post_result of
           Inr _ \<Rightarrow> update_status P (tx_id t) Posted None
         | Inl e \<Rightarrow> update_status P (tx_id t) Pending (Some (error_to_string e))))"

section \<open>Accounts\<close>

definition create_account_for_existing_user ::
  "'x params \<Rightarrow> create_account_request \<Rightarrow> uuid \<Rightarrow> str \<Rightarrow> uuid \<Rightarrow> ('x, account) svc" where
  "create_account_for_existing_user P request org env user_id =
     bind_io (count_by_user_and_type P user_id (car_account_type request) env) (\<lambda>count.
     if count \<ge> 1 then
       throw (BusinessLogic (u ''User already has a '' @ account_type_str (car_account_type request) @
                u '' account (max 1 checking, 1 saving per user)''))
     else
       bind_io (generate_account_number P 12) (\<lambda>account_number.
       create_account_row P account_number (car_account_type request) (Some org) env user_id
         (car_currency request)))"

definition get_account :: "'x params \<Rightarrow> uuid \<Rightarrow> str \<Rightarrow> ('x, account) svc" where
  "get_account P i env = find_account_by_id P i env"

definition get_accounts_by_user :: "'x params \<Rightarrow> uuid \<Rightarrow> str \<Rightarrow> ('x, account list) svc" where
  "get_accounts_by_user P i env = find_accounts_by_user_id P i env"

definition get_accounts_by_organization :: "'x params \<Rightarrow> uuid \<Rightarrow> str \<Rightarrow> ('x, account list) svc" where
  "get_accounts_by_organization P i env = find_accounts_by_organization_id P i env"

definition get_accounts_by_admin :: "'x params \<Rightarrow> uuid \<Rightarrow> str \<Rightarrow> ('x, account list) svc" where
  "get_accounts_by_admin P i env = find_accounts_by_admin_user_id P i env"

definition get_accounts_by_user_paginated ::
  "'x params \<Rightarrow> uuid \<Rightarrow> str \<Rightarrow> 32 word \<Rightarrow> 32 word \<Rightarrow> ('x, paginated_accounts_response) svc" where
  "get_accounts_by_user_paginated P i env page per_page = find_by_user_id_paginated P i env page per_page"

definition get_accounts_by_organization_paginated ::
  "'x params \<Rightarrow> uuid \<Rightarrow> str \<Rightarrow> 32 word \<Rightarrow> 32 word \<Rightarrow> ('x, paginated_accounts_response) svc" where
  "get_accounts_by_organization_paginated P i env page per_page =
     find_by_organization_id_paginated P i env page per_page"

definition get_accounts_by_admin_paginated ::
  "'x params \<Rightarrow> uuid \<Rightarrow> str \<Rightarrow> 32 word \<Rightarrow> 32 word \<Rightarrow> ('x, paginated_accounts_response) svc" where
  "get_accounts_by_admin_paginated P i env page per_page =
     find_by_admin_user_id_paginated P i env page per_page"

definition update_account_status :: "'x params \<Rightarrow> uuid \<Rightarrow> str \<Rightarrow> account_status \<Rightarrow> ('x, account) svc" where
  "update_account_status P i env status =
     bind_io (find_account_by_id P i env) (\<lambda>account.
     if acc_status account = Some Closed \<and> status \<noteq> Closed then
       throw (BusinessLogic (u ''Cannot reactivate a closed account''))
     else set_account_status P i env status)"

definition close_account :: "'x params \<Rightarrow> uuid \<Rightarrow> str \<Rightarrow> ('x, account) svc" where
  "close_account P i env = update_account_status P i env Closed"

section \<open>Money movement\<close>

definition idempotency_key_required :: app_error where
  "idempotency_key_required = Validation (u ''Idempotency-Key header is required'')"

definition organization_id_required :: app_error where
  "organization_id_required = Validation (u ''organization_id is required'')"

definition deposit_with_idempotency ::
  "'x params \<Rightarrow> uuid \<Rightarrow> str \<Rightarrow> 64 word \<Rightarrow> str \<Rightarrow> str option \<Rightarrow> str option \<Rightarrow> str option \<Rightarrow> uuid option
   \<Rightarrow> ('x, account \<times> transaction) svc" where
  "deposit_with_idempotency P account_id env amount key correlation_id description external reference =
     (if trim key = [] then throw idempotency_key_required else
      bind_io (find_account_by_id P account_id env) (\<lambda>account.
      if acc_status account \<noteq> Some Active then throw AccountNotActive else
      bind_io (lift_result (ok_or (acc_organization_id account) organization_id_required)) (\<lambda>org.
      let currency = unwrap_or (acc_currency account) (u ''USD'') in
      bind_io (db_transaction P (create_or_get_by_idempotency P org account_id account_id amount
                 currency Deposit key env description external reference)) (\<lambda>t.
      bind_io (settle P org env (u ''SYSTEM_CASH_CONTROL'') (p_uuid_str P account_id) amount currency
                 correlation_id t) (\<lambda>t'.
      ret (account, t'))))))"

text \<open>The overdraft check of withdraw and transfer, made for a key seen for the first time. The
  ledger keeps customer balances negative; the negation wraps like \<^verbatim>\<open>i64\<close> does.\<close>

definition check_overdraft :: "'x params \<Rightarrow> uuid \<Rightarrow> str \<Rightarrow> uuid \<Rightarrow> str \<Rightarrow> 64 word \<Rightarrow> ('x, unit) svc" where
  "check_overdraft P org env account_id currency amount =
     bind_io (get_account_balance P org env account_id currency) (\<lambda>ledger_balance_str.
     bind_io (lift_result (ok_or (parse_i64 (trim ledger_balance_str))
       (Internal (u ''Failed to parse Ledger balance'')))) (\<lambda>ledger_balance.
     let display_balance = - ledger_balance in
     if sint display_balance < sint amount then throw InsufficientFunds else ret ()))"

definition withdraw_with_idempotency ::
  "'x params \<Rightarrow> uuid \<Rightarrow> str \<Rightarrow> 64 word \<Rightarrow> str \<Rightarrow> str option \<Rightarrow> str option \<Rightarrow> str option \<Rightarrow> uuid option
   \<Rightarrow> ('x, account \<times> transaction) svc" where
  "withdraw_with_idempotency P account_id env amount key correlation_id description external reference =
     (if trim key = [] then throw idempotency_key_required else
      bind_io (find_account_by_id P account_id env) (\<lambda>account.
      if acc_status account \<noteq> Some Active then throw AccountNotActive else
      bind_io (lift_result (ok_or (acc_organization_id account) organization_id_required)) (\<lambda>org.
      let currency = unwrap_or (acc_currency account) (u ''USD'');
          proceed =
            bind_io (db_transaction P (create_or_get_by_idempotency P org account_id account_id amount
                       currency Withdraw key env description external reference)) (\<lambda>t.
            bind_io (settle P org env (p_uuid_str P account_id) (u ''SYSTEM_CASH_CONTROL'') amount currency
                       correlation_id t) (\<lambda>t'.
            ret (account, t'))) in
      bind_io (find_by_idempotency P org env key) (\<lambda>found.
      case found of
        Some existing \<Rightarrow>
          if tx_status existing = Posted \<or> tx_status existing = Posting
          then ret (account, existing)
          else proceed
      | None \<Rightarrow>
          bind_io (check_overdraft P org env account_id currency amount) (\<lambda>_. proceed)))))"

definition transfer_with_idempotency ::
  "'x params \<Rightarrow> uuid \<Rightarrow> str \<Rightarrow> uuid \<Rightarrow> 64 word \<Rightarrow> str \<Rightarrow> str option \<Rightarrow> str option \<Rightarrow> str option \<Rightarrow> uuid option
   \<Rightarrow> ('x, account \<times> account \<times> transaction) svc" where
  "transfer_with_idempotency P from_id env to_id amount key correlation_id description external reference =
     (if trim key = [] then throw idempotency_key_required else
      bind_io (find_account_by_id P from_id env) (\<lambda>from_account.
      if acc_status from_account \<noteq> Some Active then throw AccountNotActive else
      bind_io (find_account_by_id P to_id env) (\<lambda>to_account.
      if acc_status to_account \<noteq> Some Active then throw AccountNotActive else
      bind_io (lift_result (ok_or (acc_organization_id from_account) organization_id_required)) (\<lambda>from_org.
      bind_io (lift_result (ok_or (acc_organization_id to_account) organization_id_required)) (\<lambda>to_org.
      if from_org \<noteq> to_org
      then throw (Validation (u ''accounts must belong to the same organization'')) else
      let from_currency = unwrap_or (acc_currency from_account) (u ''USD'');
          to_currency = unwrap_or (acc_currency to_account) (u ''USD'') in
      if from_currency \<noteq> to_currency
      then throw (Validation (u ''currency must match both accounts'')) else
      let proceed =
            bind_io (db_transaction P (create_or_get_by_idempotency P from_org from_id to_id amount
                       from_currency Transfer key env description external reference)) (\<lambda>t.
            bind_io (settle P from_org env (p_uuid_str P from_id) (p_uuid_str P to_id) amount
                       from_currency correlation_id t) (\<lambda>t'.
            ret (from_account, to_account, t'))) in
      bind_io (find_by_idempotency P from_org env key) (\<lambda>found.
      case found of
        Some existing \<Rightarrow>
          if tx_status existing = Posted \<or> tx_status existing = Posting
          then ret (from_account, to_account, existing)
          else proceed
      | None \<Rightarrow>
          bind_io (check_overdraft P from_org env from_id from_currency amount) (\<lambda>_. proceed)))))))"

section \<open>Transaction reads\<close>

definition get_transaction :: "'x params \<Rightarrow> uuid \<Rightarrow> str \<Rightarrow> ('x, transaction) svc" where
  "get_transaction P i env =
     bind_io (find_tx_by_id P i) (\<lambda>t.
     bind_io (find_account_by_id P (tx_from_account_id t) env) (\<lambda>_.
     ret t))"

definition get_account_transactions ::
  "'x params \<Rightarrow> uuid \<Rightarrow> str \<Rightarrow> 64 word option \<Rightarrow> ('x, transaction list) svc" where
  "get_account_transactions P account_id env limit =
     bind_io (find_account_by_id P account_id env) (\<lambda>_.
     find_by_account_id P account_id limit (Some env))"

definition get_transactions_by_organization_paginated ::
  "'x params \<Rightarrow> uuid \<Rightarrow> str \<Rightarrow> 32 word \<Rightarrow> 32 word \<Rightarrow> ('x, transaction list \<times> pagination_meta) svc" where
  "get_transactions_by_organization_paginated P org env page per_page =
     find_tx_by_organization_id_paginated P org env page per_page"

end
