(* ===== verification/Retry_Worker.thy ===== *)
theory Retry_Worker
  imports Account_Service
begin

text \<open>
  The background workers: \<^verbatim>\<open>accounts-service/src/services/transaction_retry.rs\<close>, which
  claims due rows and posts them to the ledger, and \<^verbatim>\<open>transaction_reconcile.rs\<close>, which
  sweeps rows stuck in \<^verbatim>\<open>posting\<close> or pending for too long. One pass of each endless loop is a
  function; the loop itself is the repetition of that function. Sleeping only advances the tick.
\<close>

section \<open>Configuration\<close>

text \<open>\<^verbatim>\<open>std::env::var(name).ok().and_then(parse).filter(> 0).unwrap_or(default)\<close>\<close>

definition positive_i64_from_env :: "'x params \<Rightarrow> string \<Rightarrow> 64 word \<Rightarrow> 64 word" where
  "positive_i64_from_env P name dflt =
     (case p_env_var P (u name) of
        None \<Rightarrow> dflt
      | Some v \<Rightarrow> (case parse_i64 v of None \<Rightarrow> dflt | Some n \<Rightarrow> if sint n > 0 then n else dflt))"

definition positive_i32_from_env :: "'x params \<Rightarrow> string \<Rightarrow> 32 word \<Rightarrow> 32 word" where
  "positive_i32_from_env P name dflt =
     (case p_env_var P (u name) of
        None \<Rightarrow> dflt
      | Some v \<Rightarrow> (case parse_i32 v of None \<Rightarrow> dflt | Some n \<Rightarrow> if sint n > 0 then n else dflt))"

definition positive_u64_from_env :: "'x params \<Rightarrow> string \<Rightarrow> 64 word \<Rightarrow> 64 word" where
  "positive_u64_from_env P name dflt =
     (case p_env_var P (u name) of
        None \<Rightarrow> dflt
      | Some v \<Rightarrow> (case parse_u64 v of None \<Rightarrow> dflt | Some n \<Rightarrow> if n > 0 then n else dflt))"

definition stale_posting_secs_from_env :: "'x params \<Rightarrow> 64 word" where
  "stale_posting_secs_from_env P = positive_i64_from_env P ''TRANSACTION_POSTING_STALE_AFTER_SECS'' 600"

definition stale_posting_duration :: "'x params \<Rightarrow> int" where
  "stale_posting_duration P = seconds (sint (stale_posting_secs_from_env P))"

definition retry_max_attempts_from_env :: "'x params \<Rightarrow> 32 word" where
  "retry_max_attempts_from_env P = positive_i32_from_env P ''LEDGER_RETRY_MAX_ATTEMPTS'' 8"

definition retry_base_delay_ms_from_env :: "'x params \<Rightarrow> 64 word" where
  "retry_base_delay_ms_from_env P = positive_u64_from_env P ''LEDGER_RETRY_BASE_DELAY_MS'' 500"

definition retry_max_delay_ms_from_env :: "'x params \<Rightarrow> 64 word" where
  "retry_max_delay_ms_from_env P = positive_u64_from_env P ''LEDGER_RETRY_MAX_DELAY_MS'' 300000"

section \<open>Backoff\<close>

definition saturating_mul_u64 :: "64 word \<Rightarrow> 64 word \<Rightarrow> 64 word" where
  "saturating_mul_u64 a b =
     (if unat a * unat b < 2 ^ 64 then a * b else - 1)"

definition saturating_pow_u64 :: "64 word \<Rightarrow> nat \<Rightarrow> 64 word" where
  "saturating_pow_u64 a n = (if unat a ^ n < 2 ^ 64 then a ^ n else - 1)"

definition i32_max :: "32 word \<Rightarrow> 32 word \<Rightarrow> 32 word" where
  "i32_max a b = (if sint a \<le> sint b then b else a)"

definition i32_min :: "32 word \<Rightarrow> 32 word \<Rightarrow> 32 word" where
  "i32_min a b = (if sint a \<le> sint b then a else b)"

definition compute_retry_delay_ms :: "32 word \<Rightarrow> 64 word \<Rightarrow> 64 word \<Rightarrow> 64 word" where
  "compute_retry_delay_ms attempt base_ms max_ms =
     (let safe_max = max max_ms base_ms;
          exp = i32_min (i32_max attempt 1 - 1) 16 in
      min (saturating_mul_u64 base_ms (saturating_pow_u64 2 (unat exp))) safe_max)"

section \<open>One pass of the retry worker\<close>

definition sleep :: "('x world, 'e, unit) io" where
  "sleep = bind_io tick (\<lambda>_. ret ())"

definition handle_retry_claim_outcome ::
  "app_error + transaction list \<Rightarrow> ('x world, 'e, transaction list option) io" where
  "handle_retry_claim_outcome outcome =
     (case outcome of
        Inr rows \<Rightarrow> ret (Some rows)
      | Inl e \<Rightarrow> bind_io sleep (\<lambda>_. ret None))"

text \<open>The environment of a claimed row; a row without one takes it from its account, looked up in
  sandbox, then in production, and is released when there is none.\<close>

definition resolve_environment :: "'x params \<Rightarrow> transaction \<Rightarrow> ('x, str option) svc" where
  "resolve_environment P t =
     (case tx_environment t of
        Some env \<Rightarrow> ret (Some env)
      | None \<Rightarrow>
          bind_io (try_io (find_account_by_id P (tx_from_account_id t) (u ''sandbox''))) (\<lambda>r1.
          case r1 of
            Inr a \<Rightarrow> ret (Some (unwrap_or (acc_environment a) (u ''sandbox'')))
          | Inl _ \<Rightarrow>
              bind_io (try_io (find_account_by_id P (tx_from_account_id t) (u ''production''))) (\<lambda>r2.
              case r2 of
                Inr a \<Rightarrow> ret (Some (unwrap_or (acc_environment a) (u ''sandbox'')))
              | Inl _ \<Rightarrow>
                  bind_io (try_io (update_status P (tx_id t) Pending
                     (Some (u ''retry_worker: could not resolve account environment'')))) (\<lambda>_.
                  ret None))))"

definition external_accounts :: "'x params \<Rightarrow> transaction \<Rightarrow> str \<times> str" where
  "external_accounts P t =
     (case tx_transaction_kind t of
        Transfer \<Rightarrow> (p_uuid_str P (tx_from_account_id t), p_uuid_str P (tx_to_account_id t))
      | Deposit \<Rightarrow> (u ''SYSTEM_CASH_CONTROL'', p_uuid_str P (tx_to_account_id t))
      | Withdraw \<Rightarrow> (p_uuid_str P (tx_from_account_id t), u ''SYSTEM_CASH_CONTROL''))"

text \<open>\<^verbatim>\<open>delay_ms as i64\<close> reinterprets the word.\<close>

definition record_post_failure :: "'x params \<Rightarrow> transaction \<Rightarrow> app_error \<Rightarrow> ('x, unit) svc" where
  "record_post_failure P t e =
     (let reason = error_to_string e in
      if sint (retry_max_attempts_from_env P) \<le> sint (tx_retry_count t) then
        bind_io (try_io (mark_terminal_failure P (tx_id t) reason)) (\<lambda>_. ret ())
      else
        let delay_ms = compute_retry_delay_ms (tx_retry_count t)
              (retry_base_delay_ms_from_env P) (retry_max_delay_ms_from_env P) in
        bind_io (utc_now P) (\<lambda>at.
        bind_io (try_io (schedule_retry P (tx_id t) reason (at + sint delay_ms * 1000))) (\<lambda>_.
        ret ())))"

definition process_claimed :: "'x params \<Rightarrow> transaction \<Rightarrow> ('x, unit) svc" where
  "process_claimed P t =
     bind_io (resolve_environment P t) (\<lambda>resolved.
     case resolved of
       None \<Rightarrow> ret ()
     | Some env \<Rightarrow>
         let (source, destination) = external_accounts P t in
         bind_io (try_io (post_transaction P (tx_organization_id t) env source destination (tx_amount t)
                    (tx_currency t) (tx_id t) (tx_idempotency_key t) (p_uuid_str P (tx_id t)))) (\<lambda>post_result.
         case post_result of
           Inr _ \<Rightarrow> bind_io (try_io (update_status P (tx_id t) Posted None)) (\<lambda>_. ret ())
         | Inl e \<Rightarrow> record_post_failure P t e))"

definition process_claimed_ledger_posts :: "'x params \<Rightarrow> transaction list \<Rightarrow> ('x, unit) svc" where
  "process_claimed_ledger_posts P pending = for_each_io (process_claimed P) pending"

definition retry_worker_poll_once :: "'x params \<Rightarrow> ('x, unit) svc" where
  "retry_worker_poll_once P =
     bind_io (try_io (claim_pending_transactions_for_ledger_post P (seconds 2) (stale_posting_duration P)
                (Some 200) None)) (\<lambda>outcome.
     bind_io (handle_retry_claim_outcome outcome) (\<lambda>claimed.
     bind_io (case claimed of
                Some pending \<Rightarrow> process_claimed_ledger_posts P pending
              | None \<Rightarrow> ret ()) (\<lambda>_.
     sleep)))"

definition retry_worker_run :: "'x params \<Rightarrow> nat \<Rightarrow> ('x, unit) svc" where
  "retry_worker_run P n = for_each_io (\<lambda>_. retry_worker_poll_once P) [0..<n]"

section \<open>One sweep of the reconciler\<close>

definition reconcile_interval_secs_from_env :: "'x params \<Rightarrow> 64 word" where
  "reconcile_interval_secs_from_env P = positive_u64_from_env P ''OUTBOUND_RECONCILE_INTERVAL_SECS'' 60"

definition reconcile_stale_secs_from_env :: "'x params \<Rightarrow> 64 word" where
  "reconcile_stale_secs_from_env P = positive_i64_from_env P ''TRANSACTION_POSTING_STALE_AFTER_SECS'' 600"

definition max_pending_age_secs_from_env :: "'x params \<Rightarrow> 64 word" where
  "max_pending_age_secs_from_env P = positive_i64_from_env P ''OUTBOUND_MAX_PENDING_AGE_SECS'' 3600"

definition reconcile_sweep :: "'x params \<Rightarrow> ('x, unit) svc" where
  "reconcile_sweep P =
     bind_io (try_io (reconcile_stale_transactions P
        (seconds (sint (reconcile_stale_secs_from_env P)))
        (seconds (sint (max_pending_age_secs_from_env P))))) (\<lambda>_.
     sleep)"

definition reconcile_run :: "'x params \<Rightarrow> nat \<Rightarrow> ('x, unit) svc" where
  "reconcile_run P n = for_each_io (\<lambda>_. reconcile_sweep P) [0..<n]"

end
