(* ===== verification/Account_Table.thy ===== *)
theory Account_Table
  imports Account_Repo
begin

text \<open>
  Facts on the accounts table: the conversion of its rows, its constraints under every statement,
  and \<open>account_evolves\<close>, what no statement undoes: the identity, owner, type and currency of an
  account are fixed at creation and rows are only appended. Account numbers are decimal strings of
  the requested length.
\<close>

lemma parse_account_type_str [simp]: "parse_account_type (account_type_str k) = Some k"
  by (cases k) (simp_all add: parse_account_type_def)

lemma parse_account_status_str [simp]: "parse_account_status (account_status_str s) = Some s"
  by (cases s) (simp_all add: parse_account_status_def)

lemma account_row_ok_strs:
  assumes "account_row_ok a"
  shows "\<exists>k s. a_account_type a = account_type_str k \<and> a_status a = account_status_str s"
proof -
  have "a_account_type a = account_type_str Checking \<or> a_account_type a = account_type_str Saving"
    using assms by (simp add: account_row_ok_def)
  moreover have "a_status a = account_status_str Active \<or> a_status a = account_status_str Suspended \<or>
      a_status a = account_status_str Closed"
    using assms by (simp add: account_row_ok_def)
  ultimately show ?thesis by blast
qed

lemma row_to_account_ok: "account_row_ok a \<Longrightarrow> \<exists>x. row_to_account a = Inr x"
  using account_row_ok_strs [of a] by (auto simp: row_to_account_def)

lemma row_to_account_InrD:
  assumes "row_to_account a = Inr x"
  shows "acc_id x = a_id a" "acc_account_number x = a_account_number a"
    "acc_organization_id x = a_organization_id a" "acc_environment x = Some (a_environment a)"
    "acc_user_id x = a_user_id a" "acc_admin_user_id x = a_admin_user_id a"
    "acc_currency x = Some (a_currency a)"
    "\<exists>s. acc_status x = Some s \<and> a_status a = account_status_str s"
    "account_type_str (acc_account_type x) = a_account_type a"
  using assms
  by (auto simp: row_to_account_def parse_account_type_def parse_account_status_def
      split: if_splits intro: exI [where x = Active] exI [where x = Suspended] exI [where x = Closed])

section \<open>Evolution\<close>

record account_identity =
  ai_id :: uuid
  ai_number :: str
  ai_type :: str
  ai_organization :: "uuid option"
  ai_environment :: str
  ai_user :: "uuid option"
  ai_admin :: "uuid option"
  ai_currency :: str

definition identity :: "account_row \<Rightarrow> account_identity" where
  "identity a =
     \<lparr>ai_id = a_id a, ai_number = a_account_number a, ai_type = a_account_type a,
      ai_organization = a_organization_id a, ai_environment = a_environment a,
      ai_user = a_user_id a, ai_admin = a_admin_user_id a, ai_currency = a_currency a\<rparr>"

definition account_evolves :: "account_row list \<Rightarrow> account_row list \<Rightarrow> bool" where
  "account_evolves rows rows' \<longleftrightarrow> prefix (map identity rows) (map identity rows')"

inductive account_step :: "account_row list \<Rightarrow> account_row list \<Rightarrow> bool" where
  insert: "account_step rows (snd (insert_account_stmt err row rows))"
| set_status: "account_step rows (snd (set_account_status_stmt now i env s rows))"

lemma insert_account_cases:
  obtains (inserted) "account_row_ok row" "a_id row \<notin> a_id ` set rows"
      "a_account_number row \<notin> a_account_number ` set rows"
      "insert_account_stmt err row rows = (Inr [row], rows @ [row])"
  | (rejected) "insert_account_stmt err row rows = (Inl (Database err), rows)"
  by (cases "account_row_ok row \<and> a_id row \<notin> a_id ` set rows \<and>
         a_account_number row \<notin> a_account_number ` set rows")
     (auto simp: insert_account_stmt_def)

lemma account_status_update_ok:
  "account_row_ok a \<Longrightarrow> account_row_ok (a\<lparr>a_status := account_status_str s, a_updated_at := t\<rparr>)"
  by (cases s) (simp_all add: account_row_ok_def)

lemma account_step_ok:
  assumes "account_step rows rows'" "account_table_ok rows"
  shows "account_table_ok rows'"
  using assms
proof (induction rule: account_step.induct)
  case (insert rows err row)
  then show ?case
    by (cases rule: insert_account_cases [of row rows err]) (auto simp: account_table_ok_def)
next
  case (set_status rows now i env s)
  then show ?case
    by (auto simp: set_account_status_stmt_def intro!: account_table_ok_update account_status_update_ok)
qed

lemma account_step_evolves:
  assumes "account_step rows rows'"
  shows "account_evolves rows rows'"
  using assms
proof (induction rule: account_step.induct)
  case (insert rows err row)
  then show ?case
    by (cases rule: insert_account_cases [of row rows err]) (auto simp: account_evolves_def)
next
  case (set_status rows now i env s)
  have "map identity (snd (set_account_status_stmt now i env s rows)) = map identity rows"
    unfolding set_account_status_stmt_def update_returning_simps
    by (rule map_update_key) (simp add: identity_def)
  then show ?case by (simp add: account_evolves_def)
qed

lemma account_evolves_refl [simp]: "account_evolves rows rows"
  by (simp add: account_evolves_def)

lemma account_evolves_trans: "account_evolves a b \<Longrightarrow> account_evolves b c \<Longrightarrow> account_evolves a c"
  unfolding account_evolves_def using prefix_order.trans by blast

section \<open>Account numbers\<close>

lemma clamp_range: "10 \<le> clamp_account_number_length n \<and> clamp_account_number_length n \<le> 16"
  by (simp add: clamp_account_number_length_def)

lemma show_nat_small: "n < 10 \<Longrightarrow> show_nat n = [48 + n]"
  by (simp add: show_nat.simps)

lemma base_number_digits:
  assumes "1 \<le> base_length"
  shows "length (base_number rng base_length) = base_length \<and> list_all is_digit (base_number rng base_length)
    \<and> base_number rng base_length ! 0 \<noteq> 48"
proof -
  have first: "show_nat (1 + rng 0 mod 9) = [48 + (1 + rng 0 mod 9)]"
    by (rule show_nat_small) (use mod_less_divisor [of 9 "rng 0"] in linarith)
  have each: "show_nat (rng k mod 10) = [48 + rng k mod 10]" for k
    by (rule show_nat_small) simp
  have rest: "concat (map (\<lambda>k. show_nat (rng k mod 10)) ks) = map (\<lambda>k. 48 + rng k mod 10) ks" for ks
    unfolding each by (induction ks) simp_all
  have digit: "is_digit (48 + rng k mod 10)" for k
    using mod_less_divisor [of 10 "rng k"] unfolding is_digit_def by linarith
  have digit0: "is_digit (48 + (1 + rng 0 mod 9))"
    using mod_less_divisor [of 9 "rng 0"] unfolding is_digit_def by linarith
  have digits: "list_all is_digit (map (\<lambda>k. 48 + rng k mod 10) ks)" for ks
    using digit by (induction ks) simp_all
  show ?thesis
    using assms digit0 digits unfolding base_number_def first rest by simp
qed

lemma random_account_number_shape:
  assumes luhn: "\<And>s c. p_luhn P s = Some c \<Longrightarrow> is_digit c"
    and run: "random_account_number_with_luhn P n w = (Inr s, w')"
  shows "length s = clamp_account_number_length n \<and> list_all is_digit s \<and> s ! 0 \<noteq> 48 \<and>
    p_luhn P (butlast s) = Some (last s)"
proof -
  let ?b = "base_number (p_digits P (w_tick w)) (clamp_account_number_length n - 1)"
  obtain c where c: "p_luhn P ?b = Some c" "s = ?b @ [c]"
    using run by (auto simp: random_account_number_with_luhn_def Let_def io_simps ok_or_def
        split: sum.splits option.splits)
  have "1 \<le> clamp_account_number_length n - 1" using clamp_range [of n] by linarith
  from base_number_digits [OF this, of "p_digits P (w_tick w)"] luhn [OF c(1)] clamp_range [of n]
  c(1) show ?thesis unfolding c(2) by (auto simp: nth_append)
qed

lemma generate_attempts_shape:
  assumes luhn: "\<And>s c. p_luhn P s = Some c \<Longrightarrow> is_digit c"
    and run: "generate_attempts P n k w = (Inr s, w')"
  shows "length s = clamp_account_number_length n \<and> list_all is_digit s \<and> s ! 0 \<noteq> 48 \<and>
    p_luhn P (butlast s) = Some (last s)"
  using run
proof (induction k arbitrary: w)
  case (Suc k)
  obtain r1 w1 where rand: "random_account_number_with_luhn P n w = (r1, w1)" by fastforce
  with Suc.prems obtain number where r1: "r1 = Inr number" by (cases r1) (auto simp: io_simps)
  obtain r2 w2 where ex: "account_number_exists P number w1 = (r2, w2)" by fastforce
  with Suc.prems rand r1 obtain taken where r2: "r2 = Inr taken" by (cases r2) (auto simp: io_simps)
  show ?case
  proof (cases taken)
    case False
    with Suc.prems rand r1 ex r2 have "s = number" by (simp add: io_simps)
    with random_account_number_shape [of P n w number w1] luhn rand r1 show ?thesis by simp
  next
    case True
    with Suc.prems rand r1 ex r2 show ?thesis by (intro Suc.IH [of w2]) (simp add: io_simps)
  qed
qed (simp add: io_simps)

end
