(* ===== verification/Service_Runs.thy ===== *)
theory Service_Runs
  imports Retry_Worker Account_Table
begin

text \<open>
  What every run of a service function does to the world, whatever fails on the way and whatever
  other processes do to the tables meanwhile, as long as they too only issue the service's own
  statements (\<open>lawful\<close>): the tables change by such statements only, and a money movement sends
  the ledger at most one post. Three relations on worlds instantiate the locales of
  \<open>Prelude\<close>; one lemma per function then follows from its text.
\<close>

section \<open>Table steps\<close>

inductive db_step :: "db \<Rightarrow> db \<Rightarrow> bool" where
  transactions: "tx_step (db_transactions d) rows \<Longrightarrow> db_step d (d\<lparr>db_transactions := rows\<rparr>)"
| accounts: "account_step (db_accounts d) rows \<Longrightarrow> db_step d (d\<lparr>db_accounts := rows\<rparr>)"

definition lawful :: "'x params \<Rightarrow> bool" where
  "lawful P \<longleftrightarrow> (\<forall>t d. db_step\<^sup>*\<^sup>* d (p_other P t d))"

definition db_runs :: "'x world \<Rightarrow> 'x world \<Rightarrow> bool" where
  "db_runs w w' \<longleftrightarrow> db_step\<^sup>*\<^sup>* (w_db w) (w_db w')"

definition posts_all :: "(post_request \<Rightarrow> bool) \<Rightarrow> 'x world \<Rightarrow> 'x world \<Rightarrow> bool" where
  "posts_all Q w w' \<longleftrightarrow> (\<exists>new. w_posts w' = w_posts w @ new \<and> list_all Q new)"

definition posts_grow :: "nat \<Rightarrow> 'x world \<Rightarrow> 'x world \<Rightarrow> bool" where
  "posts_grow n w w' \<longleftrightarrow> (\<exists>new. w_posts w' = w_posts w @ new \<and> length new \<le> n)"

interpretation runs: run_preorder db_runs
  by unfold_locales (auto simp: db_runs_def)

interpretation posted: run_preorder "posts_all Q" for Q
  by unfold_locales (auto simp: posts_all_def)

lemma posts_grow_add:
  assumes "posts_grow m a b" "posts_grow n b c"
  shows "posts_grow (m + n) a c"
proof -
  obtain x y where "w_posts b = w_posts a @ x" "length x \<le> m" "w_posts c = w_posts b @ y" "length y \<le> n"
    using assms unfolding posts_grow_def by blast
  then have "w_posts c = w_posts a @ (x @ y) \<and> length (x @ y) \<le> m + n" by simp
  then show ?thesis unfolding posts_grow_def by blast
qed

interpretation budget: graded_runs posts_grow
  by unfold_locales (auto simp: posts_grow_def intro: posts_grow_add [unfolded posts_grow_def])

lemma lawfulD: "lawful P \<Longrightarrow> db_step\<^sup>*\<^sup>* d (p_other P t d)"
  by (simp add: lawful_def)

lemma lawful_undisturbed: "undisturbed P \<Longrightarrow> lawful P"
  by (simp add: undisturbed_def lawful_def)

lemma db_query_runs:
  assumes "lawful P" "\<And>t d. db_step\<^sup>*\<^sup>* d (snd (q t d))"
  shows "keeps db_runs (db_query P q)"
proof (rule keepsI)
  fix w :: "'a world"
  have "db_step\<^sup>*\<^sup>* (w_db w) (p_other P (w_tick w) (w_db w))" using assms(1) by (rule lawfulD)
  then show "db_runs w (snd (db_query P q w))"
    unfolding db_runs_def db_query_def Let_def
    by (auto split: db_fault.splits intro: rtranclp_trans assms(2))
qed

lemma db_transaction_runs:
  assumes "lawful P" "\<And>t d. db_step\<^sup>*\<^sup>* d (snd (q t d))"
  shows "keeps db_runs (db_transaction P q)"
proof (rule keepsI)
  fix w :: "'a world"
  let ?t = "w_tick w"
  let ?before = "p_other P ?t (w_db w)"
  let ?d = "p_other P (Suc ?t) ?before"
  have d0: "db_step\<^sup>*\<^sup>* (w_db w) ?before" using assms(1) by (rule lawfulD)
  then have d: "db_step\<^sup>*\<^sup>* (w_db w) ?d"
    by (rule rtranclp_trans [OF _ lawfulD [OF assms(1)]])
  have "db_step\<^sup>*\<^sup>* (w_db w) (snd (q ?t ?d))" using d assms(2) by (rule rtranclp_trans)
  with d0 d show "db_runs w (snd (db_transaction P q w))"
    unfolding db_runs_def db_transaction_def Let_def
    by (auto split: db_fault.splits prod.splits sum.splits)
qed

text \<open>The four kinds of statement.\<close>

lemma stmt_runs:
  "db_step\<^sup>*\<^sup>* d (snd (tx_read f d))"
  "db_step\<^sup>*\<^sup>* d (snd (acc_read g d))"
  "(\<And>rows. tx_step rows (snd (h rows))) \<Longrightarrow> db_step\<^sup>*\<^sup>* d (snd (tx_update h d))"
  "(\<And>rows. tx_step rows (snd (h' rows))) \<Longrightarrow> db_step\<^sup>*\<^sup>* d (snd (tx_try_update h' d))"
  "(\<And>rows. account_step rows (snd (k rows))) \<Longrightarrow> db_step\<^sup>*\<^sup>* d (snd (acc_update k d))"
  "(\<And>rows. account_step rows (snd (k' rows))) \<Longrightarrow> db_step\<^sup>*\<^sup>* d (snd (acc_try_update k' d))"
  by (auto simp: tx_read_def acc_read_def tx_update_def tx_try_update_def on_transactions_def
      acc_update_def acc_try_update_def intro!: r_into_rtranclp db_step.intros)

lemma new_tx_row_simps [simp]:
  "r_environment (new_tx_row now i org f t a c k key env d x r) = Some env"
  "r_status (new_tx_row now i org f t a c k key env d x r) = u ''pending''"
  "r_retry_count (new_tx_row now i org f t a c k key env d x r) = 0"
  by (simp_all add: new_tx_row_def)

lemma create_or_get_runs:
  "db_step\<^sup>*\<^sup>* d (snd (create_or_get_by_idempotency P org f t a c k key env desc x r n d))"
proof -
  let ?row = "new_tx_row (p_clock P n) (p_uuid P n) org f t a c k key env desc x r"
  have "db_step\<^sup>*\<^sup>* d (snd (tx_try_update (create_or_get_stmt (p_constraint_error P) ?row) d))"
    by (rule stmt_runs(4)) (rule tx_step.create, simp_all)
  then show ?thesis
    unfolding create_or_get_by_idempotency_def by (auto split: prod.splits sum.splits)
qed

lemmas keeps_structure =
  runs.keeps_bind runs.keeps_try runs.keeps_if runs.keeps_option runs.keeps_sum runs.keeps_for_each
  runs.keeps_ret runs.keeps_throw runs.keeps_lift

lemma effects_keep_db:
  "keeps db_runs tick" "keeps db_runs (connect_channel P)" "keeps db_runs (send_post P req)"
  "keeps db_runs (send_balance P breq)" "keeps db_runs (send_balances P bsreq)"
  "keeps db_runs (users_call c f)"
  by (auto intro!: keepsI simp: db_runs_def tick_def)

lemma ledger_client_runs:
  "keeps db_runs (post_transaction P org env src dst a c i key corr)"
  "keeps db_runs (get_account_balance P org env acc c)"
  "keeps db_runs (get_account_balances P org env fa ta c)"
  by (auto simp: post_transaction_def get_account_balance_def get_account_balances_def
      intro!: keeps_structure effects_keep_db split: rpc_reply.split)

section \<open>Every function only steps the tables\<close>

lemma tx_repo_runs:
  assumes "lawful P"
  shows "keeps db_runs (reconcile_stale_transactions P s m)"
    "keeps db_runs (find_by_idempotency P org env key)"
    "keeps db_runs (find_tx_by_id P i)"
    "keeps db_runs (find_by_account_id P i l oenv)"
    "keeps db_runs (find_tx_by_organization_id_paginated P org env pg pp)"
    "keeps db_runs (try_claim_pending_for_post P i)"
    "keeps db_runs (claim_pending_transactions_for_ledger_post P o1 s l oenv)"
    "keeps db_runs (update_status P i st reason)"
    "keeps db_runs (schedule_retry P i txt at)"
    "keeps db_runs (mark_terminal_failure P i txt)"
  using assms
  by (auto simp: reconcile_stale_transactions_def find_by_idempotency_def find_tx_by_id_def
      find_by_account_id_def find_tx_by_organization_id_paginated_def try_claim_pending_for_post_def
      claim_pending_transactions_for_ledger_post_def reclaim_stale_posting_rows_def update_status_def
      schedule_retry_def mark_terminal_failure_def Let_def
      intro!: keeps_structure db_query_runs stmt_runs tx_step.intros)

lemma account_repo_runs:
  assumes "lawful P"
  shows "keeps db_runs (create_account_row P n ty oorg env us c)"
    "keeps db_runs (find_account_by_id P i env)"
    "keeps db_runs (set_account_status P i env st)"
    "keeps db_runs (count_by_user_and_type P us ty env)"
    "keeps db_runs (paginated_accounts P p env pg pp)"
    "keeps db_runs (find_accounts_by_user_id P i env)"
    "keeps db_runs (account_number_exists P n)"
  using assms
  by (auto simp: create_account_row_def find_account_by_id_def set_account_status_def
      count_by_user_and_type_def paginated_accounts_def find_accounts_by_user_id_def
      account_number_exists_def Let_def
      intro!: keeps_structure db_query_runs stmt_runs account_step.intros)

lemma generate_runs: "lawful P \<Longrightarrow> keeps db_runs (generate_attempts P n k)"
  by (induction k)
    (auto simp: random_account_number_with_luhn_def Let_def
      intro!: keeps_structure effects_keep_db account_repo_runs)

lemma settle_runs:
  assumes "lawful P"
  shows "keeps db_runs (settle P org env src dst a c corr t)"
  using assms
  by (auto simp: settle_def resolve_immediate_ledger_post_def Let_def
      intro!: keeps_structure tx_repo_runs ledger_client_runs
      split: transaction_status.split immediate_ledger_outcome.split)

lemma check_overdraft_runs: "keeps db_runs (check_overdraft P org env acc c a)"
  by (auto simp: check_overdraft_def Let_def intro!: keeps_structure ledger_client_runs)

lemma service_runs:
  assumes "lawful P"
  shows "keeps db_runs (deposit_with_idempotency P i env a key corr d x r)"
    "keeps db_runs (withdraw_with_idempotency P i env a key corr d x r)"
    "keeps db_runs (transfer_with_idempotency P i env i' a key corr d x r)"
    "keeps db_runs (create_account_for_existing_user P req org env us)"
    "keeps db_runs (update_account_status P i env st)"
    "keeps db_runs (get_transaction P i env)"
    "keeps db_runs (get_account_transactions P i env l)"
  using assms
  by (auto simp: deposit_with_idempotency_def withdraw_with_idempotency_def
      transfer_with_idempotency_def create_account_for_existing_user_def update_account_status_def
      get_transaction_def get_account_transactions_def generate_account_number_def Let_def
      intro!: keeps_structure account_repo_runs tx_repo_runs generate_runs settle_runs
        check_overdraft_runs db_transaction_runs create_or_get_runs)

lemma worker_runs:
  assumes "lawful P"
  shows "keeps db_runs (process_claimed P t)" "keeps db_runs (retry_worker_poll_once P)"
    "keeps db_runs (reconcile_sweep P)"
  using assms
  by (auto simp: process_claimed_def resolve_environment_def record_post_failure_def
      retry_worker_poll_once_def handle_retry_claim_outcome_def process_claimed_ledger_posts_def
      reconcile_sweep_def sleep_def utc_now_def Let_def
      intro!: keeps_structure account_repo_runs tx_repo_runs ledger_client_runs effects_keep_db
      split: prod.split)

section \<open>The tables along a run\<close>

definition db_evolves :: "db \<Rightarrow> db \<Rightarrow> bool" where
  "db_evolves d d' \<longleftrightarrow>
     evolves (db_transactions d) (db_transactions d') \<and> account_evolves (db_accounts d) (db_accounts d')"

lemma db_evolves_trans: "db_evolves a b \<Longrightarrow> db_evolves b c \<Longrightarrow> db_evolves a c"
  unfolding db_evolves_def using evolves_trans account_evolves_trans by blast

lemma db_step_ok:
  assumes "db_step d d'" "db_ok d"
  shows "db_ok d' \<and> db_evolves d d'"
  using assms
  by (induction rule: db_step.induct)
    (auto simp: db_ok_def db_evolves_def intro: tx_step_ok tx_step_evolves account_step_ok account_step_evolves)

lemma db_steps_ok:
  assumes "db_step\<^sup>*\<^sup>* d d'" "db_ok d"
  shows "db_ok d' \<and> db_evolves d d'"
  using assms
proof (induction rule: rtranclp_induct)
  case base
  then show ?case by (simp add: db_evolves_def)
next
  case (step b c)
  then have "db_ok b" "db_evolves d b" by simp_all
  with db_step_ok [OF step.hyps(2)] show ?case using db_evolves_trans by blast
qed

section \<open>Ledger posts\<close>

lemma effects_post_nothing:
  "within posts_grow 0 tick" "within posts_grow 0 (connect_channel P)"
  "within posts_grow 0 (send_balance P breq)" "within posts_grow 0 (send_balances P bsreq)"
  "within posts_grow 0 (users_call c f)" "within posts_grow 0 (db_query P q)"
  "within posts_grow 0 (db_transaction P q)"
  by (auto intro!: withinI simp: posts_grow_def tick_def db_query_frame db_transaction_frame)

lemma send_post_one: "within posts_grow 1 (send_post P req)"
  by (auto intro!: withinI simp: posts_grow_def)

lemmas free_structure =
  budget.within_bind0 budget.within_try budget.within_if budget.within_option budget.within_sum
  budget.within_ret budget.within_throw budget.within_lift

lemma repo_posts_nothing:
  "within posts_grow 0 (find_account_by_id P i env)"
  "within posts_grow 0 (find_by_idempotency P org env key)"
  "within posts_grow 0 (find_tx_by_id P i)"
  "within posts_grow 0 (try_claim_pending_for_post P i)"
  "within posts_grow 0 (update_status P i st reason)"
  "within posts_grow 0 (schedule_retry P i txt at)"
  "within posts_grow 0 (mark_terminal_failure P i txt)"
  "within posts_grow 0 (get_account_balance P org env acc c)"
  by (auto simp: find_account_by_id_def find_by_idempotency_def find_tx_by_id_def
      try_claim_pending_for_post_def update_status_def schedule_retry_def mark_terminal_failure_def
      get_account_balance_def intro!: free_structure effects_post_nothing split: rpc_reply.split)

lemma check_overdraft_posts_nothing: "within posts_grow 0 (check_overdraft P org env acc c a)"
  by (auto simp: check_overdraft_def Let_def intro!: free_structure repo_posts_nothing)

lemma resolve_posts_nothing: "within posts_grow 0 (resolve_immediate_ledger_post P t)"
  by (auto simp: resolve_immediate_ledger_post_def intro!: free_structure repo_posts_nothing
      split: transaction_status.split)

lemma post_transaction_one: "within posts_grow 1 (post_transaction P org env src dst a c i key corr)"
  unfolding post_transaction_def
  by (intro budget.within_bind0 [OF budget.within_lift] budget.within_bind0 [OF effects_post_nothing(2)]
      budget.within_bind_last [OF send_post_one]) (auto split: rpc_reply.split)

lemma settle_posts_once: "within posts_grow 1 (settle P org env src dst a c corr t)"
  unfolding settle_def
proof (rule budget.within_bind0 [OF resolve_posts_nothing])
  fix out
  show "within posts_grow 1 (case out of ReturnWithoutPost t \<Rightarrow> ret t
     | Post t \<Rightarrow>
         let correlation_id = unwrap_or corr (p_uuid_str P (tx_id t)) in
         bind_io (try_io (post_transaction P org env src dst a c (tx_id t) (tx_idempotency_key t) correlation_id))
           (\<lambda>post_result. case post_result of
              Inl e \<Rightarrow> update_status P (tx_id t) Pending (Some (error_to_string e))
            | Inr _ \<Rightarrow> update_status P (tx_id t) Posted None))"
    by (cases out)
      (auto simp: Let_def intro!: budget.within_bind_last [OF budget.within_try [OF post_transaction_one]]
        budget.within_sum repo_posts_nothing simp del: One_nat_def)
qed

lemma money_posts_once:
  "within posts_grow 1 (deposit_with_idempotency P i env a key corr d x r)"
  "within posts_grow 1 (withdraw_with_idempotency P i env a key corr d x r)"
  "within posts_grow 1 (transfer_with_idempotency P i env i' a key corr d x r)"
  unfolding deposit_with_idempotency_def withdraw_with_idempotency_def transfer_with_idempotency_def Let_def
  by (intro budget.within_if budget.within_option budget.within_throw budget.within_ret
      budget.within_bind0 [OF repo_posts_nothing(1)] budget.within_bind0 [OF repo_posts_nothing(2)]
      budget.within_bind0 [OF budget.within_lift] budget.within_bind0 [OF effects_post_nothing(7)]
      budget.within_bind0 [OF check_overdraft_posts_nothing]
      budget.within_bind_last [OF settle_posts_once])+

lemma process_claimed_posts_once: "within posts_grow 1 (process_claimed P t)"
proof -
  have env: "within posts_grow 0 (resolve_environment P t)"
    by (auto simp: resolve_environment_def intro!: free_structure repo_posts_nothing)
  have fail: "within posts_grow 0 (record_post_failure P t e)" for e
    by (auto simp: record_post_failure_def utc_now_def Let_def
        intro!: free_structure repo_posts_nothing effects_post_nothing)
  have upd: "within posts_grow 0 (bind_io (try_io (update_status P i s m)) (\<lambda>_. ret ()))" for i s m
    by (intro budget.within_bind0 budget.within_try budget.within_ret repo_posts_nothing)
  show ?thesis
    unfolding process_claimed_def
    by (auto simp: Let_def intro!: budget.within_bind0 [OF env] budget.within_option
        budget.within_bind_last [OF budget.within_try [OF post_transaction_one]]
        budget.within_sum fail upd split: prod.split simp del: One_nat_def)
qed

end
