(* ===== verification/Service_Spec.thy ===== *)
theory Service_Spec
  imports Service_Runs
begin

text \<open>
  The functional behaviour of the service layer when it runs undisturbed: what each branch of
  deposit, withdraw and transfer returns, writes and posts. \<open>ledger_verdict\<close> is the abstract
  answer of the ledger to a post, and \<open>settled\<close> the table in which one row has been given the
  status that answer calls for; the money movements refine to these two.
\<close>

section \<open>The ledger's answer\<close>

definition ledger_up :: "'x params \<Rightarrow> bool" where
  "ledger_up P \<longleftrightarrow> (\<forall>t. p_connect P t = Connected)"

definition ledger_verdict :: "'x params \<Rightarrow> post_request \<Rightarrow> 'x \<Rightarrow> app_error + unit" where
  "ledger_verdict P req x =
     (case fst (p_post P req x) of
        Timed_Out \<Rightarrow> Inl (Internal (u ''ledger gRPC post timeout expired''))
      | Rpc_Error e \<Rightarrow> Inl (Internal (u ''ledger gRPC post failed: '' @ e))
      | Reply (status, reason) \<Rightarrow>
          if status = u ''posted'' then Inr () else Inl (BusinessLogic (u ''ledger post failed: '' @ reason)))"

definition make_post ::
  "'x params \<Rightarrow> uuid \<Rightarrow> int \<Rightarrow> str \<Rightarrow> str \<Rightarrow> 64 word \<Rightarrow> str \<Rightarrow> uuid \<Rightarrow> str \<Rightarrow> str \<Rightarrow> post_request" where
  "make_post P org env_i source destination amount currency i key corr =
     \<lparr>pr_organization_id = p_uuid_str P org, pr_environment = env_i, pr_source = source,
      pr_destination = destination, pr_amount = amount, pr_currency = currency,
      pr_external_transaction_id = p_uuid_str P i, pr_idempotency_key = key, pr_correlation_id = corr\<rparr>"

definition status_of :: "app_error + unit \<Rightarrow> transaction_status" where
  "status_of v = (case v of Inl _ \<Rightarrow> Pending | Inr _ \<Rightarrow> Posted)"

definition reason_of :: "app_error + unit \<Rightarrow> str option" where
  "reason_of v = (case v of Inl e \<Rightarrow> Some (error_to_string e) | Inr _ \<Rightarrow> None)"

text \<open>The row \<open>i\<close> of a table after the ledger answered \<open>v\<close>, at some time.\<close>

definition settled_row :: "app_error + unit \<Rightarrow> time \<Rightarrow> tx_row \<Rightarrow> tx_row" where
  "settled_row v at r = r\<lparr>r_status := status_str (status_of v), r_failure_reason := reason_of v, r_updated_at := at\<rparr>"

definition settled :: "uuid \<Rightarrow> app_error + unit \<Rightarrow> time \<Rightarrow> tx_row list \<Rightarrow> tx_row list" where
  "settled i v at rows = map (\<lambda>r. if r_id r = i then settled_row v at r else r) rows"

section \<open>Evaluation of the building blocks\<close>

lemma post_transaction_eval:
  fixes src dst c key corr :: str and org i :: uuid and a :: "64 word"
  assumes "ledger_up P" "env_to_proto env = Inr env_i"
  defines "req \<equiv> make_post P org env_i src dst a c i key corr"
  shows "post_transaction P org env src dst a c i key corr w =
    (ledger_verdict P req (w_ext w),
     w\<lparr>w_ext := snd (p_post P req (w_ext w)), w_channel := True, w_posts := w_posts w @ [req],
       w_tick := (if w_channel w then Suc (w_tick w) else Suc (Suc (w_tick w)))\<rparr>)"
  using assms(1,2)
  by (cases "fst (p_post P req (w_ext w))"; cases "w_channel w")
    (auto simp: post_transaction_def io_simps connect_channel_def send_post_def ledger_up_def
      ledger_verdict_def req_def make_post_def split: prod.splits)

lemma distinct_id_unique:
  "distinct (map r_id rows) \<Longrightarrow> r \<in> set rows \<Longrightarrow> r' \<in> set rows \<Longrightarrow> r_id r = r_id r' \<Longrightarrow> r = r'"
  by (auto simp: distinct_map dest: inj_onD)

lemma filter_id:
  assumes "distinct (map r_id rows)" "r \<in> set rows"
  shows "filter (\<lambda>x. r_id x = r_id r) rows = [r]"
  using assms by (induction rows) (auto simp: filter_empty_conv image_iff)

lemma filter_id_and:
  assumes "distinct (map r_id rows)" "r \<in> set rows" "p r"
  shows "filter (\<lambda>x. r_id x = r_id r \<and> p x) rows = [r]"
proof -
  have "filter (\<lambda>x. r_id x = r_id r \<and> p x) rows = filter p (filter (\<lambda>x. r_id x = r_id r) rows)"
    by (simp add: conj_commute)
  then show ?thesis using filter_id [OF assms(1,2)] assms(3) by simp
qed

lemma row_to_transaction_status:
  assumes "row_to_transaction full r = Inr t"
  shows "row_to_transaction full (r\<lparr>r_status := status_str s, r_failure_reason := m, r_updated_at := at\<rparr>) =
    Inr (t\<lparr>tx_status := s, tx_failure_reason := m, tx_updated_at := at\<rparr>)"
  using assms
  by (auto simp: row_to_transaction_def split: option.splits)

lemma update_status_eval:
  assumes P: "undisturbed P" and d: "distinct (map r_id (db_transactions (w_db w)))"
    and r: "r \<in> set (db_transactions (w_db w))" "row_to_transaction False r = Inr t"
  shows "update_status P (r_id r) s m w =
    (Inr (t\<lparr>tx_status := s, tx_failure_reason := m, tx_updated_at := p_clock P (w_tick w)\<rparr>),
     w\<lparr>w_db := (w_db w)\<lparr>db_transactions :=
          map (\<lambda>x. if r_id x = r_id r
               then x\<lparr>r_status := status_str s, r_failure_reason := m, r_updated_at := p_clock P (w_tick w)\<rparr>
               else x) (db_transactions (w_db w))\<rparr>,
       w_tick := Suc (w_tick w)\<rparr>)"
  using P filter_id [OF d r(1)] row_to_transaction_status [OF r(2)]
  by (simp add: update_status_def io_simps tx_update_def on_transactions_def update_status_stmt_def
      one_transaction_def fetch_one_def)

lemma try_claim_eval:
  assumes P: "undisturbed P" and d: "distinct (map r_id (db_transactions (w_db w)))"
    and r: "r \<in> set (db_transactions (w_db w))" "row_to_transaction False r = Inr t"
    and pending: "r_status r = u ''pending''"
  shows "try_claim_pending_for_post P (r_id r) w =
    (Inr (Some (t\<lparr>tx_status := Posting, tx_failure_reason := None, tx_updated_at := p_clock P (w_tick w)\<rparr>)),
     w\<lparr>w_db := (w_db w)\<lparr>db_transactions :=
          map (\<lambda>x. if r_id x = r_id r
               then x\<lparr>r_status := status_str Posting, r_failure_reason := None, r_updated_at := p_clock P (w_tick w)\<rparr>
               else x) (db_transactions (w_db w))\<rparr>,
       w_tick := Suc (w_tick w)\<rparr>)"
proof -
  have "map (\<lambda>x. if r_id x = r_id r \<and> r_status x = u ''pending''
             then x\<lparr>r_status := u ''posting'', r_failure_reason := None, r_updated_at := n\<rparr> else x)
          (db_transactions (w_db w)) =
        map (\<lambda>x. if r_id x = r_id r
             then x\<lparr>r_status := u ''posting'', r_failure_reason := None, r_updated_at := n\<rparr> else x)
          (db_transactions (w_db w))" for n
  proof (rule map_cong)
    fix x assume "x \<in> set (db_transactions (w_db w))"
    then have "r_id x = r_id r \<Longrightarrow> r_status x = u ''pending''"
      using distinct_id_unique [OF d r(1)] pending by metis
    then show "(if r_id x = r_id r \<and> r_status x = u ''pending''
             then x\<lparr>r_status := u ''posting'', r_failure_reason := None, r_updated_at := n\<rparr> else x) =
        (if r_id x = r_id r
             then x\<lparr>r_status := u ''posting'', r_failure_reason := None, r_updated_at := n\<rparr> else x)"
      by auto
  qed simp
  moreover have "filter (\<lambda>x. r_id x = r_id r \<and> r_status x = u ''pending'') (db_transactions (w_db w)) = [r]"
    using d r(1) pending by (rule filter_id_and)
  ultimately show ?thesis
    using P row_to_transaction_status [OF r(2), where s = Posting and m = None]
    by (simp add: try_claim_pending_for_post_def io_simps tx_update_def on_transactions_def
        try_claim_stmt_def optional_transaction_def fetch_optional_def)
qed

lemma update_row_in:
  assumes "r \<in> set rows"
  shows "f r \<in> set (map (\<lambda>x. if r_id x = r_id r then f x else x) rows)"
  using assms by force

lemma update_row_distinct:
  assumes "distinct (map r_id rows)" "\<And>x. r_id (f x) = r_id x"
  shows "distinct (map r_id (map (\<lambda>x. if p x then f x else x) rows))"
  using assms(1) unfolding map_update_key [of r_id f, OF assms(2)] .

text \<open>Settling a pending row: it is claimed, one post goes out, and the answer is recorded.\<close>

lemma settle_pending:
  fixes src dst c :: str and corr :: "str option" and org :: uuid and a :: "64 word"
    and w :: "'x world" and t :: transaction
  assumes P: "undisturbed P" "ledger_up P" "env_to_proto env = Inr env_i"
    and d: "distinct (map r_id (db_transactions (w_db w)))"
    and r: "r \<in> set (db_transactions (w_db w))" "row_to_transaction False r = Inr t" "tx_status t = Pending"
  defines "req \<equiv> make_post P org env_i src dst a c (tx_id t) (tx_idempotency_key t)
                   (unwrap_or corr (p_uuid_str P (tx_id t)))"
  defines "v \<equiv> ledger_verdict P req (w_ext w)"
  shows "\<exists>at. let (res, w') = settle P org env src dst a c corr t w in
    res = Inr (t\<lparr>tx_status := status_of v, tx_failure_reason := reason_of v, tx_updated_at := at\<rparr>) \<and>
    db_transactions (w_db w') = settled (tx_id t) v at (db_transactions (w_db w)) \<and>
    db_accounts (w_db w') = db_accounts (w_db w) \<and>
    w_posts w' = w_posts w @ [req] \<and>
    w_ext w' = snd (p_post P req (w_ext w)) \<and> w_audit w' = w_audit w"
proof -
  have id: "tx_id t = r_id r" using r(2) by (rule row_to_transaction_InrD)
  have pending: "r_status r = u ''pending''" using row_to_transaction_InrD(2) [OF r(2)] r(3) by simp
  let ?n = "p_clock P (w_tick w)"
  let ?claim = "\<lambda>x. x\<lparr>r_status := status_str Posting, r_failure_reason := None, r_updated_at := ?n\<rparr>"
  let ?t1 = "t\<lparr>tx_status := Posting, tx_failure_reason := None, tx_updated_at := ?n\<rparr>"
  let ?rows1 = "map (\<lambda>x. if r_id x = r_id r then ?claim x else x) (db_transactions (w_db w))"
  let ?w1 = "w\<lparr>w_db := (w_db w)\<lparr>db_transactions := ?rows1\<rparr>, w_tick := Suc (w_tick w)\<rparr>"
  have claim: "try_claim_pending_for_post P (r_id r) w = (Inr (Some ?t1), ?w1)"
    using P(1) d r(1,2) pending by (rule try_claim_eval)
  obtain w2 where post: "post_transaction P org env src dst a c (tx_id t) (tx_idempotency_key t)
        (unwrap_or corr (p_uuid_str P (tx_id t))) ?w1 = (v, w2)"
    and w2: "w_db w2 = (w_db w)\<lparr>db_transactions := ?rows1\<rparr>" "w_posts w2 = w_posts w @ [req]"
      "w_ext w2 = snd (p_post P req (w_ext w))" "w_audit w2 = w_audit w"
    using post_transaction_eval [OF P(2,3), of org src dst a c "tx_id t" "tx_idempotency_key t"
        "unwrap_or corr (p_uuid_str P (tx_id t))" ?w1] by (simp add: req_def v_def)
  have d2: "distinct (map r_id (db_transactions (w_db w2)))"
    unfolding w2(1) using update_row_distinct [OF d, of ?claim] by simp
  have r2: "?claim r \<in> set (db_transactions (w_db w2))"
    unfolding w2(1) using update_row_in [OF r(1), of ?claim] by simp
  have t1: "row_to_transaction False (?claim r) = Inr ?t1"
    using r(2) by (rule row_to_transaction_status)
  let ?m = "p_clock P (w_tick w2)"
  have upd: "update_status P (r_id r) s m w2 =
    (Inr (t\<lparr>tx_status := s, tx_failure_reason := m, tx_updated_at := ?m\<rparr>),
     w2\<lparr>w_db := (w_db w)\<lparr>db_transactions :=
          map (\<lambda>x. if r_id x = r_id r
               then x\<lparr>r_status := status_str s, r_failure_reason := m, r_updated_at := ?m\<rparr>
               else x) (db_transactions (w_db w))\<rparr>,
       w_tick := Suc (w_tick w2)\<rparr>)" for s m
    using update_status_eval [OF P(1) d2 r2 t1, of s m] by (simp add: w2(1) comp_def cong: if_cong)
  have run: "settle P org env src dst a c corr t w = update_status P (r_id r) (status_of v) (reason_of v) w2"
    using claim post id r(3)
    by (cases v) (simp_all add: settle_def resolve_immediate_ledger_post_def io_simps Let_def
        status_of_def reason_of_def)
  show ?thesis
    by (rule exI [where x = ?m])
      (simp add: run upd id w2 settled_def settled_row_def cong: if_cong)
qed

section \<open>Writing the intent and settling it\<close>

lemma db_transaction_undisturbed:
  "undisturbed P \<Longrightarrow> db_transaction P q w =
    (case q (w_tick w) (w_db w) of
       (Inl e, _) \<Rightarrow> (Inl e, w\<lparr>w_tick := w_tick w + 2\<rparr>)
     | (Inr a, d) \<Rightarrow> (Inr a, w\<lparr>w_db := d, w_tick := w_tick w + 3\<rparr>))"
  by (simp add: undisturbed_def db_transaction_def Let_def split: prod.splits sum.splits)

text \<open>The part deposit, withdraw and transfer have in common.\<close>

definition write_and_settle ::
  "'x params \<Rightarrow> uuid \<Rightarrow> uuid \<Rightarrow> uuid \<Rightarrow> 64 word \<Rightarrow> str \<Rightarrow> transaction_kind \<Rightarrow> str \<Rightarrow> str \<Rightarrow> str option
   \<Rightarrow> str option \<Rightarrow> uuid option \<Rightarrow> str \<Rightarrow> str \<Rightarrow> str option \<Rightarrow> ('x, transaction) svc" where
  "write_and_settle P org f t a c k key env d x r src dst corr =
     bind_io (db_transaction P (create_or_get_by_idempotency P org f t a c k key env d x r)) (\<lambda>tx.
     settle P org env src dst a c corr tx)"

lemma write_and_settle_bind:
  "bind_io (db_transaction P (create_or_get_by_idempotency P org f t a c k key env d x r)) (\<lambda>tx.
     bind_io (settle P org env src dst a c corr tx) g) =
   bind_io (write_and_settle P org f t a c k key env d x r src dst corr) g"
  by (simp add: write_and_settle_def bind_assoc)

lemma idem_match_new_row [simp]:
  "r_organization_id (new_tx_row n i org f t a c k key env d x r) = org"
  "r_idempotency_key (new_tx_row n i org f t a c k key env d x r) = key"
  "r_id (new_tx_row n i org f t a c k key env d x r) = i"
  by (simp_all add: new_tx_row_def)

definition new_transaction ::
  "time \<Rightarrow> uuid \<Rightarrow> uuid \<Rightarrow> uuid \<Rightarrow> uuid \<Rightarrow> 64 word \<Rightarrow> str \<Rightarrow> transaction_kind \<Rightarrow> str \<Rightarrow> str
   \<Rightarrow> str option \<Rightarrow> str option \<Rightarrow> uuid option \<Rightarrow> transaction" where
  "new_transaction n i org f t a c k key env d x r =
     \<lparr>tx_id = i, tx_organization_id = org, tx_from_account_id = f, tx_to_account_id = t, tx_amount = a,
      tx_currency = c, tx_transaction_kind = k, tx_status = Pending, tx_failure_reason = None,
      tx_idempotency_key = key, tx_environment = Some env, tx_description = d,
      tx_external_recipient_id = x, tx_reference_id = r, tx_retry_count = 0,
      tx_last_attempted_at = None, tx_next_retry_at = None, tx_terminal_failure_at = None,
      tx_created_at = n, tx_updated_at = n\<rparr>"

lemma row_to_transaction_new:
  "row_to_transaction False (new_tx_row n i org f t a c k key env d x r) =
     Inr (new_transaction n i org f t a c k key env d x r)"
proof -
  have "parse_status (u ''pending'') = Some Pending" by (simp add: parse_status_def)
  then show ?thesis by (simp add: row_to_transaction_def new_tx_row_def new_transaction_def)
qed

lemma settled_append:
  "i \<notin> r_id ` set rows \<Longrightarrow> r_id row = i \<Longrightarrow> settled i v at (rows @ [row]) = rows @ [settled_row v at row]"
proof -
  assume i: "i \<notin> r_id ` set rows" "r_id row = i"
  then have "map (\<lambda>r. if r_id r = i then settled_row v at r else r) rows = rows"
    by (intro map_idI) (metis imageI)
  with i show ?thesis by (simp add: settled_def)
qed

text \<open>A key seen for the first time.\<close>

lemma write_and_settle_new:
  fixes src dst c key env :: str and corr d x :: "str option" and org f t :: uuid and a :: "64 word"
    and w :: "'x world" and r :: "uuid option" and k :: transaction_kind
  assumes P: "undisturbed P" "ledger_up P" "env_to_proto env = Inr env_i"
    and ok: "tx_table_ok (db_transactions (w_db w))"
    and none: "\<forall>row \<in> set (db_transactions (w_db w)). \<not> idem_match org env key row"
  defines "n \<equiv> p_clock P (w_tick w)" and "i \<equiv> p_uuid P (w_tick w)"
  defines "row \<equiv> new_tx_row n i org f t a c k key env d x r"
  assumes ins: "insert_ok row (db_transactions (w_db w))"
  defines "req \<equiv> make_post P org env_i src dst a c i key (unwrap_or corr (p_uuid_str P i))"
  defines "v \<equiv> ledger_verdict P req (w_ext w)"
  shows "\<exists>at. let (res, w') = write_and_settle P org f t a c k key env d x r src dst corr w in
    res = Inr ((new_transaction n i org f t a c k key env d x r)
            \<lparr>tx_status := status_of v, tx_failure_reason := reason_of v, tx_updated_at := at\<rparr>) \<and>
    db_transactions (w_db w') = db_transactions (w_db w) @ [settled_row v at row] \<and>
    db_accounts (w_db w') = db_accounts (w_db w) \<and>
    w_posts w' = w_posts w @ [req] \<and>
    w_ext w' = snd (p_post P req (w_ext w)) \<and> w_audit w' = w_audit w"
proof -
  let ?rows = "db_transactions (w_db w)"
  have noid: "i \<notin> r_id ` set ?rows" using ins by (simp add: insert_ok_def row_def)
  have stmt: "create_or_get_stmt (p_constraint_error P) row ?rows = (Inr [row], ?rows @ [row])"
    using none ins
    by (simp add: create_or_get_stmt_def select_idem_stmt_def row_def filter_empty_conv)
  let ?w1 = "w\<lparr>w_db := (w_db w)\<lparr>db_transactions := ?rows @ [row]\<rparr>, w_tick := w_tick w + 3\<rparr>"
  have written: "db_transaction P (create_or_get_by_idempotency P org f t a c k key env d x r) w =
      (Inr (new_transaction n i org f t a c k key env d x r), ?w1)"
    using stmt row_to_transaction_new [of n i org f t a c k key env d x r]
    by (simp add: db_transaction_undisturbed [OF P(1)] create_or_get_by_idempotency_def
        tx_try_update_def on_transactions_def one_transaction_def fetch_one_def row_def n_def i_def)
  have d: "distinct (map r_id (db_transactions (w_db ?w1)))"
    using ok noid by (simp add: tx_table_ok_def row_def)
  have r: "row \<in> set (db_transactions (w_db ?w1))" by simp
  have t: "row_to_transaction False row = Inr (new_transaction n i org f t a c k key env d x r)"
    unfolding row_def by (rule row_to_transaction_new)
  have p: "tx_status (new_transaction n i org f t a c k key env d x r) = Pending"
    by (simp add: new_transaction_def)
  have id: "tx_id (new_transaction n i org f t a c k key env d x r) = i"
    and key: "tx_idempotency_key (new_transaction n i org f t a c k key env d x r) = key"
    by (simp_all add: new_transaction_def)
  from settle_pending [OF P d r t p, of org src dst a c corr, unfolded id key]
  obtain at where "let (res, w') = settle P org env src dst a c corr (new_transaction n i org f t a c k key env d x r) ?w1 in
    res = Inr ((new_transaction n i org f t a c k key env d x r)
            \<lparr>tx_status := status_of v, tx_failure_reason := reason_of v, tx_updated_at := at\<rparr>) \<and>
    db_transactions (w_db w') = settled i v at (?rows @ [row]) \<and>
    db_accounts (w_db w') = db_accounts (w_db w) \<and>
    w_posts w' = w_posts w @ [req] \<and>
    w_ext w' = snd (p_post P req (w_ext w)) \<and> w_audit w' = w_audit w"
    by (auto simp: v_def req_def)
  then show ?thesis
    using settled_append [OF noid, of row v at]
    by (intro exI [of _ at]) (simp add: write_and_settle_def io_simps written row_def)
qed

text \<open>A key already in the table: the stored row decides.\<close>

lemma write_old:
  assumes P: "undisturbed P" and ok: "tx_table_ok (db_transactions (w_db w))"
    and row: "row \<in> set (db_transactions (w_db w))" "idem_match org env key row"
    and t: "row_to_transaction False row = Inr tx"
  shows "db_transaction P (create_or_get_by_idempotency P org f t' a c k key env d x r) w =
      (Inr tx, w\<lparr>w_tick := w_tick w + 3\<rparr>)"
proof -
  have "select_idem_stmt org env key (db_transactions (w_db w)) = [row]"
    using ok row by (rule select_idem_unique)
  then show ?thesis
    using t by (simp add: db_transaction_undisturbed [OF P] create_or_get_by_idempotency_def
        tx_try_update_def on_transactions_def one_transaction_def fetch_one_def create_or_get_stmt_def)
qed

lemma write_and_settle_done:
  assumes P: "undisturbed P" and ok: "tx_table_ok (db_transactions (w_db w))"
    and row: "row \<in> set (db_transactions (w_db w))" "idem_match org env key row"
    and t: "row_to_transaction False row = Inr tx" "tx_status tx \<noteq> Pending"
  shows "write_and_settle P org f t' a c k key env d x r src dst corr w = (Inr tx, w\<lparr>w_tick := w_tick w + 3\<rparr>)"
  using write_old [OF P ok row t(1)] t(2)
  by (cases "tx_status tx")
    (simp_all add: write_and_settle_def settle_def resolve_immediate_ledger_post_def io_simps)

lemma write_and_settle_pending:
  fixes src dst c key env :: str and corr d x :: "str option" and org f t' :: uuid and a :: "64 word"
    and w :: "'x world" and tx :: transaction and r :: "uuid option" and k :: transaction_kind
  assumes P: "undisturbed P" "ledger_up P" "env_to_proto env = Inr env_i"
    and ok: "tx_table_ok (db_transactions (w_db w))"
    and row: "row \<in> set (db_transactions (w_db w))" "idem_match org env key row"
    and t: "row_to_transaction False row = Inr tx" "tx_status tx = Pending"
  defines "req \<equiv> make_post P org env_i src dst a c (tx_id tx) (tx_idempotency_key tx)
                   (unwrap_or corr (p_uuid_str P (tx_id tx)))"
  defines "v \<equiv> ledger_verdict P req (w_ext w)"
  shows "\<exists>at. let (res, w') = write_and_settle P org f t' a c k key env d x r src dst corr w in
    res = Inr (tx\<lparr>tx_status := status_of v, tx_failure_reason := reason_of v, tx_updated_at := at\<rparr>) \<and>
    db_transactions (w_db w') = settled (tx_id tx) v at (db_transactions (w_db w)) \<and>
    db_accounts (w_db w') = db_accounts (w_db w) \<and>
    w_posts w' = w_posts w @ [req] \<and>
    w_ext w' = snd (p_post P req (w_ext w)) \<and> w_audit w' = w_audit w"
proof -
  let ?w1 = "w\<lparr>w_tick := w_tick w + 3\<rparr>"
  have "distinct (map r_id (db_transactions (w_db ?w1)))" using ok by (simp add: tx_table_ok_def)
  from settle_pending [OF P this, of row tx org src dst a c corr] row(1) t
  show ?thesis
    by (simp add: write_and_settle_def io_simps write_old [OF P(1) ok row t(1)] req_def v_def)
qed

section \<open>Accounts\<close>

definition account_at :: "db \<Rightarrow> uuid \<Rightarrow> str \<Rightarrow> account \<Rightarrow> bool" where
  "account_at d i env acc \<longleftrightarrow>
     (\<exists>a rest. select_account_id_stmt i env (db_accounts d) = a # rest \<and> row_to_account a = Inr acc)"

lemma account_at_env:
  assumes "db_ok d" "account_at d i env acc"
  shows "(env = u ''sandbox'' \<or> env = u ''production'') \<and> acc_id acc = i \<and> acc_environment acc = Some env"
proof -
  obtain a rest where a: "select_account_id_stmt i env (db_accounts d) = a # rest" "row_to_account a = Inr acc"
    using assms(2) unfolding account_at_def by blast
  then have "a \<in> set (select_account_id_stmt i env (db_accounts d))" by simp
  then have in_table: "a \<in> set (db_accounts d)" "a_id a = i" "a_environment a = env"
    by (auto simp: select_account_id_stmt_def)
  then have "account_row_ok a" using assms(1) by (auto simp: db_ok_def account_table_ok_def list_all_iff)
  with in_table row_to_account_InrD [OF a(2)] show ?thesis by (auto simp: account_row_ok_def)
qed

lemma find_account_eval:
  "undisturbed P \<Longrightarrow> account_at (w_db w) i env acc \<Longrightarrow>
   find_account_by_id P i env w = (Inr acc, w\<lparr>w_tick := Suc (w_tick w)\<rparr>)"
  by (auto simp: account_at_def find_account_by_id_def io_simps acc_read_def fetch_optional_def)

lemma find_account_missing:
  "undisturbed P \<Longrightarrow> select_account_id_stmt i env (db_accounts (w_db w)) = [] \<Longrightarrow>
   find_account_by_id P i env w =
     (Inl (NotFound (u ''Account with id '' @ p_uuid_str P i @ u '' not found in environment '' @ env)),
      w\<lparr>w_tick := Suc (w_tick w)\<rparr>)"
  by (simp add: find_account_by_id_def io_simps acc_read_def fetch_optional_def)

lemma find_idem_none:
  assumes "undisturbed P" "\<forall>row \<in> set (db_transactions (w_db w)). \<not> idem_match org env key row"
  shows "find_by_idempotency P org env key w = (Inr None, w\<lparr>w_tick := Suc (w_tick w)\<rparr>)"
proof -
  have "select_idem_stmt org env key (db_transactions (w_db w)) = []"
    using assms(2) by (simp add: select_idem_stmt_def filter_empty_conv)
  then show ?thesis
    using assms(1) by (simp add: find_by_idempotency_def io_simps tx_read_def optional_transaction_def fetch_optional_def)
qed

lemma find_idem_some:
  assumes "undisturbed P" "tx_table_ok (db_transactions (w_db w))"
    and "row \<in> set (db_transactions (w_db w))" "idem_match org env key row"
    and "row_to_transaction False row = Inr tx"
  shows "find_by_idempotency P org env key w = (Inr (Some tx), w\<lparr>w_tick := Suc (w_tick w)\<rparr>)"
proof -
  have "select_idem_stmt org env key (db_transactions (w_db w)) = [row]"
    using assms(2-4) by (rule select_idem_unique)
  then show ?thesis
    using assms(1,5) by (simp add: find_by_idempotency_def io_simps tx_read_def optional_transaction_def fetch_optional_def)
qed

text \<open>The balance the ledger reports, as the overdraft check reads it.\<close>

definition reported_balance :: "'x params \<Rightarrow> uuid \<Rightarrow> int \<Rightarrow> uuid \<Rightarrow> str \<Rightarrow> 'x \<Rightarrow> 64 word option" where
  "reported_balance P org env_i account currency x =
     (case fst (p_balance P \<lparr>br_organization_id = p_uuid_str P org, br_environment = env_i,
                 br_external_account_id = p_uuid_str P account, br_currency = currency\<rparr> x) of
        Reply b \<Rightarrow> map_option uminus (parse_i64 (trim b))
      | _ \<Rightarrow> None)"

lemma check_overdraft_eval:
  fixes org account :: uuid and c :: str and amount :: "64 word" and w :: "'x world"
  assumes "ledger_up P" "env_to_proto env = Inr env_i"
    and "reported_balance P org env_i account c (w_ext w) = Some b"
  defines "req \<equiv> \<lparr>br_organization_id = p_uuid_str P org, br_environment = env_i,
                 br_external_account_id = p_uuid_str P account, br_currency = c\<rparr>"
  shows "check_overdraft P org env account c amount w =
    (if sint b < sint amount then Inl InsufficientFunds else Inr (),
     w\<lparr>w_ext := snd (p_balance P req (w_ext w)), w_channel := True,
       w_tick := (if w_channel w then Suc (w_tick w) else Suc (Suc (w_tick w)))\<rparr>)"
  using assms(1-3)
  by (cases "w_channel w")
    (auto simp: check_overdraft_def get_account_balance_def io_simps connect_channel_def send_balance_def
      ledger_up_def reported_balance_def req_def Let_def split: rpc_reply.splits)

end
