(* ===== verification/Money.thy ===== *)
theory Money
  imports Service_Spec
begin

text \<open>
  The properties of deposit, withdraw and transfer: what a new request does when the ledger accepts
  it and when it does not, what a repeated idempotency key does, which guards stop a request before
  it has any effect, and that no request ever posts twice. The concrete world at the top is where
  the properties are instantiated.
\<close>

section \<open>A concrete world\<close>

definition demo_params :: "nat params" where
  "demo_params =
     \<lparr>p_other = (\<lambda>_. id), p_fault = (\<lambda>_. No_Fault), p_clock = (\<lambda>t. 1000000 * int t),
      p_uuid = (\<lambda>t. of_nat (100 + t)), p_locked = (\<lambda>_ _. False), p_constraint_error = u ''constraint'',
      p_uuid_str = (\<lambda>i. show_nat (unat i)), p_uuid_parse = (\<lambda>s. map_option of_nat (parse_digits s)),
      p_rfc3339 = (\<lambda>t. show_nat (nat t)), p_digits = (\<lambda>t k. t + k), p_luhn = (\<lambda>_. Some 48),
      p_env_var = (\<lambda>_. None), p_connect = (\<lambda>_. Connected),
      p_post = (\<lambda>_ x. (Reply (u ''posted'', []), Suc x)),
      p_balance = (\<lambda>_ x. (Reply (u ''-500''), x)),
      p_balances = (\<lambda>_ x. (Reply (u ''-500'', u ''-20''), x)),
      p_validate_key = (\<lambda>_ _ x. (Inr (u ''7'', u ''8'', u ''9''), x)),
      p_resolve_user = (\<lambda>_ _ _ _ _ x. (Inr (u ''7'', u ''8'', u ''9''), x)),
      p_audit_client = True\<rparr>"

definition demo_account :: "uuid \<Rightarrow> string \<Rightarrow> account_row" where
  "demo_account i number =
     \<lparr>a_id = i, a_account_number = u number, a_account_type = u ''checking'',
      a_organization_id = Some 7, a_environment = u ''sandbox'', a_holder_id = None,
      a_user_id = Some 9, a_admin_user_id = None, a_user_role = None, a_currency = u ''USD'',
      a_status = u ''active'', a_created_at = 0, a_updated_at = 0\<rparr>"

definition demo_world :: "nat world" where
  "demo_world =
     \<lparr>w_db = \<lparr>db_accounts = [demo_account 1 ''100'', demo_account 2 ''200''], db_transactions = []\<rparr>,
      w_ext = 0, w_channel = False, w_posts = [], w_audit = [], w_tick = 0\<rparr>"

definition demo_acc :: "uuid \<Rightarrow> string \<Rightarrow> account" where
  "demo_acc i number =
     \<lparr>acc_id = i, acc_account_number = u number, acc_account_type = Checking,
      acc_organization_id = Some 7, acc_environment = Some (u ''sandbox''), acc_holder_id = None,
      acc_user_id = Some 9, acc_admin_user_id = None, acc_user_role = None,
      acc_currency = Some (u ''USD''), acc_status = Some Active, acc_created_at = Some 0,
      acc_updated_at = Some 0\<rparr>"

text \<open>A row left pending by an earlier request with key \<open>k\<close> for 25, and the same row posted.\<close>

definition demo_row :: "string \<Rightarrow> tx_row" where
  "demo_row status = (new_tx_row 0 50 7 1 1 25 (u ''USD'') Deposit (u ''k'') (u ''sandbox'') None None None)
     \<lparr>r_status := u status\<rparr>"

definition demo_world_with :: "string \<Rightarrow> nat world" where
  "demo_world_with status = demo_world\<lparr>w_db := (w_db demo_world)\<lparr>db_transactions := [demo_row status]\<rparr>\<rparr>"

definition demo_tx :: "transaction_status \<Rightarrow> transaction" where
  "demo_tx s = (new_transaction 0 50 7 1 1 25 (u ''USD'') Deposit (u ''k'') (u ''sandbox'') None None None)\<lparr>tx_status := s\<rparr>"

lemma demo_params_ok: "undisturbed demo_params" "ledger_up demo_params" "lawful demo_params"
proof -
  show "undisturbed demo_params" by (simp add: undisturbed_def demo_params_def)
  then show "lawful demo_params" by (rule lawful_undisturbed)
  show "ledger_up demo_params" by (simp add: ledger_up_def demo_params_def)
qed

lemma demo_accounts_ok: "account_table_ok [demo_account 1 ''100'', demo_account 2 ''200'']"
  by (simp add: account_table_ok_def account_row_ok_def demo_account_def)

lemma demo_row_ok:
  "status \<in> {''pending'', ''posting'', ''posted'', ''failed''} \<Longrightarrow> tx_table_ok [demo_row status]"
  by (auto simp: tx_table_ok_def tx_row_ok_def demo_row_def new_tx_row_def)

lemma demo_world_ok:
  "db_ok (w_db demo_world)" "db_ok (w_db (demo_world_with ''pending''))" "db_ok (w_db (demo_world_with ''posted''))"
  using demo_accounts_ok demo_row_ok [of "''pending''"] demo_row_ok [of "''posted''"]
  by (simp_all add: db_ok_def demo_world_def demo_world_with_def tx_table_ok_def [of "[]"])

lemma demo_account_at:
  "account_at (w_db demo_world) 1 (u ''sandbox'') (demo_acc 1 ''100'')"
  "account_at (w_db demo_world) 2 (u ''sandbox'') (demo_acc 2 ''200'')"
  "account_at (w_db (demo_world_with s)) 1 (u ''sandbox'') (demo_acc 1 ''100'')"
  by (simp_all add: account_at_def demo_world_def demo_world_with_def select_account_id_stmt_def
      demo_account_def row_to_account_def parse_account_type_def parse_account_status_def demo_acc_def)

lemma demo_acc_simps [simp]:
  "acc_status (demo_acc i n) = Some Active" "acc_organization_id (demo_acc i n) = Some 7"
  "acc_currency (demo_acc i n) = Some (u ''USD'')"
  by (simp_all add: demo_acc_def)

lemma demo_key: "trim (u ''k'') \<noteq> []"
  by (simp add: trim_Nil_iff u_def is_ws_def)

lemma demo_row_in: "demo_row s \<in> set (db_transactions (w_db (demo_world_with s)))"
  "idem_match 7 (u ''sandbox'') (u ''k'') (demo_row s)"
  by (simp_all add: demo_world_with_def idem_match_def demo_row_def new_tx_row_def)

lemma demo_row_tx:
  "row_to_transaction False (demo_row ''pending'') = Inr (demo_tx Pending)"
  "row_to_transaction False (demo_row ''posted'') = Inr (demo_tx Posted)"
  by (simp_all add: row_to_transaction_def parse_kind_def parse_status_def demo_row_def demo_tx_def new_tx_row_def
      new_transaction_def)

section \<open>New requests\<close>

definition proto_env :: "str \<Rightarrow> int" where
  "proto_env env = (if env = u ''sandbox'' then 1 else 2)"

lemma proto_env_of_account:
  "db_ok d \<Longrightarrow> account_at d i env acc \<Longrightarrow> env_to_proto env = Inr (proto_env env)"
  using account_at_env [of d i env acc] by (auto simp: env_to_proto_def proto_env_def)

lemma db_ok_tx: "db_ok d \<Longrightarrow> tx_table_ok (db_transactions d)"
  by (simp add: db_ok_def)

lemma deposit_reduces:
  assumes "undisturbed P" "account_at (w_db w) i env acc" "acc_status acc = Some Active"
    and "acc_organization_id acc = Some org" "trim key \<noteq> []"
  shows "deposit_with_idempotency P i env amount key corr d x r w =
    bind_io (write_and_settle P org i i amount (unwrap_or (acc_currency acc) (u ''USD'')) Deposit key env d x r
        (u ''SYSTEM_CASH_CONTROL'') (p_uuid_str P i) corr) (\<lambda>t. ret (acc, t)) (w\<lparr>w_tick := Suc (w_tick w)\<rparr>)"
  using find_account_eval [OF assms(1,2)] assms(3-5)
  by (simp add: deposit_with_idempotency_def bind_io_apply [of "find_account_by_id P i env"]
      bind_io_apply [of "lift_result (Inr org)"] lift_result_apply Let_def write_and_settle_bind)

lemma withdraw_reduces:
  fixes amount :: "64 word" and d x corr :: "str option" and r :: "uuid option" and i j :: uuid
  assumes "undisturbed P" "account_at (w_db w) i env acc" "acc_status acc = Some Active"
    and "acc_organization_id acc = Some org" "trim key \<noteq> []"
  defines "c \<equiv> unwrap_or (acc_currency acc) (u ''USD'')"
  defines "go \<equiv> bind_io (write_and_settle P org i i amount c Withdraw key env d x r (p_uuid_str P i)
        (u ''SYSTEM_CASH_CONTROL'') corr) (\<lambda>t. ret (acc, t))"
  shows "withdraw_with_idempotency P i env amount key corr d x r w =
    bind_io (find_by_idempotency P org env key) (\<lambda>found.
      case found of
        Some old \<Rightarrow> if tx_status old = Posted \<or> tx_status old = Posting then ret (acc, old) else go
      | None \<Rightarrow> bind_io (check_overdraft P org env i c amount) (\<lambda>_. go)) (w\<lparr>w_tick := Suc (w_tick w)\<rparr>)"
  unfolding c_def go_def
  using find_account_eval [OF assms(1,2)] assms(3-5)
  by (simp add: withdraw_with_idempotency_def bind_io_apply [of "find_account_by_id P i env"]
      bind_io_apply [of "lift_result (Inr org)"] lift_result_apply Let_def write_and_settle_bind)

lemma transfer_reduces:
  fixes amount :: "64 word" and d x corr :: "str option" and r :: "uuid option" and i j :: uuid
  assumes "undisturbed P" "account_at (w_db w) i env acc" "acc_status acc = Some Active"
    and "account_at (w_db w) j env acc'" "acc_status acc' = Some Active"
    and "acc_organization_id acc = Some org" "acc_organization_id acc' = Some org" "trim key \<noteq> []"
    and "unwrap_or (acc_currency acc') (u ''USD'') = unwrap_or (acc_currency acc) (u ''USD'')"
  defines "c \<equiv> unwrap_or (acc_currency acc) (u ''USD'')"
  defines "go \<equiv> bind_io (write_and_settle P org i j amount c Transfer key env d x r (p_uuid_str P i)
        (p_uuid_str P j) corr) (\<lambda>t. ret (acc, acc', t))"
  shows "transfer_with_idempotency P i env j amount key corr d x r w =
    bind_io (find_by_idempotency P org env key) (\<lambda>found.
      case found of
        Some old \<Rightarrow> if tx_status old = Posted \<or> tx_status old = Posting then ret (acc, acc', old) else go
      | None \<Rightarrow> bind_io (check_overdraft P org env i c amount) (\<lambda>_. go)) (w\<lparr>w_tick := Suc (Suc (w_tick w))\<rparr>)"
proof -
  have j: "account_at (w_db (w\<lparr>w_tick := Suc (w_tick w)\<rparr>)) j env acc'" using assms(4) by simp
  show ?thesis
    unfolding c_def go_def
    using find_account_eval [OF assms(1,2)] find_account_eval [OF assms(1) j] assms(3,5-9)
    by (simp add: transfer_with_idempotency_def bind_io_apply [of "find_account_by_id P i env"]
        bind_io_apply [of "find_account_by_id P j env"]
        bind_io_apply [of "lift_result (Inr org)"] lift_result_apply Let_def write_and_settle_bind)
qed

text \<open>What a request that reaches the ledger leaves behind: the table got the new row, settled; one
  post went out; the answer carries the row's transaction.\<close>

definition request_effect ::
  "'x params \<Rightarrow> 'x world \<Rightarrow> tx_row \<Rightarrow> transaction \<Rightarrow> post_request \<Rightarrow> app_error + unit \<Rightarrow> 'x world \<Rightarrow> transaction \<Rightarrow> bool" where
  "request_effect P w row t0 req v w' t \<longleftrightarrow>
     (\<exists>at. t = t0\<lparr>tx_status := status_of v, tx_failure_reason := reason_of v, tx_updated_at := at\<rparr> \<and>
       db_transactions (w_db w') = db_transactions (w_db w) @ [settled_row v at row]) \<and>
     db_accounts (w_db w') = db_accounts (w_db w) \<and> w_posts w' = w_posts w @ [req]"

text \<open>The run of such a deposit.\<close>

lemma deposit_run:
  assumes "undisturbed P" "ledger_up P" "db_ok (w_db w)" "trim key \<noteq> []"
    and "account_at (w_db w) i env acc" "acc_status acc = Some Active" "acc_organization_id acc = Some org"
    and "\<forall>row \<in> set (db_transactions (w_db w)). \<not> idem_match org env key row"
    and "insert_ok (new_tx_row (p_clock P (Suc (w_tick w))) (p_uuid P (Suc (w_tick w))) org i i amount
           (unwrap_or (acc_currency acc) (u ''USD'')) Deposit key env d x r) (db_transactions (w_db w))"
    and "c = unwrap_or (acc_currency acc) (u ''USD'')" "n = p_clock P (Suc (w_tick w))" "fresh = p_uuid P (Suc (w_tick w))"
    and "req = make_post P org (proto_env env) (u ''SYSTEM_CASH_CONTROL'') (p_uuid_str P i) amount c fresh key
                (unwrap_or corr (p_uuid_str P fresh))"
  obtains t w' where "deposit_with_idempotency P i env amount key corr d x r w = (Inr (acc, t), w')"
    "request_effect P w (new_tx_row n fresh org i i amount c Deposit key env d x r)
      (new_transaction n fresh org i i amount c Deposit key env d x r) req (ledger_verdict P req (w_ext w)) w' t"
proof -
  let ?w1 = "w\<lparr>w_tick := Suc (w_tick w)\<rparr>"
  let ?ws = "write_and_settle P org i i amount (unwrap_or (acc_currency acc) (u ''USD'')) Deposit key env d x r
        (u ''SYSTEM_CASH_CONTROL'') (p_uuid_str P i) corr"
  obtain res w' where run: "?ws ?w1 = (res, w')" by fastforce
  have "tx_table_ok (db_transactions (w_db ?w1))" using assms(3) by (simp add: db_ok_tx)
  from write_and_settle_new [OF assms(1,2) proto_env_of_account [OF assms(3,5)] this, of org key i i amount
      "unwrap_or (acc_currency acc) (u ''USD'')" Deposit d x r "u ''SYSTEM_CASH_CONTROL''" "p_uuid_str P i" corr]
    assms(8,9) run
  have "\<exists>t w'. deposit_with_idempotency P i env amount key corr d x r w = (Inr (acc, t), w') \<and>
    request_effect P w (new_tx_row n fresh org i i amount c Deposit key env d x r)
      (new_transaction n fresh org i i amount c Deposit key env d x r) req (ledger_verdict P req (w_ext w)) w' t"
    unfolding assms(10-)
    by (auto simp: deposit_reduces [OF assms(1,5,6,7,4)] io_simps Let_def request_effect_def)
  with that show thesis by blast
qed

text \<open>
  C1. Deposit under a new idempotency key, on an active account: one row is written with the
  request's account, amount and key; one post goes to the ledger, from SYSTEM\_CASH\_CONTROL to the
  account; the transaction returned and the stored row are Posted exactly when the ledger answered
  posted, and otherwise Pending with the ledger error as failure reason.
\<close>

theorem deposit_new:
  assumes "undisturbed P" "ledger_up P" "db_ok (w_db w)" "trim key \<noteq> []"
    and "account_at (w_db w) i env acc" "acc_status acc = Some Active" "acc_organization_id acc = Some org"
    and "\<forall>row \<in> set (db_transactions (w_db w)). \<not> idem_match org env key row"
    and "insert_ok (new_tx_row (p_clock P (Suc (w_tick w))) (p_uuid P (Suc (w_tick w))) org i i amount
           (unwrap_or (acc_currency acc) (u ''USD'')) Deposit key env d x r) (db_transactions (w_db w))"
  shows "\<exists>t w'.
    let c = unwrap_or (acc_currency acc) (u ''USD'');
        n = p_clock P (Suc (w_tick w)); fresh = p_uuid P (Suc (w_tick w));
        req = make_post P org (proto_env env) (u ''SYSTEM_CASH_CONTROL'') (p_uuid_str P i) amount c fresh key
                (unwrap_or corr (p_uuid_str P fresh)) in
    deposit_with_idempotency P i env amount key corr d x r w = (Inr (acc, t), w') \<and>
    request_effect P w (new_tx_row n fresh org i i amount c Deposit key env d x r)
      (new_transaction n fresh org i i amount c Deposit key env d x r) req (ledger_verdict P req (w_ext w)) w' t"
  unfolding Let_def by (rule deposit_run [OF assms refl refl refl refl]) blast

theorem deposit_new_witness:
  "\<exists>t w'. deposit_with_idempotency demo_params 1 (u ''sandbox'') 25 (u ''k'') None None None None demo_world
      = (Inr (demo_acc 1 ''100'', t), w') \<and> tx_status t = Posted \<and> length (db_transactions (w_db w')) = 1 \<and>
      map pr_amount (w_posts w') = [25]"
proof -
  have fresh: "\<forall>row \<in> set (db_transactions (w_db demo_world)). \<not> idem_match 7 (u ''sandbox'') (u ''k'') row"
    by (simp add: demo_world_def)
  have ins: "insert_ok (new_tx_row (p_clock demo_params (Suc (w_tick demo_world)))
      (p_uuid demo_params (Suc (w_tick demo_world))) 7 1 1 25
      (unwrap_or (acc_currency (demo_acc 1 ''100'')) (u ''USD'')) Deposit (u ''k'') (u ''sandbox'') None None None)
      (db_transactions (w_db demo_world))"
    by (simp add: insert_ok_def tx_row_ok_def new_tx_row_def demo_world_def)
  have posted: "ledger_verdict demo_params req n = Inr ()" for req n
    by (simp add: ledger_verdict_def demo_params_def)
  show ?thesis
    using deposit_new [OF demo_params_ok(1,2) demo_world_ok(1) demo_key demo_account_at(1) _ _ fresh ins,
        of None]
    by (auto simp: Let_def request_effect_def posted status_of_def make_post_def demo_world_def)
qed

section \<open>The overdraft check\<close>

text \<open>Whatever the tick at which it is written, the row of a request is accepted by the table.\<close>

definition creatable ::
  "'x params \<Rightarrow> uuid \<Rightarrow> uuid \<Rightarrow> uuid \<Rightarrow> 64 word \<Rightarrow> str \<Rightarrow> transaction_kind \<Rightarrow> str \<Rightarrow> str
   \<Rightarrow> str option \<Rightarrow> str option \<Rightarrow> uuid option \<Rightarrow> tx_row list \<Rightarrow> bool" where
  "creatable P org f t a c k key env d x r rows \<longleftrightarrow>
     (\<forall>row \<in> set rows. \<not> idem_match org env key row) \<and>
     (\<forall>n. insert_ok (new_tx_row (p_clock P n) (p_uuid P n) org f t a c k key env d x r) rows)"

definition after_balance :: "'x params \<Rightarrow> uuid \<Rightarrow> int \<Rightarrow> uuid \<Rightarrow> str \<Rightarrow> 'x \<Rightarrow> 'x" where
  "after_balance P org env_i i c x =
     snd (p_balance P \<lparr>br_organization_id = p_uuid_str P org, br_environment = env_i,
       br_external_account_id = p_uuid_str P i, br_currency = c\<rparr> x)"

text \<open>The run of withdraw and transfer under a new key, up to the write.\<close>

lemma checked_write_new:
  fixes amount :: "64 word" and d x corr :: "str option" and r :: "uuid option" and i j :: uuid
    and k :: transaction_kind and src dst c key env :: str and w :: "'x world" and org :: uuid
  assumes P: "undisturbed P" "ledger_up P" "env_to_proto env = Inr env_i" and ok: "db_ok (w_db w)"
    and bal: "reported_balance P org env_i i c (w_ext w) = Some b" "sint amount \<le> sint b"
    and cr: "creatable P org i j amount c k key env d x r (db_transactions (w_db w))"
  shows "\<exists>t w' n fresh.
    let req = make_post P org env_i src dst amount c fresh key (unwrap_or corr (p_uuid_str P fresh)) in
    bind_io (find_by_idempotency P org env key) (\<lambda>found.
      case found of
        Some old \<Rightarrow> if tx_status old = Posted \<or> tx_status old = Posting then ret (g old)
           else bind_io (write_and_settle P org i j amount c k key env d x r src dst corr) (\<lambda>t. ret (g t))
      | None \<Rightarrow> bind_io (check_overdraft P org env i c amount) (\<lambda>_.
           bind_io (write_and_settle P org i j amount c k key env d x r src dst corr) (\<lambda>t. ret (g t)))) w
      = (Inr (g t), w') \<and>
    request_effect P w (new_tx_row n fresh org i j amount c k key env d x r)
      (new_transaction n fresh org i j amount c k key env d x r) req
      (ledger_verdict P req (after_balance P org env_i i c (w_ext w))) w' t"
proof -
  let ?w1 = "w\<lparr>w_tick := Suc (w_tick w)\<rparr>"
  have none: "\<forall>row \<in> set (db_transactions (w_db w)). \<not> idem_match org env key row"
    using cr by (simp add: creatable_def)
  have idem: "find_by_idempotency P org env key w = (Inr None, ?w1)"
    using P(1) none by (rule find_idem_none)
  have bal1: "reported_balance P org env_i i c (w_ext ?w1) = Some b" using bal(1) by simp
  obtain w2 where check: "check_overdraft P org env i c amount ?w1 = (Inr (), w2)"
    and w2: "w_db w2 = w_db w" "w_posts w2 = w_posts w" "w_ext w2 = after_balance P org env_i i c (w_ext w)"
    using check_overdraft_eval [OF P(2,3) bal1, of amount] bal(2)
    by (auto simp: after_balance_def)
  have ok2: "tx_table_ok (db_transactions (w_db w2))" using ok by (simp add: w2(1) db_ok_tx)
  have none2: "\<forall>row \<in> set (db_transactions (w_db w2)). \<not> idem_match org env key row"
    using none by (simp add: w2(1))
  have ins2: "insert_ok (new_tx_row (p_clock P (w_tick w2)) (p_uuid P (w_tick w2)) org i j amount c k key env d x r)
      (db_transactions (w_db w2))"
    using cr by (simp add: creatable_def w2(1))
  obtain res w' where run: "write_and_settle P org i j amount c k key env d x r src dst corr w2 = (res, w')"
    by fastforce
  from write_and_settle_new [OF P ok2 none2 ins2, of src dst corr] run show ?thesis
    by (intro exI [of _ "projr res"] exI [of _ w'] exI [of _ "p_clock P (w_tick w2)"]
        exI [of _ "p_uuid P (w_tick w2)"])
      (auto simp: io_simps idem check Let_def request_effect_def w2)
qed

lemma checked_overdraft:
  assumes P: "undisturbed P" "ledger_up P" "env_to_proto env = Inr env_i"
    and bal: "reported_balance P org env_i i c (w_ext w) = Some b" "sint b < sint amount"
    and none: "\<forall>row \<in> set (db_transactions (w_db w)). \<not> idem_match org env key row"
    and frame: "w_db w = tables" "w_posts w = posts"
  shows "\<exists>w'. bind_io (find_by_idempotency P org env key) (\<lambda>found.
      case found of
        Some old \<Rightarrow> if tx_status old = Posted \<or> tx_status old = Posting then ret (g old) else go
      | None \<Rightarrow> bind_io (check_overdraft P org env i c amount) (\<lambda>_. go)) w
      = (Inl InsufficientFunds, w') \<and> w_db w' = tables \<and> w_posts w' = posts"
proof -
  let ?w1 = "w\<lparr>w_tick := Suc (w_tick w)\<rparr>"
  have idem: "find_by_idempotency P org env key w = (Inr None, ?w1)"
    using P(1) none by (rule find_idem_none)
  have bal1: "reported_balance P org env_i i c (w_ext ?w1) = Some b" using bal(1) by simp
  show ?thesis
    using check_overdraft_eval [OF P(2,3) bal1, of amount] bal(2) frame by (simp add: io_simps idem)
qed

text \<open>
  C5. Withdraw and transfer under a new key: when the balance the ledger reports (negated for
  display) is below the amount, the request fails with InsufficientFunds, writes nothing and posts
  nothing.
\<close>

theorem overdraft_rejected:
  assumes "undisturbed P" "ledger_up P" "db_ok (w_db w)" "trim key \<noteq> []"
    and "account_at (w_db w) i env acc" "acc_status acc = Some Active" "acc_organization_id acc = Some org"
    and "account_at (w_db w) j env acc'" "acc_status acc' = Some Active" "acc_organization_id acc' = Some org"
    and "unwrap_or (acc_currency acc') (u ''USD'') = unwrap_or (acc_currency acc) (u ''USD'')"
    and "\<forall>row \<in> set (db_transactions (w_db w)). \<not> idem_match org env key row"
    and "reported_balance P org (proto_env env) i (unwrap_or (acc_currency acc) (u ''USD'')) (w_ext w) = Some b"
    and "sint b < sint amount"
  shows "(\<exists>w'. withdraw_with_idempotency P i env amount key corr d x r w = (Inl InsufficientFunds, w') \<and>
            w_db w' = w_db w \<and> w_posts w' = w_posts w) \<and>
    (\<exists>w'. transfer_with_idempotency P i env j amount key corr d x r w = (Inl InsufficientFunds, w') \<and>
            w_db w' = w_db w \<and> w_posts w' = w_posts w)"
proof (rule conjI)
  note env = proto_env_of_account [OF assms(3,5)]
  show "\<exists>w'. withdraw_with_idempotency P i env amount key corr d x r w = (Inl InsufficientFunds, w') \<and>
            w_db w' = w_db w \<and> w_posts w' = w_posts w"
    unfolding withdraw_reduces [OF assms(1,5,6,7,4)]
    by (rule checked_overdraft [OF assms(1,2) env]) (use assms(12-14) in simp_all)
  show "\<exists>w'. transfer_with_idempotency P i env j amount key corr d x r w = (Inl InsufficientFunds, w') \<and>
            w_db w' = w_db w \<and> w_posts w' = w_posts w"
    unfolding transfer_reduces [OF assms(1,5,6,8,9,7,10,4,11)]
    by (rule checked_overdraft [OF assms(1,2) env]) (use assms(12-14) in simp_all)
qed

lemma demo_balance: "reported_balance demo_params 7 (proto_env (u ''sandbox'')) 1 (u ''USD'') n = Some 500"
proof -
  have "parse_i64 (trim (u ''-500'')) = Some (- 500)"
    by code_simp
  then show ?thesis by (simp add: reported_balance_def demo_params_def)
qed

theorem overdraft_rejected_witness:
  "\<exists>w'. withdraw_with_idempotency demo_params 1 (u ''sandbox'') 501 (u ''k'') None None None None demo_world
      = (Inl InsufficientFunds, w') \<and> w_db w' = w_db demo_world \<and> w_posts w' = []"
proof -
  have fresh: "\<forall>row \<in> set (db_transactions (w_db demo_world)). \<not> idem_match 7 (u ''sandbox'') (u ''k'') row"
    by (simp add: demo_world_def)
  have posts: "w_posts demo_world = []" by (simp add: demo_world_def)
  show ?thesis
    using overdraft_rejected [OF demo_params_ok(1,2) demo_world_ok(1) demo_key demo_account_at(1) _ _
        demo_account_at(2) _ _ _ fresh, of 500 501 None None None None]
    by (simp add: demo_balance posts)
qed

text \<open>
  Withdraw under a new key with a sufficient balance: one row is written and one post sent, from
  the account to SYSTEM\_CASH\_CONTROL, for the requested amount; the returned transaction and the row
  are Posted when the ledger answered posted and Pending with the reason otherwise.
\<close>

theorem withdraw_new:
  assumes "undisturbed P" "ledger_up P" "db_ok (w_db w)" "trim key \<noteq> []"
    and "account_at (w_db w) i env acc" "acc_status acc = Some Active" "acc_organization_id acc = Some org"
    and "c = unwrap_or (acc_currency acc) (u ''USD'')"
    and "creatable P org i i amount c Withdraw key env d x r (db_transactions (w_db w))"
    and "reported_balance P org (proto_env env) i c (w_ext w) = Some b" "sint amount \<le> sint b"
  shows "\<exists>t w' n fresh.
    let req = make_post P org (proto_env env) (p_uuid_str P i) (u ''SYSTEM_CASH_CONTROL'') amount c fresh key
                (unwrap_or corr (p_uuid_str P fresh));
        v = ledger_verdict P req (after_balance P org (proto_env env) i c (w_ext w)) in
    withdraw_with_idempotency P i env amount key corr d x r w = (Inr (acc, t), w') \<and>
    request_effect P w (new_tx_row n fresh org i i amount c Withdraw key env d x r)
      (new_transaction n fresh org i i amount c Withdraw key env d x r) req v w' t"
  unfolding withdraw_reduces [OF assms(1,5,6,7,4)] assms(8) [symmetric]
  using checked_write_new [OF assms(1,2) proto_env_of_account [OF assms(3,5)], of "w\<lparr>w_tick := Suc (w_tick w)\<rparr>"
      org i c b amount i Withdraw key d x r "p_uuid_str P i" "u ''SYSTEM_CASH_CONTROL''" corr "\<lambda>t. (acc, t)"]
    assms(3,9-11)
  by (simp add: request_effect_def Let_def)

text \<open>
  C2. Transfer under a new key between two active accounts of one organization and currency, with a
  sufficient balance: one row is written and one post sent, from the source account to the
  destination, for the requested amount, and the status is the ledger's answer.
\<close>

theorem transfer_new:
  assumes "undisturbed P" "ledger_up P" "db_ok (w_db w)" "trim key \<noteq> []"
    and "account_at (w_db w) i env acc" "acc_status acc = Some Active" "acc_organization_id acc = Some org"
    and "account_at (w_db w) j env acc'" "acc_status acc' = Some Active" "acc_organization_id acc' = Some org"
    and "unwrap_or (acc_currency acc') (u ''USD'') = unwrap_or (acc_currency acc) (u ''USD'')"
    and "c = unwrap_or (acc_currency acc) (u ''USD'')"
    and "creatable P org i j amount c Transfer key env d x r (db_transactions (w_db w))"
    and "reported_balance P org (proto_env env) i c (w_ext w) = Some b" "sint amount \<le> sint b"
  shows "\<exists>t w' n fresh.
    let req = make_post P org (proto_env env) (p_uuid_str P i) (p_uuid_str P j) amount c fresh key
                (unwrap_or corr (p_uuid_str P fresh));
        v = ledger_verdict P req (after_balance P org (proto_env env) i c (w_ext w)) in
    transfer_with_idempotency P i env j amount key corr d x r w = (Inr (acc, acc', t), w') \<and>
    request_effect P w (new_tx_row n fresh org i j amount c Transfer key env d x r)
      (new_transaction n fresh org i j amount c Transfer key env d x r) req v w' t"
  unfolding transfer_reduces [OF assms(1,5,6,8,9,7,10,4,11)] assms(12) [symmetric]
  using checked_write_new [OF assms(1,2) proto_env_of_account [OF assms(3,5)],
      of "w\<lparr>w_tick := Suc (Suc (w_tick w))\<rparr>"
      org i c b amount j Transfer key d x r "p_uuid_str P i" "p_uuid_str P j" corr "\<lambda>t. (acc, acc', t)"]
    assms(3,13-15)
  by (simp add: request_effect_def Let_def)

lemma demo_creatable:
  "creatable demo_params 7 1 j a (u ''USD'') k (u ''k'') (u ''sandbox'') None None None
     (db_transactions (w_db demo_world))"
  by (cases k) (simp_all add: creatable_def insert_ok_def tx_row_ok_def new_tx_row_def demo_world_def)

lemma demo_verdict: "ledger_verdict demo_params req n = Inr ()"
  by (simp add: ledger_verdict_def demo_params_def)

theorem withdraw_new_witness:
  "\<exists>t w'. withdraw_with_idempotency demo_params 1 (u ''sandbox'') 500 (u ''k'') None None None None demo_world
      = (Inr (demo_acc 1 ''100'', t), w') \<and> tx_status t = Posted \<and> map pr_amount (w_posts w') = [500]"
  using withdraw_new [OF demo_params_ok(1,2) demo_world_ok(1) demo_key demo_account_at(1) _ _ _
      demo_creatable [of 1 500 Withdraw], of 500 None]
  by (auto simp: demo_balance demo_verdict Let_def request_effect_def status_of_def make_post_def demo_world_def)

theorem transfer_new_witness:
  "\<exists>t w'. transfer_with_idempotency demo_params 1 (u ''sandbox'') 2 500 (u ''k'') None None None None demo_world
      = (Inr (demo_acc 1 ''100'', demo_acc 2 ''200'', t), w') \<and> tx_status t = Posted \<and>
      map pr_destination (w_posts w') = [u ''2'']"
proof -
  have two: "p_uuid_str demo_params 2 = u ''2''" by (simp add: demo_params_def show_nat.simps u_def)
  have posts: "w_posts demo_world = []" by (simp add: demo_world_def)
  show ?thesis
    using transfer_new [OF demo_params_ok(1,2) demo_world_ok(1) demo_key demo_account_at(1) _ _
      demo_account_at(2) _ _ _ _ demo_creatable [of 2 500 Transfer], of 500 None]
    by (auto simp: demo_balance demo_verdict Let_def request_effect_def status_of_def make_post_def two posts)
qed

section \<open>Repeated keys\<close>

text \<open>
  C4. A key whose transaction is no longer pending is answered with that transaction, for deposit,
  withdraw and transfer alike and whatever the new request asks for: nothing is written and nothing
  is posted.
\<close>

theorem replay_settled:
  assumes "undisturbed P" "db_ok (w_db w)" "trim key \<noteq> []"
    and "account_at (w_db w) i env acc" "acc_status acc = Some Active" "acc_organization_id acc = Some org"
    and "account_at (w_db w) j env acc'" "acc_status acc' = Some Active" "acc_organization_id acc' = Some org"
    and "unwrap_or (acc_currency acc') (u ''USD'') = unwrap_or (acc_currency acc) (u ''USD'')"
    and "row \<in> set (db_transactions (w_db w))" "idem_match org env key row"
    and "row_to_transaction False row = Inr old" "tx_status old \<noteq> Pending"
  shows "(\<exists>n. deposit_with_idempotency P i env amount key corr d x r w = (Inr (acc, old), w\<lparr>w_tick := n\<rparr>)) \<and>
    (\<exists>n. withdraw_with_idempotency P i env amount key corr d x r w = (Inr (acc, old), w\<lparr>w_tick := n\<rparr>)) \<and>
    (\<exists>n. transfer_with_idempotency P i env j amount key corr d x r w = (Inr (acc, acc', old), w\<lparr>w_tick := n\<rparr>))"
proof -
  have stored: "write_and_settle P org f t' a c k key env d x r src dst corr (w\<lparr>w_tick := n\<rparr>) =
      (Inr old, w\<lparr>w_tick := n + 3\<rparr>)" for f t' a c k src dst n
    using write_and_settle_done [OF assms(1) _ _ assms(12-14), of "w\<lparr>w_tick := n\<rparr>"] assms(2,11)
    by (simp add: db_ok_tx)
  have idem: "find_by_idempotency P org env key (w\<lparr>w_tick := n\<rparr>) = (Inr (Some old), w\<lparr>w_tick := Suc n\<rparr>)" for n
    using find_idem_some [OF assms(1) _ _ assms(12,13), of "w\<lparr>w_tick := n\<rparr>"] assms(2,11)
    by (simp add: db_ok_tx)
  show ?thesis
    unfolding deposit_reduces [OF assms(1,4,5,6,3)] withdraw_reduces [OF assms(1,4,5,6,3)]
      transfer_reduces [OF assms(1,4,5,7,8,6,9,3,10)]
    using stored idem by (auto simp: io_simps)
qed

theorem replay_settled_witness:
  "\<exists>n. transfer_with_idempotency demo_params 1 (u ''sandbox'') 1 9999 (u ''k'') None None None None (demo_world_with ''posted'')
     = (Inr (demo_acc 1 ''100'', demo_acc 1 ''100'', demo_tx Posted), (demo_world_with ''posted'')\<lparr>w_tick := n\<rparr>)"
  using replay_settled [OF demo_params_ok(1) demo_world_ok(3) demo_key demo_account_at(3) _ _
      demo_account_at(3) _ _ _ demo_row_in demo_row_tx(2)]
  by (simp add: demo_tx_def)

text \<open>
  C6. A key whose transaction is still pending is posted again, but with the account, the amount and
  the currency of the new request: the post carries the request's amount while the row, and the
  transaction returned, keep the amount stored first.
\<close>

theorem replay_pending_posts_request:
  assumes "undisturbed P" "ledger_up P" "db_ok (w_db w)" "trim key \<noteq> []"
    and "account_at (w_db w) i env acc" "acc_status acc = Some Active" "acc_organization_id acc = Some org"
    and "row \<in> set (db_transactions (w_db w))" "idem_match org env key row"
    and "row_to_transaction False row = Inr old" "tx_status old = Pending"
  shows "\<exists>t w' at.
    let c = unwrap_or (acc_currency acc) (u ''USD'');
        req = make_post P org (proto_env env) (u ''SYSTEM_CASH_CONTROL'') (p_uuid_str P i) amount c
                (tx_id old) (tx_idempotency_key old) (unwrap_or corr (p_uuid_str P (tx_id old)));
        v = ledger_verdict P req (w_ext w) in
    deposit_with_idempotency P i env amount key corr d x r w = (Inr (acc, t), w') \<and>
    w_posts w' = w_posts w @ [req] \<and> tx_amount t = r_amount row \<and> tx_status t = status_of v \<and>
    db_transactions (w_db w') = settled (r_id row) v at (db_transactions (w_db w))"
proof -
  let ?w1 = "w\<lparr>w_tick := Suc (w_tick w)\<rparr>"
  have ok: "tx_table_ok (db_transactions (w_db ?w1))" using assms(3) by (simp add: db_ok_tx)
  have row: "row \<in> set (db_transactions (w_db ?w1))" using assms(8) by simp
  have old: "tx_amount old = r_amount row" "tx_id old = r_id row"
    using row_to_transaction_InrD [OF assms(10)] by simp_all
  obtain res w' where run: "write_and_settle P org i i amount (unwrap_or (acc_currency acc) (u ''USD'')) Deposit
      key env d x r (u ''SYSTEM_CASH_CONTROL'') (p_uuid_str P i) corr ?w1 = (res, w')" by fastforce
  note settling = write_and_settle_pending [OF assms(1,2) proto_env_of_account [OF assms(3,5)] ok row assms(9-11),
      of i i amount "unwrap_or (acc_currency acc) (u ''USD'')" Deposit d x r "u ''SYSTEM_CASH_CONTROL''"
      "p_uuid_str P i" corr, unfolded run Let_def prod.case]
  from settling obtain at where
    "res = Inr (old\<lparr>tx_status := status_of (ledger_verdict P (make_post P org (proto_env env)
        (u ''SYSTEM_CASH_CONTROL'') (p_uuid_str P i) amount (unwrap_or (acc_currency acc) (u ''USD''))
        (tx_id old) (tx_idempotency_key old) (unwrap_or corr (p_uuid_str P (tx_id old)))) (w_ext w)),
        tx_failure_reason := reason_of (ledger_verdict P (make_post P org (proto_env env)
        (u ''SYSTEM_CASH_CONTROL'') (p_uuid_str P i) amount (unwrap_or (acc_currency acc) (u ''USD''))
        (tx_id old) (tx_idempotency_key old) (unwrap_or corr (p_uuid_str P (tx_id old)))) (w_ext w)),
        tx_updated_at := at\<rparr>)"
    and rest: "db_transactions (w_db w') = settled (tx_id old) (ledger_verdict P (make_post P org (proto_env env)
        (u ''SYSTEM_CASH_CONTROL'') (p_uuid_str P i) amount (unwrap_or (acc_currency acc) (u ''USD''))
        (tx_id old) (tx_idempotency_key old) (unwrap_or corr (p_uuid_str P (tx_id old)))) (w_ext w)) at
        (db_transactions (w_db w))"
      "w_posts w' = w_posts w @ [make_post P org (proto_env env)
        (u ''SYSTEM_CASH_CONTROL'') (p_uuid_str P i) amount (unwrap_or (acc_currency acc) (u ''USD''))
        (tx_id old) (tx_idempotency_key old) (unwrap_or corr (p_uuid_str P (tx_id old)))]"
    by auto
  with run show ?thesis
    by (intro exI [of _ "projr res"] exI [of _ w'] exI [of _ at])
      (simp add: deposit_reduces [OF assms(1,5,6,7,4)] io_simps Let_def old)
qed

lemma demo_pending_facts:
  "w_posts (demo_world_with s) = []" "r_amount (demo_row s) = 25" "tx_id (demo_tx st) = 50"
  "tx_idempotency_key (demo_tx st) = u ''k''" "tx_status (demo_tx st) = st"
  by (simp_all add: demo_world_with_def demo_world_def demo_row_def new_tx_row_def demo_tx_def new_transaction_def)

theorem replay_pending_posts_request_witness:
  "\<exists>t w'. deposit_with_idempotency demo_params 1 (u ''sandbox'') 9999 (u ''k'') None None None None
       (demo_world_with ''pending'') = (Inr (demo_acc 1 ''100'', t), w') \<and>
     map pr_amount (w_posts w') = [9999] \<and> tx_amount t = 25 \<and> tx_status t = Posted"
  using replay_pending_posts_request [OF demo_params_ok(1,2) demo_world_ok(2) demo_key demo_account_at(3)
      demo_acc_simps(1,2) demo_row_in demo_row_tx(1) demo_pending_facts(5), of 9999 None None None None]
  by (auto simp: Let_def demo_verdict status_of_def make_post_def demo_pending_facts)

section \<open>Guards\<close>

text \<open>
  A money movement on an account that is not active fails with AccountNotActive before it reads
  the key, writes a row or posts; for a transfer this holds of either side.
\<close>

theorem inactive_rejected:
  assumes "undisturbed P" "trim key \<noteq> []" "account_at (w_db w) i env acc" "account_at (w_db w) j env acc'"
  shows "(acc_status acc \<noteq> Some Active \<longrightarrow>
      (\<exists>n. deposit_with_idempotency P i env amount key corr d x r w = (Inl AccountNotActive, w\<lparr>w_tick := n\<rparr>)) \<and>
      (\<exists>n. withdraw_with_idempotency P i env amount key corr d x r w = (Inl AccountNotActive, w\<lparr>w_tick := n\<rparr>))) \<and>
    (acc_status acc \<noteq> Some Active \<or> acc_status acc' \<noteq> Some Active \<longrightarrow>
      (\<exists>n. transfer_with_idempotency P i env j amount key corr d x r w = (Inl AccountNotActive, w\<lparr>w_tick := n\<rparr>)))"
proof -
  have "account_at (w_db (w\<lparr>w_tick := Suc (w_tick w)\<rparr>)) j env acc'" using assms(4) by simp
  from find_account_eval [OF assms(1) this] find_account_eval [OF assms(1,3)] assms(2)
  show ?thesis
    by (auto simp: deposit_with_idempotency_def withdraw_with_idempotency_def transfer_with_idempotency_def io_simps)
qed

definition demo_suspended :: "nat world" where
  "demo_suspended = demo_world\<lparr>w_db :=
     \<lparr>db_accounts = [(demo_account 1 ''100'')\<lparr>a_status := u ''suspended''\<rparr>], db_transactions = []\<rparr>\<rparr>"

theorem inactive_rejected_witness:
  "\<exists>n. transfer_with_idempotency demo_params 1 (u ''sandbox'') 1 5 (u ''k'') None None None None demo_suspended
      = (Inl AccountNotActive, demo_suspended\<lparr>w_tick := n\<rparr>)"
proof -
  have at: "account_at (w_db demo_suspended) 1 (u ''sandbox'') ((demo_acc 1 ''100'')\<lparr>acc_status := Some Suspended\<rparr>)"
    by (simp add: account_at_def demo_suspended_def select_account_id_stmt_def
      demo_account_def row_to_account_def parse_account_type_def parse_account_status_def demo_acc_def)
  show ?thesis
    using inactive_rejected [OF demo_params_ok(1) demo_key at at, of 5 None None None None] by simp
qed

text \<open>
  C3. However the database fails, whatever the ledger answers and whatever other processes do
  meanwhile, one call of deposit, withdraw or transfer sends the ledger at most one post.
\<close>

theorem at_most_one_post:
  "(\<exists>new. w_posts (snd (deposit_with_idempotency P i env a key corr d x r w)) = w_posts w @ new \<and> length new \<le> 1) \<and>
   (\<exists>new. w_posts (snd (withdraw_with_idempotency P i env a key corr d x r w)) = w_posts w @ new \<and> length new \<le> 1) \<and>
   (\<exists>new. w_posts (snd (transfer_with_idempotency P i env j a key corr d x r w)) = w_posts w @ new \<and> length new \<le> 1)"
  using money_posts_once [THEN withinD, of w] unfolding posts_grow_def by metis

end
