(* ===== verification/Tx_Machine.thy ===== *)
theory Tx_Machine
  imports Tx_Table
begin

text \<open>
  The posting protocol as a state machine: HTTP requests and retry workers claim rows of one table,
  post them to the ledger and record the outcome, interleaved in any order, while sweeps return rows
  whose lease has expired and processes crash. A state is the table together with the posts in
  flight: the id of a claimed row and the time of its claim. Every step is a statement of
  \<open>Tx_Repo\<close>.

  A run is timely when no sweep happens while a post in flight is older than the lease. On timely
  runs a row has at most one post in flight; without that assumption it can have two, and a posted
  row can become pending again.
\<close>

record tx_machine =
  m_rows :: "tx_row list"
  m_inflight :: "(uuid \<times> time) list"

datatype label = Internal_Step | Sweep time

inductive machine_step :: "int \<Rightarrow> label \<Rightarrow> tx_machine \<Rightarrow> tx_machine \<Rightarrow> bool" for lease where
  m_create: "r_environment row = Some env \<Longrightarrow> r_status row = u ''pending'' \<Longrightarrow> r_retry_count row = 0 \<Longrightarrow>
    machine_step lease Internal_Step m (m\<lparr>m_rows := snd (create_or_get_stmt err row (m_rows m))\<rparr>)"
| m_http_claim: "try_claim_stmt now i (m_rows m) = (claimed, rows') \<Longrightarrow>
    machine_step lease Internal_Step m
      (m\<lparr>m_rows := rows', m_inflight := map (\<lambda>r. (r_id r, now)) claimed @ m_inflight m\<rparr>)"
| m_worker_claim: "claim_batch_stmt err now locked older limit env (m_rows m) = (Inr claimed, rows') \<Longrightarrow>
    machine_step lease Internal_Step m
      (m\<lparr>m_rows := rows', m_inflight := map (\<lambda>r. (r_id r, now)) claimed @ m_inflight m\<rparr>)"
| m_record: "(i, s) \<in> set (m_inflight m) \<Longrightarrow> st = Posted \<or> st = Pending \<Longrightarrow>
    machine_step lease Internal_Step m
      (m\<lparr>m_rows := snd (update_status_stmt now i st reason (m_rows m)),
        m_inflight := remove1 (i, s) (m_inflight m)\<rparr>)"
| m_retry: "(i, s) \<in> set (m_inflight m) \<Longrightarrow>
    machine_step lease Internal_Step m
      (m\<lparr>m_rows := snd (schedule_retry_stmt now i reason' at (m_rows m)),
        m_inflight := remove1 (i, s) (m_inflight m)\<rparr>)"
| m_terminal: "(i, s) \<in> set (m_inflight m) \<Longrightarrow>
    machine_step lease Internal_Step m
      (m\<lparr>m_rows := snd (mark_terminal_stmt now i reason' (m_rows m)),
        m_inflight := remove1 (i, s) (m_inflight m)\<rparr>)"
| m_crash: "(i, s) \<in> set (m_inflight m) \<Longrightarrow>
    machine_step lease Internal_Step m (m\<lparr>m_inflight := remove1 (i, s) (m_inflight m)\<rparr>)"
| m_reclaim: "machine_step lease (Sweep now) m (m\<lparr>m_rows := snd (reclaim_stmt now lease env (m_rows m))\<rparr>)"
| m_requeue: "machine_step lease (Sweep now) m (m\<lparr>m_rows := snd (requeue_stale_stmt now lease (m_rows m))\<rparr>)"
| m_fail_aged: "machine_step lease Internal_Step m (m\<lparr>m_rows := snd (fail_aged_stmt now age (m_rows m))\<rparr>)"

definition timely :: "int \<Rightarrow> label \<Rightarrow> tx_machine \<Rightarrow> bool" where
  "timely lease l m \<longleftrightarrow>
     (case l of
        Internal_Step \<Rightarrow> True
      | Sweep now \<Rightarrow> \<forall>(i, s) \<in> set (m_inflight m). now - lease * 1000000 \<le> s)"

definition any_step :: "int \<Rightarrow> tx_machine \<Rightarrow> tx_machine \<Rightarrow> bool" where
  "any_step lease m m' \<longleftrightarrow> (\<exists>l. machine_step lease l m m')"

definition timely_step :: "int \<Rightarrow> tx_machine \<Rightarrow> tx_machine \<Rightarrow> bool" where
  "timely_step lease m m' \<longleftrightarrow> (\<exists>l. machine_step lease l m m' \<and> timely lease l m)"

section \<open>The invariant\<close>

definition held :: "tx_row list \<Rightarrow> uuid \<times> time \<Rightarrow> bool" where
  "held rows p \<longleftrightarrow> (\<exists>r \<in> set rows. r_id r = fst p \<and> r_status r = u ''posting'' \<and> r_updated_at r = snd p)"

definition machine_ok :: "tx_machine \<Rightarrow> bool" where
  "machine_ok m \<longleftrightarrow> tx_table_ok (m_rows m) \<and> distinct (map fst (m_inflight m)) \<and>
     (\<forall>p \<in> set (m_inflight m). held (m_rows m) p)"

lemma table_unique:
  "tx_table_ok rows \<Longrightarrow> r \<in> set rows \<Longrightarrow> r' \<in> set rows \<Longrightarrow> r_id r = r_id r' \<Longrightarrow> r = r'"
  by (auto simp: tx_table_ok_def distinct_map dest: inj_onD)

text \<open>An update that passes over the rows a list of posts holds leaves them held.\<close>

lemma held_update:
  assumes "held rows p" "\<And>r. r \<in> set rows \<Longrightarrow> r_id r = fst p \<Longrightarrow> r_status r = u ''posting'' \<Longrightarrow>
      r_updated_at r = snd p \<Longrightarrow> \<not> q r"
  shows "held (map (\<lambda>r. if q r then f r else r) rows) p"
proof -
  obtain r where "r \<in> set rows" "r_id r = fst p" "r_status r = u ''posting''" "r_updated_at r = snd p"
    using assms(1) unfolding held_def by blast
  with assms(2) have "\<not> q r" by blast
  with \<open>r \<in> set rows\<close> have "r \<in> set (map (\<lambda>r. if q r then f r else r) rows)" by force
  with \<open>r_id r = fst p\<close> \<open>r_status r = u ''posting''\<close> \<open>r_updated_at r = snd p\<close>
  show ?thesis unfolding held_def by blast
qed

lemma held_pending_false: "tx_table_ok rows \<Longrightarrow> held rows p \<Longrightarrow> r \<in> set rows \<Longrightarrow> r_id r = fst p \<Longrightarrow>
    r_status r = u ''posting''"
  unfolding held_def using table_unique by metis

text \<open>Claiming: every row with an id in a set of pending rows becomes posting, and its post starts.\<close>

lemma claim_keeps_ok:
  assumes ok: "machine_ok m"
    and pending: "\<And>r. r \<in> set (m_rows m) \<Longrightarrow> q r \<Longrightarrow> r_status r = u ''pending''"
    and f: "\<And>r. r_id (f r) = r_id r" "\<And>r. r_status (f r) = u ''posting''" "\<And>r. r_updated_at (f r) = now"
    and rows': "tx_table_ok (map (\<lambda>r. if q r then f r else r) (m_rows m))"
  shows "machine_ok (m\<lparr>m_rows := map (\<lambda>r. if q r then f r else r) (m_rows m),
     m_inflight := map (\<lambda>r. (r_id r, now)) (map f (filter q (m_rows m))) @ m_inflight m\<rparr>)"
proof -
  let ?rows = "m_rows m" and ?fl = "m_inflight m"
  have table: "tx_table_ok ?rows" and dist: "distinct (map fst ?fl)" and held: "\<forall>p \<in> set ?fl. held ?rows p"
    using ok by (simp_all add: machine_ok_def)
  have ids: "distinct (map r_id (filter q ?rows))"
    using table by (simp add: tx_table_ok_def distinct_map_filter)
  have disj: "r_id r \<noteq> fst p" if "r \<in> set ?rows" "q r" "p \<in> set ?fl" for r p
  proof
    assume "r_id r = fst p"
    with held_pending_false [OF table] held that have "r_status r = u ''posting''" by blast
    with pending [OF that(1,2)] show False by simp
  qed
  have new: "held (map (\<lambda>r. if q r then f r else r) ?rows) (r_id r, now)" if "r \<in> set ?rows" "q r" for r
  proof -
    have "f r \<in> set (map (\<lambda>r. if q r then f r else r) ?rows)" using that by force
    then show ?thesis unfolding held_def using f by force
  qed
  have old: "held (map (\<lambda>r. if q r then f r else r) ?rows) p" if "p \<in> set ?fl" for p
    using held that disj [OF _ _ that] by (intro held_update) blast+
  let ?claimed = "map (\<lambda>r. (r_id r, now)) (map f (filter q ?rows))"
  have fsts: "map fst ?claimed = map r_id (filter q ?rows)" by (simp add: f(1) comp_def)
  have "distinct (map fst (?claimed @ ?fl))"
    unfolding map_append distinct_append fsts using ids dist disj by auto
  moreover have "held (map (\<lambda>r. if q r then f r else r) ?rows) p" if "p \<in> set ?claimed" for p
    using that new by (auto simp: f(1))
  ultimately show ?thesis
    using rows' old by (auto simp: machine_ok_def simp del: map_map map_append)
qed

text \<open>Recording the outcome of one post: its row may change at will, the others are passed over.\<close>

lemma record_keeps_ok:
  assumes ok: "machine_ok m" and p: "(i, s) \<in> set (m_inflight m)"
    and rows': "tx_table_ok (map (\<lambda>r. if r_id r = i then f r else r) (m_rows m))"
  shows "machine_ok (m\<lparr>m_rows := map (\<lambda>r. if r_id r = i then f r else r) (m_rows m),
     m_inflight := remove1 (i, s) (m_inflight m)\<rparr>)"
proof -
  have dist: "distinct (map fst (m_inflight m))" and held: "\<forall>q \<in> set (m_inflight m). held (m_rows m) q"
    using ok by (simp_all add: machine_ok_def)
  have d1: "distinct (map fst (remove1 (i, s) (m_inflight m)))"
    using dist by (simp add: distinct_map inj_on_def)
  have other: "fst q \<noteq> i" if "q \<in> set (remove1 (i, s) (m_inflight m))" for q
  proof -
    have "distinct (m_inflight m)" using dist by (simp add: distinct_map)
    then have "q \<in> set (m_inflight m)" "q \<noteq> (i, s)" using that by simp_all
    with dist p show ?thesis by (metis distinct_map fst_conv inj_onD)
  qed
  have "held (map (\<lambda>r. if r_id r = i then f r else r) (m_rows m)) q"
    if "q \<in> set (remove1 (i, s) (m_inflight m))" for q
  proof -
    have "q \<in> set (m_inflight m)" using that by (meson notin_set_remove1)
    then show ?thesis using held other [OF that] by (intro held_update) auto
  qed
  with d1 rows' show ?thesis by (simp add: machine_ok_def)
qed

lemma sweep_keeps_ok:
  assumes ok: "machine_ok m"
    and old: "\<And>r p. p \<in> set (m_inflight m) \<Longrightarrow> r_updated_at r = snd p \<Longrightarrow> r_status r = u ''posting'' \<Longrightarrow> \<not> q r"
    and rows': "tx_table_ok (map (\<lambda>r. if q r then f r else r) (m_rows m))"
  shows "machine_ok (m\<lparr>m_rows := map (\<lambda>r. if q r then f r else r) (m_rows m)\<rparr>)"
proof -
  have "held (map (\<lambda>r. if q r then f r else r) (m_rows m)) p" if "p \<in> set (m_inflight m)" for p
    using ok that old [OF that] by (intro held_update) (auto simp: machine_ok_def)
  then show ?thesis using ok rows' by (simp add: machine_ok_def)
qed

lemma held_append: "held rows p \<Longrightarrow> held (rows @ new) p"
  by (auto simp: held_def)

lemma worker_claim_ok:
  assumes run: "claim_batch_stmt err now locked older limit env (m_rows m) = (Inr claimed, rows')"
    and ok: "machine_ok m"
  shows "machine_ok (m\<lparr>m_rows := rows', m_inflight := map (\<lambda>r. (r_id r, now)) claimed @ m_inflight m\<rparr>)"
proof (rule claim_batch_cases [of err now locked older limit env "m_rows m"])
  let ?f = "\<lambda>r. r\<lparr>r_status := u ''posting'', r_failure_reason := None, r_retry_count := r_retry_count r + 1,
                  r_last_attempted_at := Some now, r_updated_at := now\<rparr>"
  fix ids
  assume upd: "claim_batch_stmt err now locked older limit env (m_rows m) =
        (let upd = update_returning (\<lambda>r. r_id r \<in> set ids) ?f (m_rows m) in (Inr (fst upd), snd upd))"
    and ids: "\<forall>i \<in> set ids. \<exists>r \<in> set (m_rows m). r_id r = i \<and> claimable now older env r \<and>
         \<not> locked i \<and> r_retry_count r \<noteq> 0x7FFFFFFF"
  have table: "tx_table_ok (m_rows m)" using ok by (simp add: machine_ok_def)
  have ok': "tx_table_ok rows'"
    using tx_step_ok [OF tx_step.claim_batch table, of err now locked older limit env] run by simp
  have pending: "r_status r = u ''pending''" if row: "r \<in> set (m_rows m)" and i: "r_id r \<in> set ids" for r
  proof -
    obtain r' where r': "r' \<in> set (m_rows m)" "r_id r' = r_id r" "claimable now older env r'"
      using ids i by blast
    then have "r' = r" using table_unique [OF table] row by blast
    with r' show ?thesis by (simp add: claimable_def)
  qed
  show ?thesis
    using run ok' claim_keeps_ok [OF ok, of "\<lambda>r. r_id r \<in> set ids" ?f now] pending
    unfolding upd by (auto simp: update_returning_def)
qed (use run in simp)

lemma machine_tables:
  assumes "machine_ok m"
  shows "r_environment row = Some env \<Longrightarrow> r_status row = u ''pending'' \<Longrightarrow> r_retry_count row = 0 \<Longrightarrow>
      tx_table_ok (snd (create_or_get_stmt err row (m_rows m)))"
    and "tx_table_ok (snd (try_claim_stmt now i (m_rows m)))"
    and "tx_table_ok (snd (update_status_stmt now i st reason (m_rows m)))"
    and "tx_table_ok (snd (schedule_retry_stmt now i reason' at (m_rows m)))"
    and "tx_table_ok (snd (mark_terminal_stmt now i reason' (m_rows m)))"
    and "tx_table_ok (snd (reclaim_stmt now lease env' (m_rows m)))"
    and "tx_table_ok (snd (requeue_stale_stmt now lease (m_rows m)))"
    and "tx_table_ok (snd (fail_aged_stmt now age (m_rows m)))"
proof -
  have ok: "tx_table_ok (m_rows m)" using assms by (simp add: machine_ok_def)
  show "r_environment row = Some env \<Longrightarrow> r_status row = u ''pending'' \<Longrightarrow> r_retry_count row = 0 \<Longrightarrow>
      tx_table_ok (snd (create_or_get_stmt err row (m_rows m)))"
    by (rule tx_step_ok [OF tx_step.create ok])
qed (rule tx_step_ok, rule tx_step.intros, use assms in \<open>simp add: machine_ok_def\<close>)+

lemma machine_step_ok:
  assumes "machine_step lease l m m'" "timely lease l m" "machine_ok m"
  shows "machine_ok m'"
  using assms
proof (induction rule: machine_step.induct)
  case (m_create row env m err)
  then show ?case
    using machine_tables(1) [OF m_create.prems(2) m_create.hyps, of err]
    by (cases rule: create_or_get_cases [of "m_rows m" row err]) (auto simp: machine_ok_def held_append)
next
  case (m_http_claim now i m claimed rows')
  then show ?case
    using machine_tables(2) [OF m_http_claim.prems(2), of now i] claim_keeps_ok [OF m_http_claim.prems(2),
        of "\<lambda>r. r_id r = i \<and> r_status r = u ''pending''"
          "\<lambda>r. r\<lparr>r_status := u ''posting'', r_failure_reason := None, r_updated_at := now\<rparr>" now]
    by (simp add: try_claim_stmt_def update_returning_def)
next
  case (m_worker_claim err now locked older limit env m claimed rows')
  then show ?case by (intro worker_claim_ok)
next
  case (m_record i s m st now reason)
  then show ?case
    using machine_tables(3) [OF m_record.prems(2)] record_keeps_ok [OF m_record.prems(2) m_record.hyps(1)]
    by (simp add: update_status_stmt_def)
next
  case (m_retry i s m now reason' at)
  then show ?case
    using machine_tables(4) [OF m_retry.prems(2)] record_keeps_ok [OF m_retry.prems(2) m_retry.hyps(1)]
    by (simp add: schedule_retry_stmt_def)
next
  case (m_terminal i s m now reason')
  then show ?case
    using machine_tables(5) [OF m_terminal.prems(2)] record_keeps_ok [OF m_terminal.prems(2) m_terminal.hyps(1)]
    by (simp add: mark_terminal_stmt_def)
next
  case (m_crash i s m)
  then show ?case
    using record_keeps_ok [OF m_crash.prems(2) m_crash.hyps, of "\<lambda>r. r"] by (simp add: machine_ok_def)
next
  case (m_reclaim now m env)
  then show ?case
    using machine_tables(6) [OF m_reclaim.prems(2)] unfolding reclaim_stmt_def update_returning_simps
    by (intro sweep_keeps_ok) (auto simp: timely_def)
next
  case (m_requeue now m)
  then show ?case
    using machine_tables(7) [OF m_requeue.prems(2)] unfolding requeue_stale_stmt_def update_returning_simps
    by (intro sweep_keeps_ok) (auto simp: timely_def)
next
  case (m_fail_aged m now age)
  then show ?case
    using machine_tables(8) [OF m_fail_aged.prems(2)] unfolding fail_aged_stmt_def update_returning_simps
    by (intro sweep_keeps_ok) auto
qed

lemma timely_runs_ok: "(timely_step lease)\<^sup>*\<^sup>* m m' \<Longrightarrow> machine_ok m \<Longrightarrow> machine_ok m'"
  by (induction rule: rtranclp_induct) (auto simp: timely_step_def intro: machine_step_ok)

section \<open>Properties\<close>

text \<open>
  C13. Single writer: on every timely run that starts with nothing in flight, however HTTP requests,
  retry workers, crashes and sweeps interleave, no transaction has two ledger posts in flight, and
  every transaction with a post in flight is in status posting.
\<close>

theorem single_writer:
  assumes "tx_table_ok (m_rows m)" "m_inflight m = []" "(timely_step lease)\<^sup>*\<^sup>* m m'"
  shows "distinct (map fst (m_inflight m')) \<and>
    (\<forall>(i, s) \<in> set (m_inflight m'). \<exists>r \<in> set (m_rows m'). r_id r = i \<and> r_status r = u ''posting'')"
proof -
  have "machine_ok m" using assms(1,2) by (simp add: machine_ok_def)
  then have "machine_ok m'" using assms(3) timely_runs_ok by blast
  then show ?thesis unfolding machine_ok_def held_def by fastforce
qed

text \<open>A run with one pending row: claimed by a request at time 0.\<close>

definition lease_row :: "string \<Rightarrow> time \<Rightarrow> str option \<Rightarrow> tx_row" where
  "lease_row status at reason =
     \<lparr>r_id = 1, r_organization_id = 7, r_from_account_id = 1, r_to_account_id = 1, r_amount = 25,
      r_currency = u ''USD'', r_transaction_kind = u ''deposit'', r_status = u status,
      r_failure_reason = reason, r_idempotency_key = u ''k'', r_environment = Some (u ''sandbox''),
      r_description = None, r_external_recipient_id = None, r_reference_id = None, r_retry_count = 0,
      r_last_attempted_at = None, r_next_retry_at = None, r_terminal_failure_at = None,
      r_created_at = 0, r_updated_at = at\<rparr>"

definition lease_start :: tx_machine where
  "lease_start = \<lparr>m_rows = [lease_row ''pending'' 0 None], m_inflight = []\<rparr>"

lemma lease_start_ok: "tx_table_ok (m_rows lease_start)" "m_inflight lease_start = []"
  by (simp_all add: lease_start_def tx_table_ok_def tx_row_ok_def lease_row_def)

lemma lease_claim:
  "machine_step lease Internal_Step \<lparr>m_rows = [lease_row ''pending'' at reason], m_inflight = fl\<rparr>
     \<lparr>m_rows = [lease_row ''posting'' now None], m_inflight = (1, now) # fl\<rparr>"
proof -
  have "try_claim_stmt now 1 (m_rows \<lparr>m_rows = [lease_row ''pending'' at reason], m_inflight = fl\<rparr>) =
      ([lease_row ''posting'' now None], [lease_row ''posting'' now None])"
    by (simp add: try_claim_stmt_def update_returning_def lease_row_def)
  from m_http_claim [OF this] show ?thesis by (simp add: lease_row_def)
qed

theorem single_writer_witness:
  "(timely_step 600)\<^sup>*\<^sup>* lease_start \<lparr>m_rows = [lease_row ''posting'' 0 None], m_inflight = [(1, 0)]\<rparr> \<and>
    distinct (map fst [(1 :: uuid, 0 :: time)]) \<and>
    (\<exists>r \<in> set [lease_row ''posting'' 0 None]. r_id r = 1 \<and> r_status r = u ''posting'')"
proof -
  have "timely_step 600 lease_start \<lparr>m_rows = [lease_row ''posting'' 0 None], m_inflight = [(1, 0)]\<rparr>"
    unfolding timely_step_def lease_start_def
    by (rule exI [where x = Internal_Step]) (simp add: lease_claim timely_def)
  then have "(timely_step 600)\<^sup>*\<^sup>* lease_start \<lparr>m_rows = [lease_row ''posting'' 0 None], m_inflight = [(1, 0)]\<rparr>"
    by blast
  from single_writer [OF lease_start_ok this] this show ?thesis by simp
qed

section \<open>Beyond the lease\<close>

text \<open>The posts in flight for one row, and the status of a row.\<close>

definition posts_of :: "uuid \<Rightarrow> tx_machine \<Rightarrow> (uuid \<times> time) list" where
  "posts_of i m = filter (\<lambda>p. fst p = i) (m_inflight m)"

definition row_status :: "uuid \<Rightarrow> str \<Rightarrow> tx_row list \<Rightarrow> bool" where
  "row_status i status rows \<longleftrightarrow> i \<in> r_id ` set rows \<and> (\<forall>r \<in> set rows. r_id r = i \<longrightarrow> r_status r = status)"

lemma row_status_update:
  assumes "row_status i status rows" "\<And>r. r_id (f r) = r_id r" "\<And>r. r_status (f r) = status'"
    and "\<And>r. r \<in> set rows \<Longrightarrow> r_id r = i \<Longrightarrow> q r"
  shows "row_status i status' (map (\<lambda>r. if q r then f r else r) rows)"
proof -
  have "map r_id (map (\<lambda>r. if q r then f r else r) rows) = map r_id rows" by (rule map_update_key) (rule assms(2))
  then have "r_id ` set (map (\<lambda>r. if q r then f r else r) rows) = r_id ` set rows" by (metis list.set_map)
  with assms show ?thesis unfolding row_status_def by (simp only: list.set_map) (auto split: if_splits)
qed

lemma ok_posts_of: "machine_ok m \<Longrightarrow> (i, s) \<in> set (m_inflight m) \<Longrightarrow> posts_of i m = [(i, s)]"
  unfolding posts_of_def machine_ok_def by (intro filter_unique [where k = fst]) auto

inductive_cases sweep_cases: "machine_step lease (Sweep now) m m'"

text \<open>A sweep passes over a post within its lease.\<close>

lemma sweep_keeps_held:
  assumes "machine_step lease (Sweep now) m m'" "held (m_rows m) (i, s)" "now - lease * 1000000 \<le> s"
  shows "held (m_rows m') (i, s) \<and> m_inflight m' = m_inflight m"
  using assms(1)
  by (cases rule: sweep_cases)
    (use assms(2,3) in \<open>auto simp: reclaim_stmt_def requeue_stale_stmt_def intro!: held_update\<close>)

lemma sweep_keeps_table:
  assumes "machine_step lease (Sweep now) m m'" "machine_ok m"
  shows "tx_table_ok (m_rows m')"
  using assms(1)
  by (cases rule: sweep_cases) (use machine_tables(6,7) [OF assms(2)] in auto)

lemma length_filter_remove1: "length (filter p (remove1 x xs)) \<le> length (filter p xs)"
  by (induction xs) auto

text \<open>A row that is held cannot be claimed.\<close>

lemma held_not_claimed:
  assumes "machine_step lease Internal_Step m m'" "tx_table_ok (m_rows m)" "held (m_rows m) (i, s)"
  shows "length (posts_of i m') \<le> length (posts_of i m)"
proof -
  have posting: "r_status r = u ''posting''" if "r \<in> set (m_rows m)" "r_id r = i" for r
    using held_pending_false [OF assms(2,3) that(1)] that(2) by simp
  have claimed: "length (posts_of i (m\<lparr>m_rows := rows', m_inflight := map (\<lambda>r. (r_id r, now)) claimed @ m_inflight m\<rparr>))
      = length (posts_of i m)" if "i \<notin> r_id ` set claimed" for rows' now claimed
    using that by (auto simp: posts_of_def filter_empty_conv)
  show ?thesis
    using assms(1)
  proof (cases rule: machine_step.cases)
    case (m_http_claim now j claimed rows')
    then have "i \<notin> r_id ` set claimed" using posting by (force simp: try_claim_stmt_def update_returning_def)
    from claimed [OF this, of now rows'] m_http_claim show ?thesis by simp
  next
    case (m_worker_claim err now locked older limit env claimed rows')
    have "i \<notin> r_id ` set claimed"
    proof (rule claim_batch_cases [of err now locked older limit env "m_rows m"])
      fix ids
      let ?f = "\<lambda>r. r\<lparr>r_status := u ''posting'', r_failure_reason := None, r_retry_count := r_retry_count r + 1,
                  r_last_attempted_at := Some now, r_updated_at := now\<rparr>"
      assume "claim_batch_stmt err now locked older limit env (m_rows m) =
          (let upd = update_returning (\<lambda>r. r_id r \<in> set ids) ?f (m_rows m) in (Inr (fst upd), snd upd))"
        and ids: "\<forall>i \<in> set ids. \<exists>r \<in> set (m_rows m). r_id r = i \<and> claimable now older env r \<and>
           \<not> locked i \<and> r_retry_count r \<noteq> 0x7FFFFFFF"
      then have "r_id ` set claimed \<subseteq> set ids" using m_worker_claim by (auto simp: update_returning_def)
      moreover have "i \<notin> set ids" using ids posting by (force simp: claimable_def)
      ultimately show ?thesis by blast
    qed (use m_worker_claim in simp)
    from claimed [OF this, of now rows'] m_worker_claim show ?thesis by simp
  qed (simp_all add: posts_of_def length_filter_remove1)
qed

text \<open>A post beyond its lease is taken for lost, and its row claimed again.\<close>

lemma expired_reclaimed:
  assumes ok: "machine_ok m" and post: "(i, s) \<in> set (m_inflight m)" and late: "s < now - lease * 1000000"
  shows "\<exists>m2 m3. machine_step lease (Sweep now) m m2 \<and> machine_step lease Internal_Step m2 m3 \<and>
     m_inflight m3 = (i, now') # m_inflight m \<and> row_status i (u ''posting'') (m_rows m3)"
proof -
  obtain r where r: "r \<in> set (m_rows m)" "r_id r = i" "r_status r = u ''posting''" "r_updated_at r = s"
    using ok post by (auto simp: machine_ok_def held_def)
  let ?m2 = "m\<lparr>m_rows := snd (reclaim_stmt now lease None (m_rows m))\<rparr>"
  have sweep: "machine_step lease (Sweep now) m ?m2" by (rule m_reclaim)
  have table: "tx_table_ok (m_rows ?m2)" by (rule sweep_keeps_table [OF sweep ok])
  let ?step = "\<lambda>x. if r_status x = u ''posting'' \<and> r_updated_at x < now - lease * 1000000 then
      x\<lparr>r_status := u ''pending'', r_failure_reason := Some (u ''posting lease expired; reclaimed for retry''),
        r_updated_at := now\<rparr> else x"
  have rows2: "m_rows ?m2 = map ?step (m_rows m)" by (simp add: reclaim_stmt_def)
  have "?step r \<in> ?step ` set (m_rows m)" using r(1) by (rule imageI)
  then have "?step r \<in> set (m_rows ?m2)" unfolding rows2 set_map .
  moreover have "r_id (?step r) = i" "r_status (?step r) = u ''pending''" using r(2,3,4) late by simp_all
  ultimately obtain r2 where r2: "r2 \<in> set (m_rows ?m2)" "r_id r2 = i" "r_status r2 = u ''pending''" by blast
  then have claim: "filter (\<lambda>x. r_id x = i \<and> r_status x = u ''pending'') (m_rows ?m2) = [r2]"
    using table r2 by (intro filter_unique [where k = r_id]) (auto simp: tx_table_ok_def)
  let ?f = "\<lambda>r. r\<lparr>r_status := u ''posting'', r_failure_reason := None, r_updated_at := now'\<rparr>"
  let ?rows3 = "map (\<lambda>x. if r_id x = i \<and> r_status x = u ''pending'' then ?f x else x) (m_rows ?m2)"
  let ?m3 = "?m2\<lparr>m_rows := ?rows3, m_inflight := map (\<lambda>r. (r_id r, now')) [?f r2] @ m_inflight ?m2\<rparr>"
  have "try_claim_stmt now' i (m_rows ?m2) = ([?f r2], ?rows3)"
    using claim by (simp add: try_claim_stmt_def update_returning_def)
  then have claimed: "machine_step lease Internal_Step ?m2 ?m3" by (rule m_http_claim)
  have pending: "r_status x = u ''pending''" if "x \<in> set (m_rows ?m2)" "r_id x = i" for x
    using table_unique [OF table that(1) r2(1)] that(2) r2(2,3) by simp
  have "row_status i (u ''pending'') (m_rows ?m2)"
    unfolding row_status_def using r2(1,2) pending by blast
  then have "row_status i (u ''posting'') ?rows3" by (rule row_status_update) (use pending in auto)
  then have "row_status i (u ''posting'') (m_rows ?m3)" by simp
  moreover have "m_inflight ?m3 = (i, now') # m_inflight m" using r2(2) by simp
  ultimately show ?thesis using sweep claimed by blast
qed

text \<open>Recording an outcome does not look at the status the row has.\<close>

lemma any_outcome:
  assumes "(i, s) \<in> set (m_inflight m)" "row_status i status (m_rows m)" "st = Posted \<or> st = Pending"
  shows "\<exists>m'. machine_step lease Internal_Step m m' \<and> row_status i (status_str st) (m_rows m') \<and>
     m_inflight m' = remove1 (i, s) (m_inflight m)"
proof -
  let ?m = "m\<lparr>m_rows := snd (update_status_stmt 0 i st None (m_rows m)), m_inflight := remove1 (i, s) (m_inflight m)\<rparr>"
  have "machine_step lease Internal_Step m ?m" by (rule m_record [OF assms(1,3)])
  moreover have "row_status i (status_str st) (snd (update_status_stmt 0 i st None (m_rows m)))"
    unfolding update_status_stmt_def update_returning_simps by (rule row_status_update [OF assms(2)]) simp_all
  ultimately show ?thesis by (intro exI [of _ ?m]) simp
qed

lemma within_lease_once:
  assumes ok: "machine_ok m1" and post: "(i, s) \<in> set (m_inflight m1)" and within: "now - lease * 1000000 \<le> s"
    and steps: "machine_step lease (Sweep now) m1 m2" "machine_step lease Internal_Step m2 m3"
  shows "length (posts_of i m3) \<le> 1"
proof -
  have "held (m_rows m1) (i, s)" using ok post by (simp add: machine_ok_def)
  from sweep_keeps_held [OF steps(1) this within]
  have "held (m_rows m2) (i, s)" "posts_of i m2 = posts_of i m1" by (simp_all add: posts_of_def)
  with held_not_claimed [OF steps(2) sweep_keeps_table [OF steps(1) ok]] ok_posts_of [OF ok post]
  show ?thesis by fastforce
qed

text \<open>Two posts of one row record what they like, one after the other.\<close>

lemma both_record:
  assumes one: "filter (\<lambda>p. fst p = i) fl = [(i, s)]"
    and two: "(i, now) \<in> set (m_inflight m3)" "remove1 (i, now) (m_inflight m3) = fl"
    and "row_status i status (m_rows m3)" "first \<in> {Posted, Pending}" "second \<in> {Posted, Pending}"
  shows "\<exists>m4 m5. any_step lease m3 m4 \<and> row_status i (status_str first) (m_rows m4) \<and> length (posts_of i m4) = 1 \<and>
      any_step lease m4 m5 \<and> row_status i (status_str second) (m_rows m5) \<and> posts_of i m5 = []"
proof -
  obtain m4 where m4: "machine_step lease Internal_Step m3 m4" "row_status i (status_str first) (m_rows m4)"
    "m_inflight m4 = fl"
    using any_outcome [OF two(1) assms(4), of first lease] assms(5) two(2) by auto
  have "(i, s) \<in> set (m_inflight m4)" using one unfolding m4(3) by (metis filter_is_subset list.set_intros(1) subsetD)
  then obtain m5 where m5: "machine_step lease Internal_Step m4 m5" "row_status i (status_str second) (m_rows m5)"
    "m_inflight m5 = remove1 (i, s) fl"
    using any_outcome [OF _ m4(2), of s second lease] m4(3) assms(6) by auto
  have "posts_of i m5 = []" using one unfolding posts_of_def m5(3) filter_remove1 by simp
  with m4 m5 one show ?thesis unfolding any_step_def posts_of_def by (metis length_Cons list.size(3) One_nat_def)
qed

text \<open>
  C21. The lease is the only protection. On any timely run from an idle table, take a post in flight for
  row \<open>i\<close>, claimed at time \<open>s\<close>. A sweep at \<open>now\<close> and one more step can put a second post of
  the same row in flight exactly when the lease has expired at \<open>now\<close>; within the lease no claim, by
  request or by worker, gets the row. And once it has expired, both posts may record their outcome, in
  either order and whatever the first one was: in particular a row already marked posted becomes pending
  again, to be posted once more.
\<close>

theorem expired_lease_duplicates:
  assumes "tx_table_ok (m_rows m)" "m_inflight m = []" "(timely_step lease)\<^sup>*\<^sup>* m m1" "(i, s) \<in> set (m_inflight m1)"
  shows "(\<exists>m2 m3. machine_step lease (Sweep now) m1 m2 \<and> machine_step lease Internal_Step m2 m3 \<and>
       length (posts_of i m3) = 2) = (s < now - lease * 1000000) \<and>
    (s < now - lease * 1000000 \<longrightarrow>
      (\<forall>first \<in> {Posted, Pending}. \<forall>second \<in> {Posted, Pending}. \<exists>m3 m4 m5.
         (any_step lease)\<^sup>*\<^sup>* m1 m3 \<and> length (posts_of i m3) = 2 \<and>
         any_step lease m3 m4 \<and> row_status i (status_str first) (m_rows m4) \<and> length (posts_of i m4) = 1 \<and>
         any_step lease m4 m5 \<and> row_status i (status_str second) (m_rows m5) \<and> posts_of i m5 = []))"
proof -
  have "machine_ok m" using assms(1,2) by (simp add: machine_ok_def)
  then have ok: "machine_ok m1" using assms(3) timely_runs_ok by blast
  have one: "posts_of i m1 = [(i, s)]" using ok assms(4) by (rule ok_posts_of)
  have twice: "\<exists>m2 m3. machine_step lease (Sweep now) m1 m2 \<and> machine_step lease Internal_Step m2 m3 \<and>
      posts_of i m3 = [(i, now), (i, s)] \<and> (i, now) \<in> set (m_inflight m3) \<and> (i, s) \<in> set (m_inflight m3) \<and>
      remove1 (i, now) (m_inflight m3) = m_inflight m1 \<and> row_status i (u ''posting'') (m_rows m3)"
    if "s < now - lease * 1000000"
    using expired_reclaimed [OF ok assms(4) that, of now] one assms(4) by (fastforce simp: posts_of_def)
  show ?thesis
  proof (intro conjI impI iffI ballI)
    assume "\<exists>m2 m3. machine_step lease (Sweep now) m1 m2 \<and> machine_step lease Internal_Step m2 m3 \<and> length (posts_of i m3) = 2"
    then show "s < now - lease * 1000000"
      using within_lease_once [OF ok assms(4), of now lease] by (metis not_le one_le_numeral numeral_le_one_iff semiring_norm(69))
  next
    assume "s < now - lease * 1000000"
    from twice [OF this] obtain m2 m3 where "machine_step lease (Sweep now) m1 m2"
      "machine_step lease Internal_Step m2 m3" "posts_of i m3 = [(i, now), (i, s)]" by blast
    then show "\<exists>m2 m3. machine_step lease (Sweep now) m1 m2 \<and> machine_step lease Internal_Step m2 m3 \<and>
       length (posts_of i m3) = 2" by (intro exI [of _ m2] exI [of _ m3]) simp
  next
    fix first second
    assume late: "s < now - lease * 1000000" and st: "first \<in> {Posted, Pending}" "second \<in> {Posted, Pending}"
    from twice [OF late] obtain m2 m3 where m: "machine_step lease (Sweep now) m1 m2"
      "machine_step lease Internal_Step m2 m3" "posts_of i m3 = [(i, now), (i, s)]"
      "(i, now) \<in> set (m_inflight m3)" "remove1 (i, now) (m_inflight m3) = m_inflight m1"
      "row_status i (u ''posting'') (m_rows m3)" by blast
    have "any_step lease m1 m2" "any_step lease m2 m3" using m(1,2) unfolding any_step_def by blast+
    then have "(any_step lease)\<^sup>*\<^sup>* m1 m3" by (simp add: converse_rtranclp_into_rtranclp)
    moreover have "length (posts_of i m3) = 2" using m(3) by simp
    ultimately show "\<exists>m3 m4 m5. (any_step lease)\<^sup>*\<^sup>* m1 m3 \<and> length (posts_of i m3) = 2 \<and>
         any_step lease m3 m4 \<and> row_status i (status_str first) (m_rows m4) \<and> length (posts_of i m4) = 1 \<and>
         any_step lease m4 m5 \<and> row_status i (status_str second) (m_rows m5) \<and> posts_of i m5 = []"
      using both_record [OF one [unfolded posts_of_def] m(4,5,6) st] by blast
  qed
qed

text \<open>A post claimed at time 0 under a lease of 600 seconds, swept at 601 seconds.\<close>

theorem expired_lease_duplicates_witness:
  "\<exists>m1 m3 m4 m5. (timely_step 600)\<^sup>*\<^sup>* lease_start m1 \<and> (any_step 600)\<^sup>*\<^sup>* m1 m3 \<and> length (posts_of 1 m3) = 2 \<and>
     any_step 600 m3 m4 \<and> row_status 1 (u ''posted'') (m_rows m4) \<and>
     any_step 600 m4 m5 \<and> row_status 1 (u ''pending'') (m_rows m5)"
proof -
  let ?m1 = "\<lparr>m_rows = [lease_row ''posting'' 0 None], m_inflight = [(1, 0)]\<rparr>"
  have "timely_step 600 lease_start ?m1"
    unfolding timely_step_def lease_start_def
    by (rule exI [where x = Internal_Step]) (simp add: lease_claim timely_def)
  then have run: "(timely_step 600)\<^sup>*\<^sup>* lease_start ?m1" by blast
  have post: "(1, 0) \<in> set (m_inflight ?m1)" by simp
  have "(0 :: time) < 601000000 - 600 * 1000000" by simp
  from expired_lease_duplicates [OF lease_start_ok run post, of 601000000, THEN conjunct2, rule_format, OF this,
      of Posted Pending] run
  show ?thesis by auto
qed

end
