(* ===== verification/Worker_Spec.thy ===== *)
theory Worker_Spec
  imports Money
begin

text \<open>
  The properties of the background workers: the backoff, what the retry worker posts and how it
  records success, a retry and exhaustion, what a reconciliation sweep changes, and how a row whose
  owner died comes back.
\<close>

section \<open>Backoff\<close>

text \<open>The delay as a function on natural numbers: doubling from the base, at most 16 times, capped.\<close>

definition backoff_spec :: "int \<Rightarrow> nat \<Rightarrow> nat \<Rightarrow> nat" where
  "backoff_spec attempt base cap = min (base * 2 ^ nat (min (max attempt 1 - 1) 16)) (max cap base)"

lemma unat_min_word: "unat (min a b) = min (unat a) (unat (b :: 64 word))"
  by (simp add: min_def word_le_nat_alt)

lemma unat_max_word: "unat (max a b) = max (unat a) (unat (b :: 64 word))"
  by (simp add: max_def word_le_nat_alt)

lemma unat_max_u64: "unat (- 1 :: 64 word) = 2 ^ 64 - 1"
  by (simp add: unsigned_minus_1_eq_mask mask_eq_exp_minus_1)

lemma saturating_mul_min: "min (unat (saturating_mul_u64 a b)) (unat (c :: 64 word)) = min (unat a * unat b) (unat c)"
proof (cases "unat a * unat b < 2 ^ 64")
  case True
  then have "unat (a * b) = unat a * unat b" by (simp add: unat_word_ariths)
  with True show ?thesis by (simp add: saturating_mul_u64_def)
next
  case False
  have "c \<le> - 1" by simp
  then have "unat c \<le> 2 ^ 64 - 1" unfolding word_le_nat_alt unat_max_u64 .
  with False show ?thesis by (simp add: saturating_mul_u64_def unat_max_u64 min_def)
qed

lemma exponent_range:
  "unat (i32_min (i32_max attempt 1 - 1) 16) = nat (min (max (sint attempt) 1 - 1) 16)"
proof -
  let ?m = "i32_max attempt 1"
  have m: "sint ?m = max (sint attempt) 1" by (simp add: i32_max_def)
  have up: "sint attempt < 2 ^ 31" using sint_lt [of attempt] by simp
  have "sint (?m - 1) = sint ?m - 1"
    using m up by (simp add: sint_word_ariths signed_take_bit_int_eq_self)
  then have e: "sint (i32_min (?m - 1) 16) = min (max (sint attempt) 1 - 1) 16"
    using m by (simp add: i32_min_def)
  have "0 \<le> sint (i32_min (?m - 1) 16)" using e by simp
  then have "unat (i32_min (?m - 1) 16) = nat (sint (i32_min (?m - 1) 16))"
    using e by (simp add: unat_eq_nat_uint uint_sint take_bit_int_eq_self)
  then show ?thesis using e by simp
qed

lemma pow2_exact: "n \<le> 16 \<Longrightarrow> unat (saturating_pow_u64 2 n) = 2 ^ n"
proof -
  assume n: "n \<le> 16"
  have "(2 :: nat) ^ n \<le> 2 ^ 16" using n by (intro power_increasing) simp_all
  also have "\<dots> < 2 ^ 64" by simp
  finally have small: "(2 :: nat) ^ n < 2 ^ 64" .
  have "(2 :: 64 word) ^ n = of_nat (2 ^ n)" by simp
  then have "unat ((2 :: 64 word) ^ n) = 2 ^ n" using small by (simp only: unat_of_nat) simp
  with small show ?thesis by (simp add: saturating_pow_u64_def)
qed

text \<open>
  C15. The delay before the next attempt is the base delay doubled once per earlier attempt, at most
  sixteen times, and capped by the larger of the maximum and the base; the saturating machine
  arithmetic never shows.
\<close>

theorem retry_delay_spec:
  "unat (compute_retry_delay_ms attempt base cap) = backoff_spec (sint attempt) (unat base) (unat cap)"
proof -
  let ?e = "i32_min (i32_max attempt 1 - 1) 16"
  have e16: "unat ?e \<le> 16" unfolding exponent_range by simp
  have "unat (compute_retry_delay_ms attempt base cap) =
      min (unat (saturating_mul_u64 base (saturating_pow_u64 2 (unat ?e)))) (unat (max cap base))"
    by (simp add: compute_retry_delay_ms_def Let_def unat_min_word)
  also have "\<dots> = min (unat base * 2 ^ unat ?e) (unat (max cap base))"
    by (simp add: saturating_mul_min pow2_exact [OF e16])
  finally show ?thesis by (simp add: backoff_spec_def exponent_range unat_max_word)
qed

lemma backoff_spec_mono: "a \<le> b \<Longrightarrow> backoff_spec a base cap \<le> backoff_spec b base cap"
proof -
  assume "a \<le> b"
  then have "nat (min (max a 1 - 1) 16) \<le> nat (min (max b 1 - 1) 16)" by (intro nat_mono) auto
  then have "base * 2 ^ nat (min (max a 1 - 1) 16) \<le> base * 2 ^ nat (min (max b 1 - 1) 16)"
    by (intro mult_le_mono power_increasing) simp_all
  then show ?thesis unfolding backoff_spec_def by (rule min.mono) simp
qed

section \<open>What the worker posts\<close>

text \<open>The post that belongs to a stored transaction.\<close>

definition intended_post :: "'x params \<Rightarrow> transaction \<Rightarrow> int \<Rightarrow> post_request" where
  "intended_post P t env_i =
     make_post P (tx_organization_id t) env_i (fst (external_accounts P t)) (snd (external_accounts P t))
       (tx_amount t) (tx_currency t) (tx_id t) (tx_idempotency_key t) (p_uuid_str P (tx_id t))"

lemma repo_posts_all:
  "keeps (posts_all Q) (find_account_by_id P i env)"
  "keeps (posts_all Q) (update_status P i st reason)"
  "keeps (posts_all Q) (schedule_retry P i txt at)"
  "keeps (posts_all Q) (mark_terminal_failure P i txt)"
  "keeps (posts_all Q) (utc_now P)"
proof -
  have q: "keeps (posts_all Q) (db_query P r)" for r
    by (rule keepsI) (simp add: posts_all_def db_query_frame)
  have t: "keeps (posts_all Q) tick" by (rule keepsI) (simp add: posts_all_def tick_def)
  show "keeps (posts_all Q) (find_account_by_id P i env)"
    "keeps (posts_all Q) (update_status P i st reason)"
    "keeps (posts_all Q) (schedule_retry P i txt at)"
    "keeps (posts_all Q) (mark_terminal_failure P i txt)"
    "keeps (posts_all Q) (utc_now P)"
    by (auto simp: find_account_by_id_def update_status_def schedule_retry_def mark_terminal_failure_def
        utc_now_def intro!: posted.keeps_bind posted.keeps_lift posted.keeps_ret q t)
qed

lemma post_transaction_posts_all:
  assumes "\<And>env_i. Q (make_post P org env_i src dst a c i key corr)"
  shows "keeps (posts_all Q) (post_transaction P org env src dst a c i key corr)"
proof -
  have conn: "keeps (posts_all Q) (connect_channel P)" by (rule keepsI) (simp add: posts_all_def)
  have send: "keeps (posts_all Q) (send_post P (make_post P org e src dst a c i key corr))" for e
    by (rule keepsI) (simp add: posts_all_def assms)
  show ?thesis
    unfolding post_transaction_def make_post_def [symmetric]
    by (intro posted.keeps_bind posted.keeps_lift conn send)
      (auto split: rpc_reply.split)
qed

text \<open>
  C15. Whatever fails and whatever other processes do, every post the retry worker sends for a claimed
  transaction is that transaction's own: organization, accounts according to its kind, amount,
  currency, id and idempotency key as stored.
\<close>

theorem worker_posts_stored_intent:
  "\<exists>new. w_posts (snd (process_claimed P t w)) = w_posts w @ new \<and>
     list_all (\<lambda>req. \<exists>env_i. req = intended_post P t env_i) new \<and> length new \<le> 1"
proof -
  let ?Q = "\<lambda>req. \<exists>env_i. req = intended_post P t env_i"
  have post: "keeps (posts_all ?Q) (post_transaction P (tx_organization_id t) env (fst (external_accounts P t))
      (snd (external_accounts P t)) (tx_amount t) (tx_currency t) (tx_id t) (tx_idempotency_key t)
      (p_uuid_str P (tx_id t)))" for env
    by (rule post_transaction_posts_all) (auto simp: intended_post_def)
  have env: "keeps (posts_all ?Q) (resolve_environment P t)"
    by (auto simp: resolve_environment_def intro!: posted.keeps_bind posted.keeps_try posted.keeps_option
        posted.keeps_sum posted.keeps_ret repo_posts_all)
  have fail: "keeps (posts_all ?Q) (record_post_failure P t e)" for e
    by (auto simp: record_post_failure_def Let_def intro!: posted.keeps_bind posted.keeps_try posted.keeps_ret
        repo_posts_all)
  have "keeps (posts_all ?Q) (process_claimed P t)"
    unfolding process_claimed_def prod.case_eq_if Let_def
    by (intro posted.keeps_bind posted.keeps_option posted.keeps_sum posted.keeps_try posted.keeps_ret
        env fail post repo_posts_all)
  then have all: "posts_all ?Q w (snd (process_claimed P t w))" by (rule keepsD)
  have "posts_grow 1 w (snd (process_claimed P t w))" using process_claimed_posts_once by (rule withinD)
  with all show ?thesis by (auto simp: posts_all_def posts_grow_def list_all_iff)
qed

section \<open>Recording the outcome\<close>

text \<open>A claimed row after the ledger answered \<open>v\<close> by tick \<open>n\<close>. The outcome is recorded at
  that tick; a retry reads the clock once more, for the time the backoff counts from.\<close>

definition worker_row :: "'x params \<Rightarrow> app_error + unit \<Rightarrow> nat \<Rightarrow> tx_row \<Rightarrow> tx_row" where
  "worker_row P v n r =
     (case v of
        Inr _ \<Rightarrow> r\<lparr>r_status := u ''posted'', r_failure_reason := None, r_updated_at := p_clock P n\<rparr>
      | Inl e \<Rightarrow>
          if sint (retry_max_attempts_from_env P) \<le> sint (r_retry_count r)
          then r\<lparr>r_status := u ''failed'', r_failure_reason := Some (error_to_string e),
                 r_next_retry_at := None, r_terminal_failure_at := Some (p_clock P n), r_updated_at := p_clock P n\<rparr>
          else r\<lparr>r_status := u ''pending'', r_failure_reason := Some (error_to_string e),
                 r_next_retry_at := Some (p_clock P n + sint (compute_retry_delay_ms (r_retry_count r)
                    (retry_base_delay_ms_from_env P) (retry_max_delay_ms_from_env P)) * 1000),
                 r_terminal_failure_at := None, r_updated_at := p_clock P (Suc n)\<rparr>)"

text \<open>The tick at which the answer to a post is in: the call itself is one tick, and the first call
  connects before.\<close>

definition answered :: "'x world \<Rightarrow> nat" where
  "answered w = w_tick w + (if w_channel w then 1 else 2)"

definition with_rows :: "'x world \<Rightarrow> tx_row list \<Rightarrow> nat \<Rightarrow> 'x world" where
  "with_rows w rows n = w\<lparr>w_db := (w_db w)\<lparr>db_transactions := rows\<rparr>, w_tick := n\<rparr>"

lemma with_rows_simps [simp]:
  "db_transactions (w_db (with_rows w rows n)) = rows" "db_accounts (w_db (with_rows w rows n)) = db_accounts (w_db w)"
  "w_posts (with_rows w rows n) = w_posts w"
  by (simp_all add: with_rows_def)

lemma recorded:
  fixes w :: "'x world"
  assumes "undisturbed P"
  shows "bind_io (try_io (update_status P i s m)) (\<lambda>_. ret ()) w = ((Inr () :: app_error + unit),
      with_rows w (snd (update_status_stmt (p_clock P (w_tick w)) i s m (db_transactions (w_db w)))) (Suc (w_tick w)))"
    "bind_io (try_io (schedule_retry P i txt at)) (\<lambda>_. ret ()) w = ((Inr () :: app_error + unit),
      with_rows w (snd (schedule_retry_stmt (p_clock P (w_tick w)) i txt at (db_transactions (w_db w)))) (Suc (w_tick w)))"
    "bind_io (try_io (mark_terminal_failure P i txt)) (\<lambda>_. ret ()) w = ((Inr () :: app_error + unit),
      with_rows w (snd (mark_terminal_stmt (p_clock P (w_tick w)) i txt (db_transactions (w_db w)))) (Suc (w_tick w)))"
  using assms
  by (simp_all add: update_status_def schedule_retry_def mark_terminal_failure_def io_simps tx_update_def
      on_transactions_def with_rows_def)

lemma record_failure_eval:
  assumes P: "undisturbed P" and d: "distinct (map r_id (db_transactions (w_db w)))"
    and r: "r \<in> set (db_transactions (w_db w))" "tx_id t = r_id r" "tx_retry_count t = r_retry_count r"
  shows "\<exists>n. w_tick w \<le> n \<and> record_post_failure P t e w = (Inr (), with_rows w
      (map (\<lambda>x. if r_id x = r_id r then worker_row P (Inl e) (w_tick w) x else x) (db_transactions (w_db w))) n)"
proof -
  have uniq: "x = r" if "x \<in> set (db_transactions (w_db w))" "r_id x = r_id r" for x
    using distinct_id_unique [OF d that(1) r(1) that(2)] .
  show ?thesis
  proof (cases "sint (retry_max_attempts_from_env P) \<le> sint (r_retry_count r)")
    case True
    let ?at = "p_clock P (w_tick w)"
    have "snd (mark_terminal_stmt ?at (r_id r) (error_to_string e) (db_transactions (w_db w))) =
        map (\<lambda>x. if r_id x = r_id r then worker_row P (Inl e) (w_tick w) x else x) (db_transactions (w_db w))"
      using True by (auto simp: mark_terminal_stmt_def worker_row_def dest: uniq intro!: map_cong)
    with True show ?thesis
      using r(2,3) recorded(3) [OF P, of "r_id r" "error_to_string e" w]
      by (intro exI [of _ "Suc (w_tick w)"]) (auto simp: record_post_failure_def Let_def)
  next
    case False
    let ?base = "p_clock P (w_tick w)" and ?at = "p_clock P (Suc (w_tick w))"
    let ?next = "?base + sint (compute_retry_delay_ms (r_retry_count r)
                    (retry_base_delay_ms_from_env P) (retry_max_delay_ms_from_env P)) * 1000"
    have "snd (schedule_retry_stmt ?at (r_id r) (error_to_string e) ?next (db_transactions (w_db w))) =
        map (\<lambda>x. if r_id x = r_id r then worker_row P (Inl e) (w_tick w) x else x) (db_transactions (w_db w))"
      using False by (auto simp: schedule_retry_stmt_def worker_row_def dest: uniq intro!: map_cong)
    with False show ?thesis
      using r(2,3) recorded(2) [OF P, of "r_id r" "error_to_string e" ?next "w\<lparr>w_tick := Suc (w_tick w)\<rparr>"]
      by (intro exI [of _ "w_tick w + 2"]) (auto simp: record_post_failure_def Let_def utc_now_def bind_io_apply [of tick] bind_io_apply [of "bind_io tick f" for f]
          tick_apply ret_apply with_rows_def)
  qed
qed

text \<open>The run of a claimed transaction: a post, then one update of its row.\<close>

lemma process_claimed_run:
  assumes "undisturbed P" "ledger_up P" "tx_table_ok (db_transactions (w_db w))"
    and "r \<in> set (db_transactions (w_db w))" "row_to_transaction True r = Inr t"
    and "tx_environment t = Some env" "env_to_proto env = Inr env_i"
    and v: "v = ledger_verdict P (intended_post P t env_i) (w_ext w)"
  obtains w1 n where "w_db w1 = w_db w" "w_posts w1 = w_posts w @ [intended_post P t env_i]" "w_tick w \<le> n"
    "process_claimed P t w = (Inr (), with_rows w1
      (map (\<lambda>x. if r_id x = r_id r then worker_row P v (answered w) x else x) (db_transactions (w_db w))) n)"
proof -
  have id: "tx_id t = r_id r" and count: "tx_retry_count t = r_retry_count r"
    using row_to_transaction_InrD [OF assms(5)] by simp_all
  have d: "distinct (map r_id (db_transactions (w_db w)))" using assms(3) by (simp add: tx_table_ok_def)
  obtain w1 where post: "post_transaction P (tx_organization_id t) env (fst (external_accounts P t))
      (snd (external_accounts P t)) (tx_amount t) (tx_currency t) (tx_id t) (tx_idempotency_key t)
      (p_uuid_str P (tx_id t)) w = (v, w1)"
    and w1: "w_db w1 = w_db w" "w_posts w1 = w_posts w @ [intended_post P t env_i]" "w_tick w1 = answered w"
    using v post_transaction_eval [OF assms(2,7), of "tx_organization_id t" "fst (external_accounts P t)"
        "snd (external_accounts P t)" "tx_amount t" "tx_currency t" "tx_id t" "tx_idempotency_key t"
        "p_uuid_str P (tx_id t)" w]
    by (simp add: intended_post_def answered_def)
  then have later: "w_tick w \<le> w_tick w1" by (simp add: answered_def)
  have run: "process_claimed P t w = (case v of
       Inr _ \<Rightarrow> bind_io (try_io (update_status P (tx_id t) Posted None)) (\<lambda>_. ret ()) w1
     | Inl e \<Rightarrow> record_post_failure P t e w1)"
    using assms(6) post
    by (cases v) (simp_all add: process_claimed_def resolve_environment_def bind_io_apply [of "ret a" for a]
        bind_io_apply [of "try_io (post_transaction P a b c d e f g h i)" for a b c d e f g h i]
        ret_apply try_io_apply Let_def prod.case_eq_if)
  show thesis
  proof (cases v)
    case (Inr a)
    then show thesis
      using run w1 id recorded(1) [OF assms(1), of "r_id r" Posted None w1]
later
      by (intro that [of w1 "Suc (w_tick w1)"])
        (auto simp: worker_row_def update_status_stmt_def intro!: arg_cong [where f = "\<lambda>rows. with_rows w1 rows n" for n] map_cong)
  next
    case (Inl e)
    obtain n where "w_tick w1 \<le> n" "record_post_failure P t e w1 = (Inr (), with_rows w1
      (map (\<lambda>x. if r_id x = r_id r then worker_row P (Inl e) (answered w) x else x) (db_transactions (w_db w))) n)"
      using record_failure_eval [OF assms(1), of w1 r t e] d assms(4) id count w1(1) unfolding w1(3) by auto
    with run Inl w1 later show thesis by (intro that [of w1 n]) auto
  qed
qed


text \<open>
  C14. A claimed transaction that the retry worker processes undisturbed ends in one of three ways:
  the ledger accepts it and its row becomes posted; the ledger refuses and the row has used up its
  attempts, so it becomes failed for good with no next retry; or it goes back to pending, and its next
  retry is due exactly the backoff delay, in milliseconds, after the clock read when the answer was in
  (\<open>answered\<close>). The other rows and the accounts are untouched, and one post has been made.
\<close>

theorem worker_records_outcome:
  assumes "undisturbed P" "ledger_up P" "tx_table_ok (db_transactions (w_db w))"
    and "r \<in> set (db_transactions (w_db w))" "row_to_transaction True r = Inr t"
    and "tx_environment t = Some env" "env_to_proto env = Inr env_i"
  shows "\<exists>w'. process_claimed P t w = (Inr (), w') \<and>
    w_posts w' = w_posts w @ [intended_post P t env_i] \<and>
    db_transactions (w_db w') =
      map (\<lambda>x. if r_id x = r_id r
           then case ledger_verdict P (intended_post P t env_i) (w_ext w) of
             Inr _ \<Rightarrow> x\<lparr>r_status := u ''posted'', r_failure_reason := None,
                        r_updated_at := p_clock P (answered w)\<rparr>
           | Inl e \<Rightarrow>
               if sint (retry_max_attempts_from_env P) \<le> sint (r_retry_count x)
               then x\<lparr>r_status := u ''failed'', r_failure_reason := Some (error_to_string e),
                      r_next_retry_at := None, r_terminal_failure_at := Some (p_clock P (answered w)),
                      r_updated_at := p_clock P (answered w)\<rparr>
               else x\<lparr>r_status := u ''pending'', r_failure_reason := Some (error_to_string e),
                      r_next_retry_at := Some (p_clock P (answered w) +
                        sint (compute_retry_delay_ms (r_retry_count x)
                          (retry_base_delay_ms_from_env P) (retry_max_delay_ms_from_env P)) * 1000),
                      r_terminal_failure_at := None, r_updated_at := p_clock P (Suc (answered w))\<rparr>
           else x)
        (db_transactions (w_db w)) \<and>
    db_accounts (w_db w') = db_accounts (w_db w)"
proof -
  obtain w1 n where run: "w_db w1 = w_db w" "w_posts w1 = w_posts w @ [intended_post P t env_i]"
    "process_claimed P t w = (Inr (), with_rows w1 (map (\<lambda>x. if r_id x = r_id r
        then worker_row P (ledger_verdict P (intended_post P t env_i) (w_ext w)) (answered w) x else x)
        (db_transactions (w_db w))) n)"
    by (rule process_claimed_run [OF assms refl])
  show ?thesis
    using run(1,2) unfolding run(3) worker_row_def by simp
qed

text \<open>A ledger that never answers, and a row on its eighth attempt.\<close>

definition mute_params :: "nat params" where
  "mute_params = demo_params\<lparr>p_post := (\<lambda>_ x. (Timed_Out, x))\<rparr>"

definition eighth :: tx_row where
  "eighth = (demo_row ''posting'')\<lparr>r_retry_count := 8\<rparr>"

lemma mute_params_ok: "undisturbed mute_params" "ledger_up mute_params"
  by (simp_all add: undisturbed_def ledger_up_def mute_params_def demo_params_def)

theorem worker_records_outcome_witness:
  "\<exists>w' t. process_claimed mute_params t (demo_world\<lparr>w_db := \<lparr>db_accounts = [], db_transactions = [eighth]\<rparr>\<rparr>)
      = (Inr (), w') \<and> tx_retry_count t = 8 \<and>
    map r_status (db_transactions (w_db w')) = [u ''failed''] \<and>
    map r_next_retry_at (db_transactions (w_db w')) = [None]"
proof -
  let ?w = "demo_world\<lparr>w_db := \<lparr>db_accounts = [], db_transactions = [eighth]\<rparr>\<rparr>"
  let ?t = "(demo_tx Posting)\<lparr>tx_retry_count := 8\<rparr>"
  have table: "tx_table_ok (db_transactions (w_db ?w))"
    by (simp add: tx_table_ok_def tx_row_ok_def eighth_def demo_row_def new_tx_row_def)
  have row: "row_to_transaction True eighth = Inr ?t"
    by (simp add: row_to_transaction_def parse_kind_def parse_status_def eighth_def demo_row_def demo_tx_def
        new_tx_row_def new_transaction_def)
  have env: "tx_environment ?t = Some (u ''sandbox'')" by (simp add: demo_tx_def new_transaction_def)
  have proto: "env_to_proto (u ''sandbox'') = Inr 1" by (simp add: env_to_proto_def)
  have mute: "ledger_verdict mute_params req n = Inl (Internal (u ''ledger gRPC post timeout expired''))" for req n
    by (simp add: ledger_verdict_def mute_params_def)
  have count: "r_retry_count eighth = 8" "retry_max_attempts_from_env mute_params = 8"
    by (simp_all add: eighth_def retry_max_attempts_from_env_def positive_i32_from_env_def mute_params_def demo_params_def)
  obtain w' where "process_claimed mute_params ?t ?w = (Inr (), w')"
    "db_transactions (w_db w') = [eighth\<lparr>r_status := u ''failed'',
      r_failure_reason := Some (error_to_string (Internal (u ''ledger gRPC post timeout expired''))),
      r_next_retry_at := None, r_terminal_failure_at := Some (p_clock mute_params (answered ?w)),
      r_updated_at := p_clock mute_params (answered ?w)\<rparr>]"
    using worker_records_outcome [OF mute_params_ok table _ row env proto] by (auto simp: mute count)
  then show ?thesis
    by (intro exI [of _ w'] exI [of _ ?t]) simp
qed

section \<open>Reconciliation\<close>

lemma reconcile_eval:
  assumes "undisturbed P"
  defines "lease s \<equiv> max (num_seconds s) 1"
  shows "reconcile_stale_transactions P stale age w =
    (let n1 = p_clock P (w_tick w); n2 = p_clock P (Suc (w_tick w));
         requeued = requeue_stale_stmt n1 (lease stale) (db_transactions (w_db w));
         failed = fail_aged_stmt n2 (lease age) (snd requeued) in
     (Inr (length (fst requeued), length (fst failed)), with_rows w (snd failed) (w_tick w + 2)))"
  using assms(1)
  by (simp add: reconcile_stale_transactions_def io_simps Let_def tx_update_def on_transactions_def
      with_rows_def lease_def)

text \<open>Posting since before the lease; and attempted at least once and created before the maximal age.\<close>

definition lease_expired :: "time \<Rightarrow> int \<Rightarrow> tx_row \<Rightarrow> bool" where
  "lease_expired now secs r \<longleftrightarrow> r_status r = u ''posting'' \<and> r_updated_at r < now - secs * 1000000"

definition attempted_and_aged :: "time \<Rightarrow> int \<Rightarrow> tx_row \<Rightarrow> bool" where
  "attempted_and_aged now secs r \<longleftrightarrow> 1 \<le> sint (r_retry_count r) \<and> r_created_at r < now - secs * 1000000"

lemma update_twice:
  "snd (update_returning q g (snd (update_returning p f rows))) =
     map (\<lambda>r. if p r then if q (f r) then g (f r) else f r else if q r then g r else r) rows"
  "length (fst (update_returning q g (snd (update_returning p f rows)))) =
     length (filter (\<lambda>r. if p r then q (f r) else q r) rows)"
  "length (fst (update_returning p f rows)) = length (filter p rows)"
  by (auto simp: update_returning_def filter_map comp_def if_distrib [of q] intro!: arg_cong [where f = length] filter_cong)

text \<open>
  C16. What a reconciliation sweep does to every row. It reads the clock twice, \<open>n1\<close> and \<open>n2\<close>.
  A row that is posting beyond the lease at \<open>n1\<close> loses its claim; such a row, and a pending one,
  is failed for good if it has been attempted and is older than the maximal age at \<open>n2\<close>, keeping
  the reason it has by then; a stale posting row that is not failed is pending again, dated \<open>n1\<close>.
  Every other row (posted, failed, posting within the lease, pending and never attempted or young enough)
  is exactly as before. The two results count the stale posting rows and the failed rows, and neither
  accounts nor ledger are touched.
\<close>

theorem reconcile_sweep_effect:
  assumes "undisturbed P" "reconcile_stale_transactions P stale age w = (Inr (requeued, failed), w')"
  defines "n1 \<equiv> p_clock P (w_tick w)" and "n2 \<equiv> p_clock P (Suc (w_tick w))"
    and "lease \<equiv> max (num_seconds stale) 1" and "limit \<equiv> max (num_seconds age) 1"
  shows "db_transactions (w_db w') = map (\<lambda>r.
       if (lease_expired n1 lease r \<or> r_status r = u ''pending'') \<and> attempted_and_aged n2 limit r
       then r\<lparr>r_status := u ''failed'',
              r_failure_reason := Some (if lease_expired n1 lease r then u ''reconciler: posting stale; requeued''
                else unwrap_or (r_failure_reason r) (u ''reconciler: pending age exceeded'')),
              r_next_retry_at := None, r_terminal_failure_at := Some n2, r_updated_at := n2\<rparr>
       else if lease_expired n1 lease r
       then r\<lparr>r_status := u ''pending'', r_failure_reason := Some (u ''reconciler: posting stale; requeued''),
              r_updated_at := n1\<rparr>
       else r) (db_transactions (w_db w)) \<and>
    requeued = length (filter (lease_expired n1 lease) (db_transactions (w_db w))) \<and>
    failed = length (filter (\<lambda>r. (lease_expired n1 lease r \<or> r_status r = u ''pending'') \<and>
       attempted_and_aged n2 limit r) (db_transactions (w_db w))) \<and>
    db_accounts (w_db w') = db_accounts (w_db w) \<and> w_posts w' = w_posts w"
proof -
  let ?rows = "db_transactions (w_db w)" and ?stale = "lease_expired n1 lease" and ?old = "attempted_and_aged n2 limit"
  let ?pend = "\<lambda>r. r\<lparr>r_status := u ''pending'', r_failure_reason := Some (u ''reconciler: posting stale; requeued''),
    r_updated_at := n1\<rparr>"
  let ?fail = "\<lambda>r. r\<lparr>r_status := u ''failed'',
    r_failure_reason := Some (unwrap_or (r_failure_reason r) (u ''reconciler: pending age exceeded'')),
    r_next_retry_at := None, r_terminal_failure_at := Some n2, r_updated_at := n2\<rparr>"
  let ?rq = "update_returning ?stale ?pend ?rows"
  let ?fa = "update_returning (\<lambda>r. r_status r = u ''pending'' \<and> ?old r) ?fail (snd ?rq)"
  have stmts: "requeue_stale_stmt n1 lease ?rows = ?rq" "fail_aged_stmt n2 limit (snd ?rq) = ?fa"
    by (simp_all add: requeue_stale_stmt_def fail_aged_stmt_def lease_expired_def [abs_def]
        attempted_and_aged_def conj_commute conj_left_commute)
  have run: "w' = with_rows w (snd ?fa) (w_tick w + 2)" "requeued = length (fst ?rq)" "failed = length (fst ?fa)"
    using assms(2) unfolding reconcile_eval [OF assms(1)] Let_def n1_def [symmetric] n2_def [symmetric]
      lease_def [symmetric] limit_def [symmetric] stmts by auto
  have step: "?old (?pend r) = ?old r" "?stale r \<Longrightarrow> r_status r \<noteq> u ''pending''" for r
    by (simp_all add: attempted_and_aged_def lease_expired_def)
  have "snd ?fa = map (\<lambda>r.
       if (?stale r \<or> r_status r = u ''pending'') \<and> ?old r
       then r\<lparr>r_status := u ''failed'',
              r_failure_reason := Some (if ?stale r then u ''reconciler: posting stale; requeued''
                else unwrap_or (r_failure_reason r) (u ''reconciler: pending age exceeded'')),
              r_next_retry_at := None, r_terminal_failure_at := Some n2, r_updated_at := n2\<rparr>
       else if ?stale r then ?pend r else r) ?rows"
    unfolding update_twice(1) step(1) by (rule map_cong [OF refl]) simp
  moreover have "length (fst ?fa) = length (filter (\<lambda>r. (?stale r \<or> r_status r = u ''pending'') \<and> ?old r) ?rows)"
    unfolding update_twice(2) step(1) by (intro arg_cong [where f = length] filter_cong refl) simp
  moreover have "length (fst ?rq) = length (filter ?stale ?rows)" by (rule update_twice(3))
  ultimately show ?thesis
    unfolding run with_rows_simps by (intro conjI) (assumption | rule refl)+
qed

text \<open>A row claimed for a second attempt at time 0 and never recorded, two hours later.\<close>

definition stuck :: tx_row where
  "stuck = (demo_row ''posting'')\<lparr>r_retry_count := 2\<rparr>"

definition two_hours_later :: "nat world" where
  "two_hours_later = demo_world\<lparr>w_db := \<lparr>db_accounts = [], db_transactions = [stuck]\<rparr>, w_tick := 7200\<rparr>"

lemma num_seconds_seconds: "0 \<le> s \<Longrightarrow> num_seconds (seconds s) = s"
  by (simp add: num_seconds_def seconds_def)

lemma stuck_simps [simp]:
  "r_status stuck = u ''posting''" "r_updated_at stuck = 0" "r_created_at stuck = 0" "r_retry_count stuck = 2"
  "r_next_retry_at stuck = None" "r_id stuck = 50"
  by (simp_all add: stuck_def demo_row_def new_tx_row_def)

lemma two_hours_later_simps [simp]:
  "db_transactions (w_db two_hours_later) = [stuck]" "w_tick two_hours_later = 7200"
  "p_clock demo_params n = 1000000 * int n"
  by (simp_all add: two_hours_later_def demo_params_def)

theorem reconcile_sweep_effect_witness:
  "\<exists>w'. reconcile_stale_transactions demo_params (seconds 600) (seconds 3600) two_hours_later = (Inr (1, 1), w') \<and>
    map r_status (db_transactions (w_db w')) = [u ''failed''] \<and>
    map r_failure_reason (db_transactions (w_db w')) = [Some (u ''reconciler: posting stale; requeued'')]"
proof -
  obtain requeued failed w' where run:
    "reconcile_stale_transactions demo_params (seconds 600) (seconds 3600) two_hours_later = (Inr (requeued, failed), w')"
    by (simp add: reconcile_eval [OF demo_params_ok(1)] Let_def)
  from reconcile_sweep_effect [OF demo_params_ok(1) run] run show ?thesis
    by (simp add: num_seconds_seconds lease_expired_def attempted_and_aged_def)
qed

text \<open>
  One sweep can both requeue and fail a transaction: a post in flight longer than the lease, for a
  transaction older than the maximal age that has been attempted, ends failed for good, with the
  reason of the requeue, although nothing is known of the post itself.
\<close>

theorem sweep_fails_in_flight:
  assumes "undisturbed P" "reconcile_stale_transactions P stale age w = (Inr n, w')"
    and "r \<in> set (db_transactions (w_db w))" "r_status r = u ''posting''" "1 \<le> sint (r_retry_count r)"
    and "r_updated_at r < p_clock P (w_tick w) - max (num_seconds stale) 1 * 1000000"
    and "r_created_at r < p_clock P (Suc (w_tick w)) - max (num_seconds age) 1 * 1000000"
  shows "\<exists>r' \<in> set (db_transactions (w_db w')). r_id r' = r_id r \<and> r_status r' = u ''failed'' \<and>
    r_failure_reason r' = Some (u ''reconciler: posting stale; requeued'') \<and> r_next_retry_at r' = None"
proof -
  have run: "db_transactions (w_db w') =
      snd (fail_aged_stmt (p_clock P (Suc (w_tick w))) (max (num_seconds age) 1)
        (snd (requeue_stale_stmt (p_clock P (w_tick w)) (max (num_seconds stale) 1) (db_transactions (w_db w)))))"
    using assms(2) unfolding reconcile_eval [OF assms(1)] Let_def by auto
  let ?n1 = "p_clock P (w_tick w)" and ?n2 = "p_clock P (Suc (w_tick w))"
  let ?r1 = "r\<lparr>r_status := u ''pending'', r_failure_reason := Some (u ''reconciler: posting stale; requeued''),
              r_updated_at := ?n1\<rparr>"
  let ?r2 = "?r1\<lparr>r_status := u ''failed'', r_failure_reason := Some (u ''reconciler: posting stale; requeued''),
              r_next_retry_at := None, r_terminal_failure_at := Some ?n2, r_updated_at := ?n2\<rparr>"
  have "?r1 \<in> set (snd (requeue_stale_stmt ?n1 (max (num_seconds stale) 1) (db_transactions (w_db w))))"
    using assms(3,4,6) by (force simp: requeue_stale_stmt_def)
  then have "?r2 \<in> set (db_transactions (w_db w'))"
    unfolding run fail_aged_stmt_def update_returning_simps set_map
    by (rule rev_image_eqI) (use assms(5,7) in simp)
  then show ?thesis by (rule bexI [rotated]) simp
qed

theorem sweep_fails_in_flight_witness:
  "\<exists>n w' r'. reconcile_stale_transactions demo_params (seconds 600) (seconds 3600) two_hours_later = (Inr n, w') \<and>
    r' \<in> set (db_transactions (w_db w')) \<and> r_status r' = u ''failed''"
proof -
  obtain n w' where run:
    "reconcile_stale_transactions demo_params (seconds 600) (seconds 3600) two_hours_later = (Inr n, w')"
    by (simp add: reconcile_eval [OF demo_params_ok(1)] Let_def)
  from sweep_fails_in_flight [OF demo_params_ok(1) run, of stuck] run show ?thesis
    by (auto simp: num_seconds_seconds)
qed

section \<open>Recovery\<close>

lemma claim_pending_eval:
  assumes "undisturbed P"
  shows "claim_pending_transactions_for_ledger_post P older stale (Some limit) env w =
    (let n1 = p_clock P (w_tick w); t = Suc (w_tick w);
         rows1 = snd (reclaim_stmt n1 (max (num_seconds stale) 1) env (db_transactions (w_db w)));
         batch = claim_batch_stmt (p_constraint_error P) (p_clock P t) (p_locked P t)
                   (max (num_seconds older) 1) limit env rows1 in
     (case fst batch of Inl e \<Rightarrow> Inl e | Inr rows \<Rightarrow> all_transactions True rows,
      with_rows w (snd batch) (w_tick w + 2)))"
  using assms
  by (simp add: claim_pending_transactions_for_ledger_post_def reclaim_stale_posting_rows_def io_simps Let_def
      tx_update_def tx_try_update_def on_transactions_def with_rows_def split: sum.splits)

definition claimed_row :: "time \<Rightarrow> tx_row \<Rightarrow> tx_row" where
  "claimed_row now r = r\<lparr>r_status := u ''posting'', r_failure_reason := None,
     r_retry_count := r_retry_count r + 1, r_last_attempted_at := Some now, r_updated_at := now\<rparr>"

lemma update_returning_picks:
  assumes "r \<in> set rows" "q r"
  shows "f r \<in> set (map f (filter q rows)) \<and> f r \<in> set (map (\<lambda>r. if q r then f r else r) rows) \<and>
    set (map f (filter q rows)) \<subseteq> set (map (\<lambda>r. if q r then f r else r) rows)"
  using assms by auto

text \<open>A due row of a table that fits the batch is claimed.\<close>

lemma claim_batch_takes:
  assumes r: "r \<in> set rows" "claimable now older env r" and free: "\<forall>i. \<not> locked i"
    and fits: "int (length rows) \<le> sint limit" and counts: "\<forall>x \<in> set rows. r_retry_count x \<noteq> 0x7FFFFFFF"
  shows "\<exists>claimed rows'. claim_batch_stmt err now locked older limit env rows = (Inr claimed, rows') \<and>
    claimed_row now r \<in> set claimed \<and> claimed_row now r \<in> set rows' \<and> set claimed \<subseteq> set rows'"
proof -
  let ?cands = "filter (\<lambda>r. \<not> locked (r_id r)) (sort_key r_created_at (filter (claimable now older env) rows))"
  let ?q = "\<lambda>r. r_id r \<in> set (map r_id ?cands)"
  have "length ?cands \<le> length (filter (claimable now older env) rows)"
    by (rule order_trans [OF length_filter_le]) simp
  also have "\<dots> \<le> length rows" by (rule length_filter_le)
  finally have "int (length ?cands) \<le> sint limit" using fits by linarith
  then have lim: "sql_limit err limit ?cands = Inr ?cands" by (simp add: sql_limit_def)
  have noex: "\<not> list_ex (\<lambda>r. r_retry_count r = 0x7FFFFFFF) ?cands"
    using counts by (auto simp: list_ex_iff)
  have batch: "claim_batch_stmt err now locked older limit env rows =
      (Inr (map (claimed_row now) (filter ?q rows)), map (\<lambda>r. if ?q r then claimed_row now r else r) rows)"
    unfolding claim_batch_stmt_def lim using noex
    by (simp add: update_returning_def Let_def claimed_row_def [abs_def])
  have "r \<in> set ?cands" using r free by simp
  then have q: "?q r" by force
  show ?thesis
    unfolding batch using update_returning_picks [of r rows ?q "claimed_row now", OF r(1) q] by blast
qed

lemma claimed_row_simps [simp]:
  "r_id (claimed_row n r) = r_id r" "r_status (claimed_row n r) = u ''posting''"
  "r_updated_at (claimed_row n r) = n" "r_retry_count (claimed_row n r) = r_retry_count r + 1"
  by (simp_all add: claimed_row_def)

text \<open>
  Recovery: a transaction whose owner died while posting is claimed again by the first poll after
  its lease has run out, provided it is due, not locked, its attempt counter is not exhausted, and the
  table fits the batch of 200; the claim counts one more attempt.
\<close>

theorem stale_posting_recovered:
  assumes "undisturbed P" "tx_table_ok (db_transactions (w_db w))" "r \<in> set (db_transactions (w_db w))"
    and "r_status r = u ''posting''"
    and "r_updated_at r < p_clock P (w_tick w) - max (num_seconds stale) 1 * 1000000"
    and "r_created_at r < p_clock P (Suc (w_tick w)) - 2 * 1000000"
    and "case r_next_retry_at r of None \<Rightarrow> True | Some at \<Rightarrow> at \<le> p_clock P (Suc (w_tick w))"
    and "\<forall>i. \<not> p_locked P (Suc (w_tick w)) i" "length (db_transactions (w_db w)) \<le> 200"
    and "\<forall>x \<in> set (db_transactions (w_db w)). r_retry_count x \<noteq> 0x7FFFFFFF"
  shows "\<exists>ts w' r'. claim_pending_transactions_for_ledger_post P (seconds 2) stale (Some 200) None w = (Inr ts, w') \<and>
    r_id r \<in> tx_id ` set ts \<and> r' \<in> set (db_transactions (w_db w')) \<and> r_id r' = r_id r \<and>
    r_status r' = u ''posting'' \<and> r_updated_at r' = p_clock P (Suc (w_tick w)) \<and>
    sint (r_retry_count r') = sint (r_retry_count r) + 1"
proof -
  let ?n1 = "p_clock P (w_tick w)" and ?n2 = "p_clock P (Suc (w_tick w))" and ?rows = "db_transactions (w_db w)"
  let ?rows1 = "snd (reclaim_stmt ?n1 (max (num_seconds stale) 1) None ?rows)"
  let ?r1 = "r\<lparr>r_status := u ''pending'', r_failure_reason := Some (u ''posting lease expired; reclaimed for retry''),
              r_updated_at := ?n1\<rparr>"
  have two: "max (num_seconds (seconds 2)) 1 = 2" by (simp add: num_seconds_seconds)
  have r1: "?r1 \<in> set ?rows1" using assms(3-5) by (force simp: reclaim_stmt_def)
  have due: "claimable ?n2 2 None ?r1" using assms(6,7) by (simp add: claimable_def)
  have fits: "int (length ?rows1) \<le> sint (200 :: 64 word)" using assms(9) by (simp add: reclaim_stmt_def)
  have counts: "\<forall>x \<in> set ?rows1. r_retry_count x \<noteq> 0x7FFFFFFF" using assms(10) by (auto simp: reclaim_stmt_def)
  obtain claimed rows' where batch: "claim_batch_stmt (p_constraint_error P) ?n2 (p_locked P (Suc (w_tick w))) 2 200
      None ?rows1 = (Inr claimed, rows')"
    and in_claimed: "claimed_row ?n2 ?r1 \<in> set claimed" and in_rows: "claimed_row ?n2 ?r1 \<in> set rows'"
    and sub: "set claimed \<subseteq> set rows'"
    using claim_batch_takes [OF r1 due assms(8) fits counts] by blast
  have "tx_table_ok rows'"
    using tx_step_ok [OF tx_step.claim_batch tx_step_ok [OF tx_step.reclaim assms(2)]] batch by (metis snd_conv)
  then have "list_all tx_row_ok claimed" using sub by (auto simp: tx_table_ok_def list_all_iff)
  then obtain ts where ts: "all_transactions True claimed = Inr ts" "map tx_id ts = map r_id claimed"
    using all_transactions_ok by blast
  have "r_id (claimed_row ?n2 ?r1) \<in> set (map tx_id ts)" unfolding ts(2) set_map using in_claimed by (rule imageI)
  then have "r_id r \<in> tx_id ` set ts" by simp
  moreover have "sint (r_retry_count r + 1) = sint (r_retry_count r) + 1"
    using assms(3,10) by (intro sint_incr) blast
  ultimately show ?thesis
    unfolding claim_pending_eval [OF assms(1)] Let_def two batch using in_rows
    by (intro exI [of _ ts] exI [of _ "with_rows w rows' (w_tick w + 2)"] exI [of _ "claimed_row ?n2 ?r1"])
      (simp add: ts(1))
qed

theorem stale_posting_recovered_witness:
  "\<exists>ts w'. claim_pending_transactions_for_ledger_post demo_params (seconds 2) (seconds 600) (Some 200) None two_hours_later
      = (Inr ts, w') \<and> 50 \<in> tx_id ` set ts"
proof -
  have table: "tx_table_ok (db_transactions (w_db two_hours_later))"
    by (simp add: tx_table_ok_def tx_row_ok_def stuck_def demo_row_def new_tx_row_def two_hours_later_def)
  have locked: "\<not> p_locked demo_params n i" for n i by (simp add: demo_params_def)
  show ?thesis
    using stale_posting_recovered [OF demo_params_ok(1) table, of stuck "seconds 600"]
    by (auto simp: num_seconds_seconds locked)
qed

end
