(* ===== verification/Audit_Emit.thy ===== *)
theory Audit_Emit
  imports Service_Runs
begin

text \<open>
  Audit events of the accounts service (\<^verbatim>\<open>accounts-service/src/audit_emit.rs\<close>): what the event of
  a mutation says, and its emission. The code spawns the emission as a task of its own; the model
  runs it at the place of the spawn, where it takes its clock and UUID readings and appends the
  event to the requests sent (\<open>w_audit\<close>). The answer of the audit service is only logged, so it
  does not appear. The peer of a request is the printed form of its IP address.
\<close>

definition environment_from_headers :: "headers \<Rightarrow> str" where
  "environment_from_headers hs = unwrap_or (trimmed_header hs (u ''x-environment'')) (u ''unknown'')"

definition correlation_from_headers :: "'x params \<Rightarrow> headers \<Rightarrow> ('x, str) svc" where
  "correlation_from_headers P hs =
     (case trimmed_header hs (u ''x-correlation-id'') of
        Some s \<Rightarrow> ret s
      | None \<Rightarrow> bind_io (new_v4 P) (\<lambda>i. ret (p_uuid_str P i)))"

definition client_ip :: "headers \<Rightarrow> str \<Rightarrow> str" where
  "client_ip hs peer =
     (case header_str hs (u ''x-forwarded-for'') of
        None \<Rightarrow> peer
      | Some s \<Rightarrow> let ip = trim (hd (split_on 44 s)) in if ip = [] then peer else ip)"

definition user_agent :: "headers \<Rightarrow> str" where
  "user_agent hs = unwrap_or (header_str hs (u ''user-agent'')) []"

definition http_status_for_error :: "app_error \<Rightarrow> nat" where
  "http_status_for_error e = status_code e"

definition outcome_from_status :: "nat \<Rightarrow> int" where
  "outcome_from_status status =
     (if status \<ge> 500 then outcome_i32 Outcome_Server_Error
      else if status \<ge> 400 then outcome_i32 Outcome_Client_Error
      else outcome_i32 Outcome_Success)"

text \<open>The ellipsis is one character, U+2026.\<close>

definition truncate_reason :: "str \<Rightarrow> str" where
  "truncate_reason s = (let out = take 500 s in if length s > 500 then out @ [0x2026] else out)"

text \<open>In milliseconds; the deadline is set on the request, whose expiry is one of the failures that
  are only logged.\<close>

definition audit_append_deadline :: "'x params \<Rightarrow> 64 word" where
  "audit_append_deadline P =
     (case p_env_var P (u ''AUDIT_APPEND_TIMEOUT_MS'') of
        None \<Rightarrow> 5000
      | Some s \<Rightarrow>
         (case parse_u64 (trim s) of
            None \<Rightarrow> 5000
          | Some ms \<Rightarrow> if 0 < ms \<and> ms \<le> 120000 then ms else 5000))"

definition append_with_client :: "audit_event \<Rightarrow> ('x, unit) svc" where
  "append_with_client ev = (\<lambda>w. (Inr (), w\<lparr>w_audit := w_audit w @ [ev], w_tick := Suc (w_tick w)\<rparr>))"

definition emit_accounts_mutation ::
  "'x params \<Rightarrow> headers \<Rightarrow> str \<Rightarrow> str \<Rightarrow> str \<Rightarrow> str \<Rightarrow> uuid \<Rightarrow> actor_type \<Rightarrow> str \<Rightarrow> str list
   \<Rightarrow> str \<Rightarrow> uuid \<Rightarrow> nat \<Rightarrow> str option \<Rightarrow> (str \<times> str) list \<Rightarrow> ('x, unit) svc" where
  "emit_accounts_mutation P hs peer verb path action organization_id actor_type actor_id actor_roles
       target_type target_id http_status reason metadata =
     (if \<not> p_audit_client P then ret () else
      let outcome = outcome_from_status http_status in
      bind_io (new_v4 P) (\<lambda>req_id.
      bind_io (utc_now P) (\<lambda>now.
      bind_io (correlation_from_headers P hs) (\<lambda>correlation_id.
      append_with_client
        \<lparr>ev_occurred_at = p_rfc3339 P now,
         ev_schema_version = 1,
         ev_source_service = u ''accounts'',
         ev_organization_id = p_uuid_str P organization_id,
         ev_environment = environment_from_headers hs,
         ev_actor = Some \<lparr>am_type = actor_type_i32 actor_type, am_id = actor_id, am_roles = actor_roles\<rparr>,
         ev_action = action,
         ev_target = Some \<lparr>tm_type = target_type, tm_id = p_uuid_str P target_id\<rparr>,
         ev_outcome = outcome,
         ev_request = Some \<lparr>rc_id = p_uuid_str P req_id, rc_method = verb, rc_path = path,
                           rc_ip = client_ip hs peer, rc_user_agent = user_agent hs\<rparr>,
         ev_correlation_id = correlation_id,
         ev_reason = reason,
         ev_metadata = metadata\<rparr>))))"

definition spawn_audit_emit ::
  "'x params \<Rightarrow> headers \<Rightarrow> str \<Rightarrow> str \<Rightarrow> str \<Rightarrow> str \<Rightarrow> uuid \<Rightarrow> actor_type \<Rightarrow> str \<Rightarrow> str list
   \<Rightarrow> str \<Rightarrow> uuid \<Rightarrow> nat \<Rightarrow> str option \<Rightarrow> (str \<times> str) list \<Rightarrow> ('x, unit) svc" where
  "spawn_audit_emit = emit_accounts_mutation"

section \<open>Facts\<close>

lemma length_truncate_reason: "length (truncate_reason s) \<le> 501"
  by (simp add: truncate_reason_def Let_def)

lemma truncate_reason_short: "length s \<le> 500 \<Longrightarrow> truncate_reason s = s"
  by (simp add: truncate_reason_def Let_def)

lemma audit_append_deadline_range:
  "0 < audit_append_deadline P \<and> audit_append_deadline P \<le> 120000"
  by (simp add: audit_append_deadline_def split: option.split)

lemma outcome_from_status_server: "outcome_from_status n = outcome_i32 Outcome_Server_Error \<longleftrightarrow> 500 \<le> n"
  by (simp add: outcome_from_status_def)

text \<open>Emission in one equation: nothing but the tick and one event, nothing at all without a client.\<close>

definition emission :: "headers \<Rightarrow> str \<Rightarrow> str \<Rightarrow> nat \<Rightarrow> str option \<Rightarrow> (str \<times> str) list \<Rightarrow> audit_event \<Rightarrow> bool" where
  "emission hs action org status reason metadata ev \<longleftrightarrow>
     ev_source_service ev = u ''accounts'' \<and> ev_schema_version ev = 1 \<and> ev_action ev = action \<and>
     ev_organization_id ev = org \<and> ev_environment ev = environment_from_headers hs \<and>
     ev_outcome ev = outcome_from_status status \<and> ev_reason ev = reason \<and> ev_metadata ev = metadata"

lemma emit_run:
  "\<exists>n new. emit_accounts_mutation P hs peer verb path action org at ai roles tt ti status reason metadata w =
     (Inr (), w\<lparr>w_audit := w_audit w @ new, w_tick := n\<rparr>) \<and> w_tick w \<le> n \<and>
     (if p_audit_client P
      then \<exists>ev. new = [ev] \<and> emission hs action (p_uuid_str P org) status reason metadata ev
      else new = [] \<and> n = w_tick w)"
proof (cases "p_audit_client P")
  case False
  then show ?thesis by (intro exI [of _ "w_tick w"] exI [of _ "[]"]) (simp add: emit_accounts_mutation_def io_simps)
next
  case True
  show ?thesis
  proof (cases "trimmed_header hs (u ''x-correlation-id'')")
    case None
    let ?ev = "\<lambda>ev. \<exists>n. emit_accounts_mutation P hs peer verb path action org at ai roles tt ti status reason metadata w =
      (Inr (), w\<lparr>w_audit := w_audit w @ [ev], w_tick := n\<rparr>) \<and> w_tick w \<le> n \<and>
      emission hs action (p_uuid_str P org) status reason metadata ev"
    have "\<exists>ev. ?ev ev"
      using True None
      by (simp add: emit_accounts_mutation_def correlation_from_headers_def append_with_client_def
          new_v4_def utc_now_def io_simps emission_def Let_def) fastforce
    with True show ?thesis by fastforce
  next
    case (Some s)
    let ?ev = "\<lambda>ev. \<exists>n. emit_accounts_mutation P hs peer verb path action org at ai roles tt ti status reason metadata w =
      (Inr (), w\<lparr>w_audit := w_audit w @ [ev], w_tick := n\<rparr>) \<and> w_tick w \<le> n \<and>
      emission hs action (p_uuid_str P org) status reason metadata ev"
    have "\<exists>ev. ?ev ev"
      using True Some
      by (simp add: emit_accounts_mutation_def correlation_from_headers_def append_with_client_def
          new_v4_def utc_now_def io_simps emission_def Let_def) fastforce
    with True show ?thesis by fastforce
  qed
qed

lemma emit_at_most_one:
  obtains n new where
    "emit_accounts_mutation P hs peer verb path action org at ai roles tt ti status reason metadata w =
       (Inr (), w\<lparr>w_audit := w_audit w @ new, w_tick := n\<rparr>)"
    "length new \<le> 1" "\<And>ev. ev \<in> set new \<Longrightarrow> emission hs action (p_uuid_str P org) status reason metadata ev"
proof -
  obtain n new where run:
    "emit_accounts_mutation P hs peer verb path action org at ai roles tt ti status reason metadata w =
       (Inr (), w\<lparr>w_audit := w_audit w @ new, w_tick := n\<rparr>)"
    and new: "if p_audit_client P
      then \<exists>ev. new = [ev] \<and> emission hs action (p_uuid_str P org) status reason metadata ev
      else new = [] \<and> n = w_tick w"
    using emit_run [of P hs peer verb path action org at ai roles tt ti status reason metadata w] by blast
  have "length new \<le> 1" "\<And>ev. ev \<in> set new \<Longrightarrow> emission hs action (p_uuid_str P org) status reason metadata ev"
    using new by (auto split: if_splits)
  with run show thesis by (rule that)
qed

lemma emit_frame [simp]:
  "fst (emit_accounts_mutation P hs peer verb path action org at ai roles tt ti status reason metadata w) = Inr ()"
  "w_db (snd (emit_accounts_mutation P hs peer verb path action org at ai roles tt ti status reason metadata w)) = w_db w"
  "w_posts (snd (emit_accounts_mutation P hs peer verb path action org at ai roles tt ti status reason metadata w)) = w_posts w"
  "w_ext (snd (emit_accounts_mutation P hs peer verb path action org at ai roles tt ti status reason metadata w)) = w_ext w"
  using emit_run [of P hs peer verb path action org at ai roles tt ti status reason metadata w] by auto

end
