(* ===== verification/Handlers.thy ===== *)
theory Handlers
  imports Audit_Emit
begin

text \<open>
  The HTTP handlers of the accounts service: \<^verbatim>\<open>accounts-service/src/handlers/accounts.rs\<close> and
  \<^verbatim>\<open>handlers/transactions.rs\<close>. A handler is its body after axum's extractors: path, query
  and JSON arguments are values. Its result is the error or the status with the body. The product
  analytics and tracing calls have no effect on the service and are left out; audit events are not.
  Where a handler walks a hash set, the order is an argument.
\<close>

section \<open>Headers and small conversions\<close>

text \<open>The text ends in an apostrophe, code point 39.\<close>

definition environment_required :: app_error where
  "environment_required =
     Validation (u ''X-Environment header is required and must be 'sandbox' or 'production'' @ [39])"

definition extract_environment :: "headers \<Rightarrow> app_error + str" where
  "extract_environment hs =
     (case map_option (\<lambda>s. to_lower (trim s)) (header_str hs (u ''x-environment'')) of
        Some env \<Rightarrow>
          if env = u ''sandbox'' \<or> env = u ''production'' then Inr env else Inl environment_required
      | None \<Rightarrow> Inl environment_required)"

definition negate_ledger_balance_for_display :: "str \<Rightarrow> 64 word" where
  "negate_ledger_balance_for_display balance =
     (let trimmed = trim balance in
      if trimmed = [] then 0
      else (case parse_i64 trimmed of None \<Rightarrow> 0 | Some n \<Rightarrow> - n))"

definition extract_api_key :: "headers \<Rightarrow> str option" where
  "extract_api_key hs = trimmed_header hs (u ''x-api-key'')"

definition idempotency_header :: "headers \<Rightarrow> app_error + str" where
  "idempotency_header hs = ok_or (trimmed_header hs (u ''Idempotency-Key'')) idempotency_key_required"

primrec mutation_http_status :: "transaction_status \<Rightarrow> nat" where
  "mutation_http_status Posted = 200"
| "mutation_http_status Pending = 202"
| "mutation_http_status Posting = 202"
| "mutation_http_status Failed = 500"

text \<open>\<^verbatim>\<open>format!("{status:?}")\<close>\<close>

primrec account_status_debug :: "account_status \<Rightarrow> str" where
  "account_status_debug Active = u ''Active''"
| "account_status_debug Suspended = u ''Suspended''"
| "account_status_debug Closed = u ''Closed''"

section \<open>Accounts\<close>

definition create_account ::
  "'x params \<Rightarrow> headers \<Rightarrow> str \<Rightarrow> create_account_request \<Rightarrow> ('x, nat \<times> account_response) svc" where
  "create_account P hs peer request =
     (let path = u ''/api/v1/accounts'' in
      bind_io (lift_result (extract_environment hs)) (\<lambda>environment.
      bind_io (lift_result (ok_or (extract_api_key hs)
        (Validation (u ''X-API-Key header is required for account creation'')))) (\<lambda>api_key.
      if trim (car_email request) = [] then throw (Validation (u ''email is required'')) else
      if trim (car_first_name request) = [] then throw (Validation (u ''first_name is required'')) else
      if trim (car_last_name request) = [] then throw (Validation (u ''last_name is required'')) else
      bind_io (try_io (resolve_account_user_for_api_key P api_key environment (car_email request)
        (car_first_name request) (car_last_name request))) (\<lambda>resolved_user.
      let org_on_err = (case resolved_user of Inr r \<Rightarrow> Some (rau_business_id r) | Inl _ \<Rightarrow> None) in
      bind_io
        (case resolved_user of
           Inr r \<Rightarrow> try_io (create_account_for_existing_user P request (rau_business_id r) environment
                      (rau_user_id r))
         | Inl e \<Rightarrow> ret (Inl e)) (\<lambda>account_res.
      bind_io
        (case account_res of
           Inr account \<Rightarrow>
             (case acc_organization_id account of
                None \<Rightarrow> ret ()
              | Some org \<Rightarrow>
                  let (actor_type, actor_id) =
                    (case acc_admin_user_id account of
                       Some admin \<Rightarrow> (Actor_User, p_uuid_str P admin)
                     | None \<Rightarrow>
                        (case acc_user_id account of
                           Some uid \<Rightarrow> (Actor_User, p_uuid_str P uid)
                         | None \<Rightarrow> (Actor_Anonymous, [])))
                  in spawn_audit_emit P hs peer (u ''POST'') path (u ''accounts.account.create'') org
                       actor_type actor_id [] (u ''account'') (acc_id account) 201 None [])
         | Inl e \<Rightarrow>
             (case org_on_err of
                None \<Rightarrow> ret ()
              | Some org \<Rightarrow>
                  spawn_audit_emit P hs peer (u ''POST'') path (u ''accounts.account.create'') org
                    Actor_Anonymous [] [] (u ''account'') 0 (http_status_for_error e)
                    (Some (truncate_reason (error_to_string e)))
                    [(u ''http_status'', show_nat (http_status_for_error e))])) (\<lambda>_.
      bind_io (lift_result account_res) (\<lambda>account.
      ret (201, account_response_from account))))))))"

definition display_balance :: "'x params \<Rightarrow> uuid \<Rightarrow> str \<Rightarrow> uuid \<Rightarrow> str \<Rightarrow> ('x, 64 word) svc" where
  "display_balance P org env account_id currency =
     bind_io (try_io (get_account_balance P org env account_id currency)) (\<lambda>r.
     ret (case r of Inr b \<Rightarrow> negate_ledger_balance_for_display b | Inl _ \<Rightarrow> 0))"

definition get_account_handler :: "'x params \<Rightarrow> headers \<Rightarrow> uuid \<Rightarrow> ('x, nat \<times> account_response) svc" where
  "get_account_handler P hs i =
     bind_io (lift_result (extract_environment hs)) (\<lambda>environment.
     bind_io (get_account P i environment) (\<lambda>account.
     let resp = account_response_from account in
     case acc_organization_id account of
       Some org_id \<Rightarrow>
         bind_io (display_balance P org_id environment i (unwrap_or (acc_currency account) (u ''USD'')))
           (\<lambda>balance. ret (200, with_balance resp balance))
     | None \<Rightarrow> ret (200, with_balance resp 0)))"

record list_accounts_query =
  laq_user_id :: "uuid option"
  laq_organization_id :: "uuid option"
  laq_admin_user_id :: "uuid option"
  laq_page :: "32 word option"
  laq_per_page :: "32 word option"

definition page_arg :: "32 word option \<Rightarrow> 32 word" where
  "page_arg p = max (unwrap_or p 1) 1"

definition per_page_arg :: "32 word option \<Rightarrow> 32 word" where
  "per_page_arg p = min (max (unwrap_or p 10) 1) 100"

definition list_accounts ::
  "'x params \<Rightarrow> headers \<Rightarrow> list_accounts_query \<Rightarrow> ('x, nat \<times> paginated_accounts_response) svc" where
  "list_accounts P hs q =
     bind_io (lift_result (extract_environment hs)) (\<lambda>environment.
     let page = page_arg (laq_page q); per_page = per_page_arg (laq_per_page q) in
     bind_io
       (case laq_user_id q of
          Some i \<Rightarrow> get_accounts_by_user_paginated P i environment page per_page
        | None \<Rightarrow>
           (case laq_organization_id q of
              Some i \<Rightarrow> get_accounts_by_organization_paginated P i environment page per_page
            | None \<Rightarrow>
               (case laq_admin_user_id q of
                  Some i \<Rightarrow> get_accounts_by_admin_paginated P i environment page per_page
                | None \<Rightarrow> throw (Validation
                    (u ''One of user_id, organization_id, or admin_user_id query parameter is required'')))))
       (\<lambda>result. ret (200, result)))"

text \<open>\<^verbatim>\<open>let org = match &result ...\<close>: on an error the account is read again for its organization.\<close>

definition organization_of :: "'x params \<Rightarrow> uuid \<Rightarrow> str \<Rightarrow> app_error + uuid option \<Rightarrow> ('x, uuid option) svc" where
  "organization_of P i env r =
     (case r of
        Inr org \<Rightarrow> ret org
      | Inl _ \<Rightarrow>
          bind_io (try_io (get_account P i env)) (\<lambda>a.
          ret (case a of Inr account \<Rightarrow> acc_organization_id account | Inl _ \<Rightarrow> None)))"

definition audit_status_change ::
  "'x params \<Rightarrow> headers \<Rightarrow> str \<Rightarrow> str \<Rightarrow> str \<Rightarrow> uuid \<Rightarrow> str \<Rightarrow> str \<Rightarrow> app_error + account \<Rightarrow> ('x, unit) svc" where
  "audit_status_change P hs peer verb action i env new_status result =
     (let path = u ''/api/v1/accounts/'' @ p_uuid_str P i in
      bind_io (organization_of P i env (map_sum id acc_organization_id result)) (\<lambda>org.
      case org of
        None \<Rightarrow> ret ()
      | Some org \<Rightarrow>
          let meta = (case result of
                Inr _ \<Rightarrow> [(u ''new_status'', new_status)]
              | Inl e \<Rightarrow> [(u ''http_status'', show_nat (http_status_for_error e))]);
              http_st = (case result of Inr _ \<Rightarrow> 200 | Inl e \<Rightarrow> http_status_for_error e);
              reason = (case result of Inr _ \<Rightarrow> None | Inl e \<Rightarrow> Some (truncate_reason (error_to_string e)))
          in spawn_audit_emit P hs peer verb path action org Actor_Anonymous [] [] (u ''account'') i
               http_st reason meta))"

definition update_account_status_handler ::
  "'x params \<Rightarrow> headers \<Rightarrow> str \<Rightarrow> uuid \<Rightarrow> account_status option \<Rightarrow> ('x, nat \<times> account_response) svc" where
  "update_account_status_handler P hs peer i request_status =
     bind_io (lift_result (extract_environment hs)) (\<lambda>environment.
     bind_io (lift_result (ok_or request_status (Validation (u ''status field is required'')))) (\<lambda>status.
     bind_io (try_io (update_account_status P i environment status)) (\<lambda>result.
     bind_io (audit_status_change P hs peer (u ''PATCH'') (u ''accounts.account.update_status'') i environment
       (account_status_debug status) result) (\<lambda>_.
     bind_io (lift_result result) (\<lambda>account.
     ret (200, account_response_from account))))))"

definition close_account_handler ::
  "'x params \<Rightarrow> headers \<Rightarrow> str \<Rightarrow> uuid \<Rightarrow> ('x, nat \<times> account_response) svc" where
  "close_account_handler P hs peer i =
     bind_io (lift_result (extract_environment hs)) (\<lambda>environment.
     bind_io (try_io (close_account P i environment)) (\<lambda>result.
     bind_io (audit_status_change P hs peer (u ''DELETE'') (u ''accounts.account.close'') i environment
       (u ''closed'') result) (\<lambda>_.
     bind_io (lift_result result) (\<lambda>account.
     ret (200, account_response_from account)))))"

section \<open>Money movement\<close>

record deposit_request =
  dr_amount :: "64 word"
  dr_description :: "str option"
  dr_external_recipient_id :: "str option"
  dr_reference_id :: "uuid option"

record withdraw_request =
  wr_amount :: "64 word"
  wr_description :: "str option"
  wr_external_recipient_id :: "str option"
  wr_reference_id :: "uuid option"

record transfer_request =
  trq_to_account_id :: uuid
  trq_amount :: "64 word"
  trq_description :: "str option"
  trq_external_recipient_id :: "str option"
  trq_reference_id :: "uuid option"

record money_response =
  mr_account :: account_response
  mr_transaction :: account_transaction_response

record transfer_response =
  tfr_from_account :: account_response
  tfr_to_account :: account_response
  tfr_transaction :: account_transaction_response

definition amount_not_positive :: app_error where
  "amount_not_positive = Validation (u ''Amount must be greater than zero'')"

text \<open>The event of a money movement; \<open>result\<close> is the organization of the account read and the
  status of the transaction, or the error.\<close>

definition audit_money ::
  "'x params \<Rightarrow> headers \<Rightarrow> str \<Rightarrow> str \<Rightarrow> str \<Rightarrow> uuid \<Rightarrow> str \<Rightarrow> app_error + uuid option \<times> transaction_status
   \<Rightarrow> ('x, unit) svc" where
  "audit_money P hs peer path action i env result =
     bind_io (organization_of P i env (map_sum id fst result)) (\<lambda>org.
     case org of
       None \<Rightarrow> ret ()
     | Some org \<Rightarrow>
         let meta = (u ''idempotency_key_present'', u ''true'') #
               (case result of
                  Inr _ \<Rightarrow> []
                | Inl e \<Rightarrow> [(u ''http_status'', show_nat (http_status_for_error e))]);
             http_st = (case result of Inr r \<Rightarrow> mutation_http_status (snd r) | Inl e \<Rightarrow> http_status_for_error e);
             reason = (case result of Inr _ \<Rightarrow> None | Inl e \<Rightarrow> Some (truncate_reason (error_to_string e)))
         in spawn_audit_emit P hs peer (u ''POST'') path action org Actor_Anonymous [] [] (u ''account'') i
              http_st reason meta)"

text \<open>The account with its balance as the ledger reports it, 0 where it does not answer.\<close>

definition account_with_balance :: "'x params \<Rightarrow> str \<Rightarrow> uuid \<Rightarrow> account \<Rightarrow> ('x, account_response) svc" where
  "account_with_balance P env i account =
     (let account_resp = account_response_from account in
      case acc_organization_id account of
        Some org_id \<Rightarrow>
          bind_io (display_balance P org_id env i (unwrap_or (acc_currency account) (u ''USD'')))
            (\<lambda>balance. ret (with_balance account_resp balance))
      | None \<Rightarrow> ret account_resp)"

definition deposit ::
  "'x params \<Rightarrow> uuid \<Rightarrow> headers \<Rightarrow> str \<Rightarrow> deposit_request \<Rightarrow> ('x, nat \<times> money_response) svc" where
  "deposit P i hs peer request =
     bind_io (lift_result (extract_environment hs)) (\<lambda>environment.
     let path = u ''/api/v1/accounts/'' @ p_uuid_str P i @ u ''/deposit'' in
     bind_io (lift_result (idempotency_header hs)) (\<lambda>idempotency_key.
     if sint (dr_amount request) \<le> 0 then throw amount_not_positive else
     let correlation_id = trimmed_header hs (u ''x-correlation-id'') in
     bind_io (try_io (deposit_with_idempotency P i environment (dr_amount request) idempotency_key correlation_id
       (dr_description request) (dr_external_recipient_id request) (dr_reference_id request))) (\<lambda>result.
     bind_io (audit_money P hs peer path (u ''accounts.money.deposit'') i environment
       (map_sum id (\<lambda>(account, t). (acc_organization_id account, tx_status t)) result)) (\<lambda>_.
     bind_io (lift_result result) (\<lambda>(account, t).
     bind_io (account_with_balance P environment i account) (\<lambda>account_resp.
     ret (mutation_http_status (tx_status t),
          \<lparr>mr_account = account_resp,
           mr_transaction = for_mutation_response (p_uuid_str P) t (ar_balance account_resp)\<rparr>)))))))"

definition withdraw ::
  "'x params \<Rightarrow> uuid \<Rightarrow> headers \<Rightarrow> str \<Rightarrow> withdraw_request \<Rightarrow> ('x, nat \<times> money_response) svc" where
  "withdraw P i hs peer request =
     bind_io (lift_result (extract_environment hs)) (\<lambda>environment.
     let path = u ''/api/v1/accounts/'' @ p_uuid_str P i @ u ''/withdraw'' in
     bind_io (lift_result (idempotency_header hs)) (\<lambda>idempotency_key.
     if sint (wr_amount request) \<le> 0 then throw amount_not_positive else
     let correlation_id = trimmed_header hs (u ''x-correlation-id'') in
     bind_io (try_io (withdraw_with_idempotency P i environment (wr_amount request) idempotency_key correlation_id
       (wr_description request) (wr_external_recipient_id request) (wr_reference_id request))) (\<lambda>result.
     bind_io (audit_money P hs peer path (u ''accounts.money.withdraw'') i environment
       (map_sum id (\<lambda>(account, t). (acc_organization_id account, tx_status t)) result)) (\<lambda>_.
     bind_io (lift_result result) (\<lambda>(account, t).
     bind_io (account_with_balance P environment i account) (\<lambda>account_resp.
     ret (mutation_http_status (tx_status t),
          \<lparr>mr_account = account_resp,
           mr_transaction = for_mutation_response (p_uuid_str P) t (ar_balance account_resp)\<rparr>)))))))"

text \<open>Both balances in one call when the organizations agree; the service has refused the request
  otherwise, but the handler distinguishes all the cases.\<close>

definition transfer_balances ::
  "'x params \<Rightarrow> str \<Rightarrow> account \<Rightarrow> account \<Rightarrow> ('x, account_response \<times> account_response) svc" where
  "transfer_balances P env from_account to_account =
     (let from_resp = account_response_from from_account; to_resp = account_response_from to_account in
      case (acc_organization_id from_account, acc_organization_id to_account) of
        (Some from_org, Some to_org) \<Rightarrow>
          if from_org = to_org then
            bind_io (try_io (get_account_balances P from_org env (acc_id from_account) (acc_id to_account)
              (unwrap_or (acc_currency from_account) (u ''USD'')))) (\<lambda>r.
            ret (case r of
               Inr (from_balance, to_balance) \<Rightarrow>
                 (with_balance from_resp (negate_ledger_balance_for_display from_balance),
                  with_balance to_resp (negate_ledger_balance_for_display to_balance))
             | Inl _ \<Rightarrow> (with_balance from_resp 0, with_balance to_resp 0)))
          else ret (from_resp, to_resp)
      | (Some org_id, None) \<Rightarrow>
          bind_io (display_balance P org_id env (acc_id from_account)
            (unwrap_or (acc_currency from_account) (u ''USD''))) (\<lambda>b.
          ret (with_balance from_resp b, to_resp))
      | (None, Some org_id) \<Rightarrow>
          bind_io (display_balance P org_id env (acc_id to_account)
            (unwrap_or (acc_currency to_account) (u ''USD''))) (\<lambda>b.
          ret (from_resp, with_balance to_resp b))
      | (None, None) \<Rightarrow> ret (from_resp, to_resp))"

definition transfer ::
  "'x params \<Rightarrow> uuid \<Rightarrow> headers \<Rightarrow> str \<Rightarrow> transfer_request \<Rightarrow> ('x, nat \<times> transfer_response) svc" where
  "transfer P from_id hs peer request =
     bind_io (lift_result (extract_environment hs)) (\<lambda>environment.
     let path = u ''/api/v1/accounts/'' @ p_uuid_str P from_id @ u ''/transfer'' in
     bind_io (lift_result (idempotency_header hs)) (\<lambda>idempotency_key.
     if sint (trq_amount request) \<le> 0 then throw amount_not_positive else
     let correlation_id = trimmed_header hs (u ''x-correlation-id'') in
     bind_io (try_io (transfer_with_idempotency P from_id environment (trq_to_account_id request)
       (trq_amount request) idempotency_key correlation_id
       (trq_description request) (trq_external_recipient_id request) (trq_reference_id request))) (\<lambda>result.
     bind_io (audit_money P hs peer path (u ''accounts.money.transfer'') from_id environment
       (map_sum id (\<lambda>(from_account, to_account, t). (acc_organization_id from_account, tx_status t)) result)) (\<lambda>_.
     bind_io (lift_result result) (\<lambda>(from_account, to_account, t).
     bind_io (transfer_balances P environment from_account to_account) (\<lambda>(from_resp, to_resp).
     ret (mutation_http_status (tx_status t),
          \<lparr>tfr_from_account = from_resp, tfr_to_account = to_resp,
           tfr_transaction = for_mutation_response (p_uuid_str P) t (ar_balance from_resp)\<rparr>)))))))"

section \<open>Transactions\<close>

record list_transactions_query =
  ltq_limit :: "64 word option"
  ltq_organization_id :: "uuid option"
  ltq_page :: "32 word option"
  ltq_per_page :: "32 word option"

definition get_transaction_handler ::
  "'x params \<Rightarrow> headers \<Rightarrow> uuid \<Rightarrow> ('x, nat \<times> account_transaction_response) svc" where
  "get_transaction_handler P hs i =
     bind_io (lift_result (extract_environment hs)) (\<lambda>environment.
     bind_io (get_transaction P i environment) (\<lambda>t.
     bind_io (display_balance P (tx_organization_id t) environment (tx_from_account_id t) (tx_currency t)) (\<lambda>balance_after.
     ret (200, for_mutation_response (p_uuid_str P) t balance_after))))"

definition balance_delta_for_account :: "transaction \<Rightarrow> uuid \<Rightarrow> 64 word" where
  "balance_delta_for_account t account_id =
     (if tx_status t \<noteq> Posted then 0 else
      (case tx_transaction_kind t of
         Deposit \<Rightarrow> tx_amount t
       | Withdraw \<Rightarrow> - tx_amount t
       | Transfer \<Rightarrow> if tx_from_account_id t = account_id then - tx_amount t else tx_amount t))"

text \<open>\<^verbatim>\<open>balance_after_per_tx\<close>: the running balance before each subtraction.\<close>

fun balance_after_per_tx :: "uuid \<Rightarrow> 64 word \<Rightarrow> transaction list \<Rightarrow> 64 word list" where
  "balance_after_per_tx account_id running [] = []"
| "balance_after_per_tx account_id running (t # ts) =
     running # balance_after_per_tx account_id (running - balance_delta_for_account t account_id) ts"

text \<open>\<^verbatim>\<open>xs.get(i)\<close>\<close>

definition get_at :: "'a list \<Rightarrow> nat \<Rightarrow> 'a option" where
  "get_at xs i = (if i < length xs then Some (xs ! i) else None)"

definition list_account_transactions ::
  "'x params \<Rightarrow> headers \<Rightarrow> uuid \<Rightarrow> list_transactions_query
   \<Rightarrow> ('x, nat \<times> account_transaction_response list) svc" where
  "list_account_transactions P hs account_id query =
     bind_io (lift_result (extract_environment hs)) (\<lambda>environment.
     bind_io (get_account_transactions P account_id environment (ltq_limit query)) (\<lambda>transactions.
     bind_io
       (case transactions of
          t # _ \<Rightarrow> display_balance P (tx_organization_id t) environment account_id (tx_currency t)
        | [] \<Rightarrow> ret 0) (\<lambda>current_balance.
     let balances = balance_after_per_tx account_id current_balance transactions in
     ret (200, map (\<lambda>(i, t). from_transaction (p_uuid_str P) t account_id (unwrap_or (get_at balances i) 0))
                 (enumerate 0 transactions)))))"

definition unique_accounts :: "transaction list \<Rightarrow> (uuid \<times> str) list" where
  "unique_accounts ts =
     foldl (\<lambda>acc t.
       (let acc = List.insert (tx_from_account_id t, tx_currency t) acc in
        if tx_transaction_kind t = Transfer then List.insert (tx_to_account_id t, tx_currency t) acc
        else acc)) [] ts"

fun fetch_balances ::
  "'x params \<Rightarrow> uuid \<Rightarrow> str \<Rightarrow> (uuid \<times> str) list \<Rightarrow> (uuid \<rightharpoonup> 64 word) \<Rightarrow> ('x, uuid \<rightharpoonup> 64 word) svc" where
  "fetch_balances P org env [] cache = ret cache"
| "fetch_balances P org env ((account_id, currency) # rest) cache =
     (if cache account_id \<noteq> None then fetch_balances P org env rest cache
      else bind_io (display_balance P org env account_id currency) (\<lambda>balance.
           fetch_balances P org env rest (cache(account_id \<mapsto> balance))))"

text \<open>One step of the walk back: the pair of balances shown, and the cache after it.\<close>

definition walk_back ::
  "(uuid \<rightharpoonup> 64 word) \<Rightarrow> transaction \<Rightarrow> (64 word \<times> 64 word option) \<times> (uuid \<rightharpoonup> 64 word)" where
  "walk_back cache t =
     (let from_ba = unwrap_or (cache (tx_from_account_id t)) 0;
          to_ba = (if tx_transaction_kind t = Transfer
                   then Some (unwrap_or (cache (tx_to_account_id t)) 0) else None);
          delta_from = balance_delta_for_account t (tx_from_account_id t);
          cache1 = cache(tx_from_account_id t \<mapsto> from_ba - delta_from);
          cache2 = (if tx_transaction_kind t = Transfer
                    then let to_delta = balance_delta_for_account t (tx_to_account_id t);
                             to_curr = unwrap_or (cache1 (tx_to_account_id t)) 0
                         in cache1(tx_to_account_id t \<mapsto> to_curr - to_delta)
                    else cache1)
      in ((from_ba, to_ba), cache2))"

fun walk_all ::
  "(uuid \<rightharpoonup> 64 word) \<Rightarrow> transaction list \<Rightarrow> (64 word \<times> 64 word option) list" where
  "walk_all cache [] = []"
| "walk_all cache (t # ts) = (let (pair, cache') = walk_back cache t in pair # walk_all cache' ts)"

text \<open>A transfer is shown twice, once per side.\<close>

definition rows_of ::
  "(uuid \<Rightarrow> str) \<Rightarrow> transaction \<Rightarrow> 64 word \<times> 64 word option \<Rightarrow> account_transaction_response list" where
  "rows_of us t pair =
     (case tx_transaction_kind t of
        Transfer \<Rightarrow>
          from_transaction us t (tx_from_account_id t) (fst pair) #
          (case snd pair of Some ba \<Rightarrow> [from_transaction us t (tx_to_account_id t) ba] | None \<Rightarrow> [])
      | _ \<Rightarrow> [for_mutation_response us t (fst pair)])"

definition list_transactions ::
  "'x params \<Rightarrow> ((uuid \<times> str) list \<Rightarrow> (uuid \<times> str) list) \<Rightarrow> headers \<Rightarrow> list_transactions_query
   \<Rightarrow> ('x, nat \<times> paginated_transactions_response) svc" where
  "list_transactions P set_order hs query =
     bind_io (lift_result (extract_environment hs)) (\<lambda>environment.
     bind_io (lift_result (ok_or (ltq_organization_id query)
       (Validation (u ''organization_id query parameter is required'')))) (\<lambda>organization_id.
     let page = page_arg (ltq_page query); per_page = per_page_arg (ltq_per_page query) in
     bind_io (get_transactions_by_organization_paginated P organization_id environment page per_page)
       (\<lambda>(transactions, pagination).
     bind_io (fetch_balances P organization_id environment (set_order (unique_accounts transactions)) Map.empty)
       (\<lambda>balance_cache.
     let pairs = walk_all balance_cache transactions in
     ret (200,
       \<lparr>ptr_data = concat (map (\<lambda>(i, t). rows_of (p_uuid_str P) t (unwrap_or (get_at pairs i) (0, None)))
                            (enumerate 0 transactions)),
        ptr_pagination = pagination\<rparr>)))))"

end
