(* ===== verification/Account_Spec.thy ===== *)
theory Account_Spec
  imports Money
begin

text \<open>
  The properties of account creation, account status and the paginated listings. The listings
  interpret the locale \<open>paged_listing\<close> of \<open>Pagination\<close>, once for transactions and once for
  accounts, so that the facts on pages come from there.
\<close>

section \<open>Creation\<close>

definition one_per_type :: "account_row list \<Rightarrow> bool" where
  "one_per_type rows \<longleftrightarrow> (\<forall>user type env. count_by_user_and_type_stmt user type env rows \<le> 1)"

lemma generate_attempts_frame:
  assumes "undisturbed P"
  shows "w_db (snd (generate_attempts P n k w)) = w_db w"
proof (induction k arbitrary: w)
  case (Suc k)
  show ?case
    using Suc assms
    by (auto simp: io_simps random_account_number_with_luhn_def account_number_exists_def acc_read_def Let_def
        split: sum.splits prod.splits)
qed (simp add: io_simps)

lemma generate_attempts_fresh:
  assumes "undisturbed P" "generate_attempts P n k w = (Inr number, w')"
  shows "number \<notin> a_account_number ` set (db_accounts (w_db w))"
  using assms(2)
proof (induction k arbitrary: w)
  case (Suc k)
  obtain r1 w1 where rand: "random_account_number_with_luhn P n w = (r1, w1)" by fastforce
  with Suc.prems obtain cand where r1: "r1 = Inr cand" by (cases r1) (auto simp: io_simps)
  have db: "w_db w1 = w_db w"
    using rand by (auto simp: random_account_number_with_luhn_def io_simps Let_def split: sum.splits)
  let ?taken = "number_exists_stmt cand (db_accounts (w_db w1))"
  have ex: "account_number_exists P cand w1 = (Inr ?taken, w1\<lparr>w_tick := Suc (w_tick w1)\<rparr>)"
    using assms(1) by (simp add: account_number_exists_def acc_read_def)
  show ?case
  proof (cases ?taken)
    case True
    with Suc.prems rand r1 ex have "generate_attempts P n k (w1\<lparr>w_tick := Suc (w_tick w1)\<rparr>) = (Inr number, w')"
      by (simp add: io_simps)
    from Suc.IH [OF this] show ?thesis by (simp add: db)
  next
    case False
    with Suc.prems rand r1 ex have "number = cand" by (simp add: io_simps)
    with False show ?thesis by (auto simp: number_exists_stmt_def list_ex_iff db)
  qed
qed (simp add: io_simps)

text \<open>The three outcomes of account creation on an undisturbed database.\<close>

text \<open>The insertion that ends a creation, with the number already drawn.\<close>

lemma create_row_run:
  assumes P: "undisturbed P" and run: "create_account_row P number ty (Some org) env user cur w = (res, w')"
  shows "(\<exists>a row n i. res = Inr a \<and> row = new_account_row n i number ty (Some org) env user cur \<and>
      row_to_account row = Inr a \<and> acc_user_id a = Some user \<and> acc_account_type a = ty \<and> acc_status a = Some Active \<and>
      acc_organization_id a = Some org \<and> acc_environment a = Some env \<and> acc_account_number a = number \<and>
      a_id row \<notin> a_id ` set (db_accounts (w_db w)) \<and>
      w_db w' = (w_db w)\<lparr>db_accounts := db_accounts (w_db w) @ [row]\<rparr>)
    \<or> is_err res \<and> w_db w' = w_db w"
proof -
  let ?row = "new_account_row (p_clock P (w_tick w)) (p_uuid P (w_tick w)) number ty (Some org) env user cur"
  obtain a where a: "row_to_account ?row = Inr a" "acc_user_id a = Some user" "acc_account_type a = ty"
    "acc_status a = Some Active" "acc_organization_id a = Some org" "acc_environment a = Some env"
    "acc_account_number a = number"
    using parse_account_status_str [of Active] by (simp add: row_to_account_def new_account_row_def)
  show ?thesis
  proof (cases rule: insert_account_cases [of ?row "db_accounts (w_db w)" "p_constraint_error P"])
    case inserted
    have "res = Inr a" "w_db w' = (w_db w)\<lparr>db_accounts := db_accounts (w_db w) @ [?row]\<rparr>"
      using inserted(4) run a(1) P
      by (simp_all add: create_account_row_def io_simps acc_try_update_def one_account_def fetch_one_def) auto
    with a inserted(2) show ?thesis by blast
  next
    case rejected
    with run P show ?thesis by (auto simp: create_account_row_def io_simps acc_try_update_def)
  qed
qed

lemma create_account_run:
  assumes P: "undisturbed P" and run: "create_account_for_existing_user P req org env user w = (res, w')"
  shows "(\<exists>a. res = Inr a \<and> count_by_user_and_type_stmt user (car_account_type req) env (db_accounts (w_db w)) = 0 \<and>
      acc_user_id a = Some user \<and> acc_account_type a = car_account_type req \<and> acc_status a = Some Active \<and>
      acc_organization_id a = Some org \<and> acc_environment a = Some env \<and>
      (\<exists>row. row_to_account row = Inr a \<and> a_id row \<notin> a_id ` set (db_accounts (w_db w)) \<and>
         (\<exists>n i. row = new_account_row n i (acc_account_number a) (car_account_type req) (Some org) env user (car_currency req)) \<and>
         w_db w' = (w_db w)\<lparr>db_accounts := db_accounts (w_db w) @ [row]\<rparr>))
    \<or> is_err res \<and> w_db w' = w_db w"
proof (cases "1 \<le> count_by_user_and_type_stmt user (car_account_type req) env (db_accounts (w_db w))")
  case True
  with run P show ?thesis
    by (auto simp: create_account_for_existing_user_def count_by_user_and_type_def acc_read_def io_simps)
next
  case False
  let ?w1 = "w\<lparr>w_tick := Suc (w_tick w)\<rparr>"
  obtain r2 w2 where gen: "generate_attempts P 12 10 ?w1 = (r2, w2)" by fastforce
  have db2: "w_db w2 = w_db w" using generate_attempts_frame [OF P, of 12 10 ?w1] gen by simp
  show ?thesis
  proof (cases r2)
    case (Inl e)
    with run P False gen db2 show ?thesis
      by (auto simp: create_account_for_existing_user_def count_by_user_and_type_def acc_read_def io_simps
          generate_account_number_def)
  next
    case (Inr number)
    have "create_account_for_existing_user P req org env user w =
        create_account_row P number (car_account_type req) (Some org) env user (car_currency req) w2"
      using P False gen Inr
      by (simp add: create_account_for_existing_user_def count_by_user_and_type_def acc_read_def io_simps
          generate_account_number_def)
    with run have "create_account_row P number (car_account_type req) (Some org) env user (car_currency req) w2 = (res, w')"
      by simp
    from create_row_run [OF P this] show ?thesis
    proof (elim disjE exE conjE)
      fix a row n i
      assume a: "res = Inr a" "row = new_account_row n i number (car_account_type req) (Some org) env user (car_currency req)"
        "row_to_account row = Inr a" "acc_user_id a = Some user" "acc_account_type a = car_account_type req"
        "acc_status a = Some Active" "acc_organization_id a = Some org" "acc_environment a = Some env"
        and number: "acc_account_number a = number"
        and fresh: "a_id row \<notin> a_id ` set (db_accounts (w_db w2))"
          "w_db w' = (w_db w2)\<lparr>db_accounts := db_accounts (w_db w2) @ [row]\<rparr>"
      have "count_by_user_and_type_stmt user (car_account_type req) env (db_accounts (w_db w)) = 0" using False by simp
      with a fresh show ?thesis unfolding db2 number [symmetric] by blast
    qed (simp add: db2)
  qed
qed

lemma create_account_eval:
  assumes "undisturbed P" "create_account_for_existing_user P req org env user w = (res, w')"
  shows "(\<exists>a. res = Inr a \<and> count_by_user_and_type_stmt user (car_account_type req) env (db_accounts (w_db w)) = 0 \<and>
      acc_user_id a = Some user \<and> acc_account_type a = car_account_type req \<and> acc_status a = Some Active \<and>
      acc_organization_id a = Some org \<and> acc_environment a = Some env \<and>
      (\<exists>n i. db_accounts (w_db w') = db_accounts (w_db w) @
         [new_account_row n i (acc_account_number a) (car_account_type req) (Some org) env user (car_currency req)]))
    \<or> is_err res \<and> w_db w' = w_db w"
  using create_account_run [OF assms] by fastforce

text \<open>
  On a database no other process touches meanwhile, account creation keeps the rule of at most one
  account per user, type and environment; it succeeds only for a user without one, and then adds
  exactly one active account; when it fails the table is unchanged.
\<close>

theorem one_account_per_type:
  assumes "undisturbed P" "one_per_type (db_accounts (w_db w))"
    and "create_account_for_existing_user P req org env user w = (res, w')"
  shows "one_per_type (db_accounts (w_db w')) \<and>
    (case res of
       Inl _ \<Rightarrow> w_db w' = w_db w
     | Inr a \<Rightarrow> acc_status a = Some Active \<and>
         count_by_user_and_type_stmt user (car_account_type req) env (db_accounts (w_db w)) = 0 \<and>
         count_by_user_and_type_stmt user (car_account_type req) env (db_accounts (w_db w')) = 1 \<and>
         length (db_accounts (w_db w')) = Suc (length (db_accounts (w_db w))))"
  using create_account_eval [OF assms(1,3)]
proof
  assume "is_err res \<and> w_db w' = w_db w"
  then show ?thesis using assms(2) by (cases res) simp_all
next
  assume "\<exists>a. res = Inr a \<and> count_by_user_and_type_stmt user (car_account_type req) env (db_accounts (w_db w)) = 0 \<and>
      acc_user_id a = Some user \<and> acc_account_type a = car_account_type req \<and> acc_status a = Some Active \<and>
      acc_organization_id a = Some org \<and> acc_environment a = Some env \<and>
      (\<exists>n i. db_accounts (w_db w') = db_accounts (w_db w) @
         [new_account_row n i (acc_account_number a) (car_account_type req) (Some org) env user (car_currency req)])"
  then show ?thesis
    using assms(2) by (auto simp: one_per_type_def count_by_user_and_type_stmt_def new_account_row_def)
qed

definition demo_request :: create_account_request where
  "demo_request = \<lparr>car_account_type = Saving, car_currency = u ''USD'', car_email = u ''a@b'',
     car_first_name = u ''A'', car_last_name = u ''B''\<rparr>"

definition empty_world :: "nat world" where
  "empty_world = demo_world\<lparr>w_db := \<lparr>db_accounts = [], db_transactions = []\<rparr>\<rparr>"

theorem one_account_per_type_witness:
  "one_per_type (db_accounts (w_db (snd (create_account_for_existing_user demo_params demo_request 7 (u ''sandbox'') 9 empty_world))))"
proof -
  obtain res w' where run:
    "create_account_for_existing_user demo_params demo_request 7 (u ''sandbox'') 9 empty_world = (res, w')" by fastforce
  have "one_per_type (db_accounts (w_db empty_world))"
    by (simp add: one_per_type_def count_by_user_and_type_stmt_def empty_world_def)
  from one_account_per_type [OF demo_params_ok(1) this run] run show ?thesis by simp
qed

section \<open>Status\<close>

text \<open>
  A closed account stays closed: any request to give it another status fails with a business
  error and changes nothing, closing it again succeeds, and on an account that is not closed the
  requested status is the one stored.
\<close>

theorem closed_stays_closed:
  assumes "undisturbed P" "account_table_ok (db_accounts (w_db w))" "account_at (w_db w) i env acc"
  shows "(acc_status acc = Some Closed \<and> status \<noteq> Closed \<longrightarrow>
      (\<exists>n. update_account_status P i env status w =
         (Inl (BusinessLogic (u ''Cannot reactivate a closed account'')), w\<lparr>w_tick := n\<rparr>))) \<and>
    (acc_status acc \<noteq> Some Closed \<or> status = Closed \<longrightarrow>
      (\<exists>acc' w'. update_account_status P i env status w = (Inr acc', w') \<and> acc_status acc' = Some status \<and>
         acc_id acc' = i \<and> account_at (w_db w') i env acc'))"
proof -
  have find: "find_account_by_id P i env w = (Inr acc, w\<lparr>w_tick := Suc (w_tick w)\<rparr>)"
    using assms(1,3) by (rule find_account_eval)
  obtain a rest where a: "filter (\<lambda>a. a_id a = i \<and> a_environment a = env) (db_accounts (w_db w)) = a # rest"
    "row_to_account a = Inr acc"
    using assms(3) unfolding account_at_def select_account_id_stmt_def by blast
  let ?n = "p_clock P (Suc (w_tick w))"
  let ?f = "\<lambda>a. a\<lparr>a_status := account_status_str status, a_updated_at := ?n\<rparr>"
  have conv: "row_to_account (?f a) = Inr (acc\<lparr>acc_status := Some status, acc_updated_at := Some ?n\<rparr>)"
    using a(2) by (auto simp: row_to_account_def split: option.splits)
  have "a \<in> set (filter (\<lambda>a. a_id a = i \<and> a_environment a = env) (db_accounts (w_db w)))" unfolding a(1) by simp
  then have id: "acc_id acc = i" using row_to_account_InrD(1) [OF a(2)] by simp
  have upd: "filter (\<lambda>a. a_id a = i \<and> a_environment a = env)
      (map (\<lambda>a. if a_id a = i \<and> a_environment a = env then ?f a else a) rows) =
      map ?f (filter (\<lambda>a. a_id a = i \<and> a_environment a = env) rows)" for rows
    by (induction rows) auto
  have after: "filter (\<lambda>a. a_id a = i \<and> a_environment a = env)
      (map (\<lambda>a. if a_id a = i \<and> a_environment a = env then ?f a else a) (db_accounts (w_db w))) = ?f a # map ?f rest"
    unfolding upd a(1) by simp
  show ?thesis
    using assms(1) find a(1) conv id after
    by (auto simp: update_account_status_def io_simps set_account_status_def acc_update_def one_account_def
        fetch_one_def set_account_status_stmt_def account_at_def select_account_id_stmt_def)
qed

definition closed_world :: "nat world" where
  "closed_world = demo_world\<lparr>w_db :=
     \<lparr>db_accounts = [(demo_account 1 ''100'')\<lparr>a_status := u ''closed''\<rparr>], db_transactions = []\<rparr>\<rparr>"

theorem closed_stays_closed_witness:
  "\<exists>n. update_account_status demo_params 1 (u ''sandbox'') Active closed_world =
     (Inl (BusinessLogic (u ''Cannot reactivate a closed account'')), closed_world\<lparr>w_tick := n\<rparr>)"
proof -
  have table: "account_table_ok (db_accounts (w_db closed_world))"
    by (simp add: account_table_ok_def account_row_ok_def demo_account_def closed_world_def)
  have at: "account_at (w_db closed_world) 1 (u ''sandbox'') ((demo_acc 1 ''100'')\<lparr>acc_status := Some Closed\<rparr>)"
    by (simp add: account_at_def closed_world_def select_account_id_stmt_def
      demo_account_def row_to_account_def parse_account_type_def parse_account_status_def demo_acc_def)
  show ?thesis using closed_stays_closed [OF demo_params_ok(1) table at, of Active] by simp
qed

section \<open>Checks without a lock\<close>

lemma numeral_10_eq: "(10 :: nat) = Suc 9"
  by simp

text \<open>A concurrent request for the same account: between the count (tick 0) and the insert (tick 3)
  another process inserts the row, at tick 2.\<close>

definition rival_row :: account_row where
  "rival_row = new_account_row 0 77 (u ''999'') Saving (Some 7) (u ''sandbox'') 9 (u ''USD'')"

definition racing_params :: "nat params" where
  "racing_params = demo_params\<lparr>p_other := (\<lambda>t d. if t = 2
     then d\<lparr>db_accounts := snd (insert_account_stmt (u ''constraint'') rival_row (db_accounts d))\<rparr> else d)\<rparr>"

lemma racing_facts:
  "p_fault racing_params t = No_Fault" "p_luhn racing_params x = Some 48" "p_uuid racing_params t = of_nat (100 + t)"
  "p_other racing_params t d = (if t = 2 then d\<lparr>db_accounts :=
      snd (insert_account_stmt (u ''constraint'') rival_row (db_accounts d))\<rparr> else d)"
  "insert_account_stmt e rival_row [] = (Inr [rival_row], [rival_row])"
  "db_accounts (w_db empty_world) = []" "w_tick empty_world = 0"
  by (simp_all add: racing_params_def demo_params_def insert_account_stmt_def rival_row_def new_account_row_def
      account_row_ok_def empty_world_def demo_world_def)

definition racing_number :: str where
  "racing_number = base_number (p_digits racing_params (Suc 0)) 11 @ [48]"

lemma racing_number_new: "length racing_number = 12" "racing_number \<noteq> u ''999''"
proof -
  show len: "length racing_number = 12"
    using base_number_digits [of 11 "p_digits racing_params (Suc 0)"] by (simp add: racing_number_def)
  show "racing_number \<noteq> u ''999''"
  proof
    assume "racing_number = u ''999''"
    with len have "length (u ''999'') = 12" by simp
    then show False by (simp only: length_u) simp
  qed
qed

text \<open>The number is drawn and found free while the rival is inserted.\<close>

lemma racing_generate:
  "generate_account_number racing_params 12 (empty_world\<lparr>w_tick := 1\<rparr>) = (Inr racing_number,
     empty_world\<lparr>w_db := (w_db empty_world)\<lparr>db_accounts := [rival_row]\<rparr>, w_tick := 3\<rparr>)"
proof -
  have rand: "random_account_number_with_luhn racing_params 12 (empty_world\<lparr>w_tick := 1\<rparr>) =
      (Inr racing_number, empty_world\<lparr>w_tick := 2\<rparr>)"
    by (simp add: random_account_number_with_luhn_def io_simps Let_def clamp_account_number_length_def racing_facts
        racing_number_def)
  have "account_number_exists racing_params racing_number (empty_world\<lparr>w_tick := 2\<rparr>) = (Inr False,
      empty_world\<lparr>w_db := (w_db empty_world)\<lparr>db_accounts := [rival_row]\<rparr>, w_tick := 3\<rparr>)"
    using racing_number_new(2)
    by (simp add: account_number_exists_def db_query_def Let_def acc_read_def racing_facts number_exists_stmt_def)
      (simp add: rival_row_def new_account_row_def)
  with rand show ?thesis
    unfolding generate_account_number_def
    by (subst numeral_10_eq) (simp only: generate_attempts.simps bind_io_apply prod.case sum.case simp_thms if_True ret_apply)
qed

text \<open>
  The count that enforces one account per type is not protected against a concurrent request: in a
  lawful interleaving both inserts succeed, the request returns an account, and the user ends with
  two accounts of the type.
\<close>

theorem duplicate_account_race:
  "lawful racing_params \<and>
   (\<exists>a w'. create_account_for_existing_user racing_params demo_request 7 (u ''sandbox'') 9 empty_world = (Inr a, w') \<and>
      count_by_user_and_type_stmt 9 Saving (u ''sandbox'') (db_accounts (w_db empty_world)) = 0 \<and>
      count_by_user_and_type_stmt 9 Saving (u ''sandbox'') (db_accounts (w_db w')) = 2)"
proof
  show "lawful racing_params"
    unfolding lawful_def racing_params_def
    by (auto simp: demo_params_def intro!: r_into_rtranclp db_step.accounts account_step.insert)
next
  have count: "count_by_user_and_type racing_params 9 (car_account_type demo_request) (u ''sandbox'') empty_world =
      (Inr 0, empty_world\<lparr>w_tick := 1\<rparr>)"
    by (simp add: count_by_user_and_type_def db_query_def Let_def acc_read_def racing_facts count_by_user_and_type_stmt_def)
  let ?w3 = "empty_world\<lparr>w_db := (w_db empty_world)\<lparr>db_accounts := [rival_row]\<rparr>, w_tick := 3\<rparr>"
  let ?row = "new_account_row (p_clock racing_params 3) 103 racing_number Saving (Some 7) (u ''sandbox'') 9 (u ''USD'')"
  let ?w4 = "empty_world\<lparr>w_db := (w_db empty_world)\<lparr>db_accounts := [rival_row, ?row]\<rparr>, w_tick := 4\<rparr>"
  have ins: "insert_account_stmt e ?row [rival_row] = (Inr [?row], [rival_row, ?row])" for e
    using racing_number_new by (simp add: insert_account_stmt_def rival_row_def new_account_row_def account_row_ok_def)
  obtain a where conv: "row_to_account ?row = Inr a"
    by (simp add: row_to_account_def new_account_row_def parse_account_type_def parse_account_status_def)
  have create: "create_account_row racing_params racing_number Saving (Some 7) (u ''sandbox'') 9 (u ''USD'') ?w3 = (Inr a, ?w4)"
    by (simp add: create_account_row_def io_simps db_query_def Let_def acc_try_update_def ins
        one_account_def fetch_one_def conv racing_facts)
  have "create_account_for_existing_user racing_params demo_request 7 (u ''sandbox'') 9 empty_world = (Inr a, ?w4)"
    using count racing_generate create by (simp add: create_account_for_existing_user_def io_simps demo_request_def)
  then show "\<exists>a w'. create_account_for_existing_user racing_params demo_request 7 (u ''sandbox'') 9 empty_world = (Inr a, w') \<and>
      count_by_user_and_type_stmt 9 Saving (u ''sandbox'') (db_accounts (w_db empty_world)) = 0 \<and>
      count_by_user_and_type_stmt 9 Saving (u ''sandbox'') (db_accounts (w_db w')) = 2"
    by (intro exI conjI, assumption)
      (simp_all add: racing_facts count_by_user_and_type_stmt_def rival_row_def new_account_row_def)
qed

section \<open>Account numbers\<close>

text \<open>
  C20. Whatever happens to the database meanwhile, a generated account number has between 10 and 16
  digits (the requested length clamped), no leading zero, and as last digit the Luhn check digit of
  the rest; and when no other process interferes no existing account has it.
\<close>

theorem account_number_valid:
  assumes "\<And>s c. p_luhn P s = Some c \<Longrightarrow> is_digit c" "generate_account_number P n w = (Inr number, w')"
  shows "length number = clamp_account_number_length n \<and> 10 \<le> length number \<and> length number \<le> 16 \<and>
    list_all is_digit number \<and> number ! 0 \<noteq> 48 \<and> p_luhn P (butlast number) = Some (last number) \<and>
    (undisturbed P \<longrightarrow> number \<notin> a_account_number ` set (db_accounts (w_db w)))"
  using generate_attempts_shape [of P, OF assms(1) assms(2) [unfolded generate_account_number_def]]
    generate_attempts_fresh [of P n 10 w number w'] assms(2) clamp_range [of n]
  by (auto simp: generate_account_number_def)

theorem account_number_valid_witness:
  "\<exists>number w'. generate_account_number demo_params 12 empty_world = (Inr number, w') \<and> length number = 12 \<and>
     number ! 0 \<noteq> 48"
proof -
  have luhn: "\<And>s c. p_luhn demo_params s = Some c \<Longrightarrow> is_digit c" by (simp add: demo_params_def is_digit_def)
  let ?s = "base_number (p_digits demo_params 0) 11 @ [48]"
  have pars: "p_fault demo_params t = No_Fault" "p_luhn demo_params x = Some 48" "p_other demo_params t = id" for t x
    by (simp_all add: demo_params_def)
  have empty: "db_accounts (w_db empty_world) = []" "w_tick empty_world = 0" by (simp_all add: empty_world_def demo_world_def)
  have rand: "random_account_number_with_luhn demo_params 12 empty_world = (Inr ?s, empty_world\<lparr>w_tick := 1\<rparr>)"
    by (simp add: random_account_number_with_luhn_def io_simps Let_def clamp_account_number_length_def pars empty)
  have exists: "account_number_exists demo_params ?s (empty_world\<lparr>w_tick := 1\<rparr>) =
      (Inr False, empty_world\<lparr>w_tick := 2\<rparr>)"
    by (simp add: account_number_exists_def db_query_def Let_def pars acc_read_def empty number_exists_stmt_def)
  have "generate_account_number demo_params 12 empty_world = (Inr ?s, empty_world\<lparr>w_tick := 2\<rparr>)"
    unfolding generate_account_number_def
    by (subst numeral_10_eq) (simp only: generate_attempts.simps bind_io_apply rand exists prod.case sum.case
        simp_thms if_True ret_apply)
  from account_number_valid [OF luhn this] this show ?thesis
    by (auto simp: clamp_account_number_length_def)
qed

section \<open>Listings\<close>

definition tx_of_row :: "tx_row \<Rightarrow> transaction" where
  "tx_of_row r = projr (row_to_transaction False r)"

definition response_of_row :: "account_row \<Rightarrow> account_response" where
  "response_of_row a = account_response_from (projr (row_to_account a))"

definition tx_listing :: "uuid \<Rightarrow> str \<Rightarrow> db \<Rightarrow> transaction list" where
  "tx_listing org env d = map tx_of_row (org_listing org env (db_transactions d))"

definition tx_page :: "uuid \<Rightarrow> str \<Rightarrow> db \<Rightarrow> 32 word \<Rightarrow> 32 word \<Rightarrow> transaction list" where
  "tx_page org env d page per_page =
     map tx_of_row (limit_offset per_page (page_offset page per_page) (org_listing org env (db_transactions d)))"

definition account_page_listing :: "(account_row \<Rightarrow> bool) \<Rightarrow> str \<Rightarrow> db \<Rightarrow> account_response list" where
  "account_page_listing p env d = map response_of_row (account_listing p env (db_accounts d))"

definition account_page :: "(account_row \<Rightarrow> bool) \<Rightarrow> str \<Rightarrow> db \<Rightarrow> 32 word \<Rightarrow> 32 word \<Rightarrow> account_response list" where
  "account_page p env d page per_page =
     map response_of_row (limit_offset per_page (page_offset page per_page) (account_listing p env (db_accounts d)))"

interpretation tx_pages: paged_listing "tx_page org env" "tx_listing org env" for org env
  by unfold_locales (simp add: tx_page_def tx_listing_def limit_offset_def take_map drop_map)

interpretation account_pages: paged_listing "account_page p env" "account_page_listing p env" for p env
  by unfold_locales (simp add: account_page_def account_page_listing_def limit_offset_def take_map drop_map)

lemma limit_offset_sub: "x \<in> set (limit_offset l off xs) \<Longrightarrow> x \<in> set xs"
  unfolding limit_offset_def by (meson in_set_dropD in_set_takeD)

text \<open>The repository functions return exactly these pages.\<close>

lemma tx_page_run:
  assumes "undisturbed P" "db_ok (w_db w)"
  shows "find_tx_by_organization_id_paginated P org env page per_page w =
    (Inr (tx_page org env (w_db w) page per_page,
          make_pagination page per_page (length (tx_listing org env (w_db w)))), w\<lparr>w_tick := w_tick w + 2\<rparr>)"
proof -
  let ?rows = "limit_offset per_page (page_offset page per_page) (org_listing org env (db_transactions (w_db w)))"
  have "all_transactions False ?rows = Inr (map tx_of_row ?rows)"
    unfolding all_transactions_def
  proof (rule collect_results_ok)
    fix r assume "r \<in> set ?rows"
    then have "r \<in> set (db_transactions (w_db w))" by (auto simp: org_listing_def dest: limit_offset_sub)
    then have "tx_row_ok r" using assms(2) by (auto simp: db_ok_def tx_table_ok_def list_all_iff)
    then show "row_to_transaction False r = Inr (tx_of_row r)"
      using row_to_transaction_ok [of r False] by (auto simp: tx_of_row_def)
  qed
  then show ?thesis
    using assms(1) by (simp add: find_tx_by_organization_id_paginated_def io_simps tx_read_def Let_def
        tx_page_def tx_listing_def)
qed

lemma account_page_run:
  assumes "undisturbed P" "db_ok (w_db w)"
  shows "paginated_accounts P p env page per_page w =
    (Inr \<lparr>par_data = account_page p env (w_db w) page per_page,
          par_pagination = make_pagination page per_page (length (account_page_listing p env (w_db w)))\<rparr>,
     w\<lparr>w_tick := w_tick w + 2\<rparr>)"
proof -
  let ?rows = "limit_offset per_page (page_offset page per_page) (account_listing p env (db_accounts (w_db w)))"
  have "all_accounts ?rows = Inr (map (\<lambda>a. projr (row_to_account a)) ?rows)"
    unfolding all_accounts_def
  proof (rule collect_results_ok)
    fix a assume "a \<in> set ?rows"
    then have "a \<in> set (db_accounts (w_db w))" by (auto simp: account_listing_def dest: limit_offset_sub)
    then have "account_row_ok a" using assms(2) by (auto simp: db_ok_def account_table_ok_def list_all_iff)
    then show "row_to_account a = Inr (projr (row_to_account a))" using row_to_account_ok [of a] by auto
  qed
  then show ?thesis
    using assms(1) by (simp add: paginated_accounts_def io_simps acc_read_def Let_def
        account_page_def account_page_listing_def response_of_row_def)
qed

text \<open>
  C19. Pages put together are the whole: on an unchanging table, pages 1 to n of an organization's
  transactions are exactly its listing, newest first, as soon as n pages are enough and the offsets fit
  in 32 bits; nothing is repeated or skipped, and only rows of that organization and environment occur.
\<close>

theorem transaction_pages_complete:
  assumes "undisturbed P" "db_ok (w_db w)"
    and "n < 2 ^ 32" "n * unat per_page < 2 ^ 32"
    and "length (tx_listing org env (w_db w)) \<le> n * unat per_page"
  shows "concat (map (\<lambda>k. fst (projr (fst (find_tx_by_organization_id_paginated P org env (of_nat (Suc k)) per_page w))))
           [0..<n]) = tx_listing org env (w_db w) \<and>
    (\<forall>t \<in> set (tx_listing org env (w_db w)). tx_organization_id t = org \<and> tx_environment t = Some env)"
proof
  show "concat (map (\<lambda>k. fst (projr (fst (find_tx_by_organization_id_paginated P org env (of_nat (Suc k)) per_page w))))
           [0..<n]) = tx_listing org env (w_db w)"
    unfolding tx_page_run [OF assms(1,2)] using tx_pages.pages_concat [OF assms(3-5)] by simp
  show "\<forall>t \<in> set (tx_listing org env (w_db w)). tx_organization_id t = org \<and> tx_environment t = Some env"
  proof
    fix t assume "t \<in> set (tx_listing org env (w_db w))"
    then obtain r where r: "r \<in> set (db_transactions (w_db w))" "r_organization_id r = org"
      "r_environment r = Some env" "t = tx_of_row r"
      by (auto simp: tx_listing_def org_listing_def)
    then have "tx_row_ok r" using assms(2) by (auto simp: db_ok_def tx_table_ok_def list_all_iff)
    then have "row_to_transaction False r = Inr t"
      using row_to_transaction_ok [of r False] r(4) by (auto simp: tx_of_row_def)
    then show "tx_organization_id t = org \<and> tx_environment t = Some env"
      using row_to_transaction_InrD r(2,3) by metis
  qed
qed

theorem transaction_pages_complete_witness:
  "concat (map (\<lambda>k. fst (projr (fst (find_tx_by_organization_id_paginated demo_params 7 (u ''sandbox'')
     (of_nat (Suc k)) 1 (demo_world_with ''posted''))))) [0..<2]) = tx_listing 7 (u ''sandbox'') (w_db (demo_world_with ''posted''))"
proof -
  have len: "length (tx_listing 7 (u ''sandbox'') (w_db (demo_world_with ''posted''))) \<le> 2 * unat (1 :: 32 word)"
    by (simp add: tx_listing_def org_listing_def demo_world_with_def)
  show ?thesis using transaction_pages_complete [OF demo_params_ok(1) demo_world_ok(3) _ _ len] by simp
qed

text \<open>
  The 32-bit offset wraps: page 42949674 of size 100 starts at row 4, so a client far past the end
  of a listing is served rows of the first page.
\<close>

theorem page_offset_wraps:
  assumes "undisturbed P" "db_ok (w_db w)"
  shows "fst (find_tx_by_organization_id_paginated P org env 42949674 100 w) =
    Inr (take 100 (drop 4 (tx_listing org env (w_db w))),
         make_pagination 42949674 100 (length (tx_listing org env (w_db w))))"
proof -
  have "page_offset 42949674 100 = 4" by (simp add: page_offset_def)
  then have "tx_page org env (w_db w) 42949674 100 = take 100 (drop 4 (tx_listing org env (w_db w)))"
    unfolding tx_pages.fetch_page limit_offset_def by simp
  then show ?thesis by (simp add: tx_page_run [OF assms])
qed

theorem page_offset_wraps_witness:
  "fst (find_tx_by_organization_id_paginated demo_params 7 (u ''sandbox'') 42949674 100 (demo_world_with ''posted'')) =
    Inr ([], make_pagination 42949674 100 1)"
  using page_offset_wraps [OF demo_params_ok(1) demo_world_ok(3), of 7 "u ''sandbox''"]
  by (simp add: tx_listing_def org_listing_def demo_world_with_def demo_row_def new_tx_row_def)

end
