(* ===== verification/Handler_Spec.thy ===== *)
theory Handler_Spec
  imports Handlers Account_Spec
begin

text \<open>
  Properties of the HTTP handlers: the guards that stop a request, the audit event each money
  movement leaves, the status codes, and the balances the listings show. What every run of a service
  function preserves is proved once, in a locale over the external effects.
\<close>

section \<open>Relations every external effect preserves\<close>

text \<open>The assumptions are the five ways the world changes: a statement, the channel being opened, a call
  to a service, a post, and the mere passing of the tick.\<close>

locale effects_preserve = run_preorder R for R :: "'x world \<Rightarrow> 'x world \<Rightarrow> bool" +
  assumes pres_db: "w_tick w \<le> n \<Longrightarrow> R w (w\<lparr>w_db := d, w_tick := n\<rparr>)"
    and pres_channel: "R w (w\<lparr>w_channel := True, w_tick := Suc (w_tick w)\<rparr>)"
    and pres_call: "R w (w\<lparr>w_ext := x, w_tick := Suc (w_tick w)\<rparr>)"
    and pres_post: "R w (w\<lparr>w_ext := x, w_posts := w_posts w @ [req], w_tick := Suc (w_tick w)\<rparr>)"
    and pres_tick: "R w (w\<lparr>w_tick := Suc (w_tick w)\<rparr>)"
begin

lemma effects:
  "keeps R (db_query P q)" "keeps R (db_transaction P q')" "keeps R (connect_channel P)" "keeps R tick"
  "keeps R (send_post P req)" "keeps R (send_balance P breq)" "keeps R (send_balances P bsreq)"
  "keeps R (users_call c f)"
  by (auto simp: db_query_def db_transaction_def connect_channel_def tick_def send_post_def send_balance_def
      send_balances_def users_call_def Let_def
      intro!: keepsI pres_db pres_channel pres_call pres_post pres_tick R_refl
      split: db_fault.split sum.split prod.split connect_result.split)

lemmas composed =
  keeps_bind keeps_try keeps_if keeps_option keeps_sum keeps_for_each keeps_ret keeps_throw keeps_lift

lemma ledger:
  "keeps R (post_transaction P org env src dst a cur i key corr)"
  "keeps R (get_account_balance P org env acc cur)"
  "keeps R (get_account_balances P org env fa ta cur)"
  by (auto simp: post_transaction_def get_account_balance_def get_account_balances_def
      intro!: composed effects split: rpc_reply.split)

lemma repo:
  "keeps R (find_account_by_id P i env)" "keeps R (find_by_idempotency P org env key)"
  "keeps R (find_tx_by_id P i)" "keeps R (try_claim_pending_for_post P i)"
  "keeps R (update_status P i st reason)" "keeps R (count_by_user_and_type P us ty env)"
  "keeps R (create_account_row P n ty oorg env us cur)" "keeps R (set_account_status P i env ast)"
  "keeps R (account_number_exists P n)" "keeps R (find_by_account_id P i lim oenv)"
  "keeps R (find_tx_by_organization_id_paginated P org env pg pp)" "keeps R (paginated_accounts P p env pg pp)"
  by (auto simp: find_account_by_id_def find_by_idempotency_def find_tx_by_id_def
      try_claim_pending_for_post_def update_status_def count_by_user_and_type_def create_account_row_def
      set_account_status_def account_number_exists_def find_by_account_id_def
      find_tx_by_organization_id_paginated_def paginated_accounts_def Let_def intro!: composed effects)

lemma settle: "keeps R (settle P org env src dst a cur corr t)"
  by (auto simp: settle_def resolve_immediate_ledger_post_def Let_def intro!: composed repo ledger
      split: transaction_status.split immediate_ledger_outcome.split)

lemma generate: "keeps R (generate_attempts P n k)"
  by (induction k)
    (auto simp: random_account_number_with_luhn_def Let_def intro!: composed effects repo)

lemma money:
  "keeps R (deposit_with_idempotency P i env a key corr d x r)"
  "keeps R (withdraw_with_idempotency P i env a key corr d x r)"
  "keeps R (transfer_with_idempotency P i env i' a key corr d x r)"
  by (auto simp: deposit_with_idempotency_def withdraw_with_idempotency_def transfer_with_idempotency_def
      check_overdraft_def Let_def intro!: composed effects repo ledger settle)

lemma accounts:
  "keeps R (create_account_for_existing_user P rq org env us)" "keeps R (update_account_status P i env st)"
  "keeps R (get_account P i env)" "keeps R (resolve_account_user_for_api_key P k env em fn ln)"
  "keeps R (get_transaction P i env)" "keeps R (get_account_transactions P i env lim)"
  by (auto simp: create_account_for_existing_user_def update_account_status_def get_account_def
      resolve_account_user_for_api_key_def get_transaction_def get_account_transactions_def
      generate_account_number_def Let_def intro!: composed effects repo generate)

lemma views:
  "keeps R (organization_of P i env res)" "keeps R (display_balance P org env i cur)"
  "keeps R (account_with_balance P env i account)" "keeps R (transfer_balances P env acc1 acc2)"
  by (auto simp: organization_of_def display_balance_def account_with_balance_def transfer_balances_def Let_def
      intro!: composed ledger accounts)

end

definition same_audit :: "'x world \<Rightarrow> 'x world \<Rightarrow> bool" where
  "same_audit w w' \<longleftrightarrow> w_audit w' = w_audit w"

interpretation unaudited: effects_preserve same_audit
  by unfold_locales (simp_all add: same_audit_def)

definition clock_forward :: "'x world \<Rightarrow> 'x world \<Rightarrow> bool" where
  "clock_forward w w' \<longleftrightarrow> w_tick w \<le> w_tick w'"

interpretation forward: effects_preserve clock_forward
  by unfold_locales (simp_all add: clock_forward_def)

section \<open>The audit trail of money movements\<close>

definition response_code :: "app_error + nat \<times> 'a \<Rightarrow> nat" where
  "response_code r = (case r of Inl e \<Rightarrow> response_status e | Inr (code, _) \<Rightarrow> code)"

lemma response_code_simps [simp]:
  "response_code (Inl e) = response_status e" "response_code (Inr (code, b)) = code"
  by (simp_all add: response_code_def)

text \<open>\<open>recorded hs action r w w'\<close>: between \<open>w\<close> and \<open>w'\<close> at most one event was sent, one that says
  what the response \<open>r\<close> says.\<close>

definition recorded :: "headers \<Rightarrow> str \<Rightarrow> nat \<Rightarrow> 'x world \<Rightarrow> 'x world \<Rightarrow> bool" where
  "recorded hs action code w w' \<longleftrightarrow>
     (\<exists>new. w_audit w' = w_audit w @ new \<and> length new \<le> 1 \<and>
        (\<forall>ev \<in> set new. ev_action ev = action \<and> ev_outcome ev = outcome_from_status code \<and>
           ev_environment ev = environment_from_headers hs \<and> ev_source_service ev = u ''accounts'' \<and>
           (ev_reason ev = None \<longleftrightarrow> map_of (ev_metadata ev) (u ''http_status'') = None) \<and>
           (\<forall>n. map_of (ev_metadata ev) (u ''http_status'') = Some n \<longrightarrow> n = show_nat code)))"

lemma recorded_nothing: "w_audit w' = w_audit w \<Longrightarrow> recorded hs action code w w'"
  by (auto simp: recorded_def)

lemma recorded_around:
  assumes "recorded hs action code a b" "same_audit w a" "same_audit b w'"
  shows "recorded hs action code w w'"
  using assms by (simp add: recorded_def same_audit_def)

lemma audit_money_recorded:
  fixes res :: "app_error + uuid option \<times> transaction_status"
  defines "code \<equiv> (case res of Inl e \<Rightarrow> response_status e | Inr r \<Rightarrow> mutation_http_status (snd r))"
  shows "fst (audit_money P hs peer path action i env res w) = Inr () \<and>
    recorded hs action code w (snd (audit_money P hs peer path action i env res w))"
proof -
  let ?org = "organization_of P i env (map_sum id fst res)"
  obtain org w1 where org: "?org w = (Inr org, w1)"
    by (cases res) (auto simp: organization_of_def io_simps split: prod.splits sum.splits)
  have same: "w_audit w1 = w_audit w"
    using keepsD [OF unaudited.views(1), of w P i env "map_sum id fst res"] org by (simp add: same_audit_def)
  show ?thesis
  proof (cases org)
    case None
    with org same show ?thesis by (simp add: audit_money_def io_simps recorded_nothing)
  next
    case (Some oid)
    let ?meta = "(u ''idempotency_key_present'', u ''true'') #
      (case res of Inr _ \<Rightarrow> [] | Inl e \<Rightarrow> [(u ''http_status'', show_nat (http_status_for_error e))])"
    let ?reason = "case res of Inr _ \<Rightarrow> None | Inl e \<Rightarrow> Some (truncate_reason (error_to_string e))"
    have code: "(case res of Inr r \<Rightarrow> mutation_http_status (snd r) | Inl e \<Rightarrow> http_status_for_error e) = code"
      by (simp add: code_def http_status_for_error_def status_code_response split: sum.split)
    have run: "audit_money P hs peer path action i env res w =
        emit_accounts_mutation P hs peer (u ''POST'') path action oid Actor_Anonymous [] [] (u ''account'') i
          code ?reason ?meta w1"
      using org Some by (simp add: audit_money_def io_simps spawn_audit_emit_def Let_def code)
    obtain n new where emit: "emit_accounts_mutation P hs peer (u ''POST'') path action oid Actor_Anonymous [] []
        (u ''account'') i code ?reason ?meta w1 = (Inr (), w1\<lparr>w_audit := w_audit w1 @ new, w_tick := n\<rparr>)"
      and new: "length new \<le> 1" "\<And>ev. ev \<in> set new \<Longrightarrow> emission hs action (p_uuid_str P oid) code ?reason ?meta ev"
      using emit_at_most_one [of P hs peer "u ''POST''" path action oid Actor_Anonymous "[]" "[]" "u ''account''" i
          code ?reason ?meta w1] by blast
    have "recorded hs action code w (w1\<lparr>w_audit := w_audit w1 @ new, w_tick := n\<rparr>)"
      unfolding recorded_def
    proof (rule exI [of _ new], intro conjI ballI)
      show "length new \<le> 1" by (rule new)
      fix ev assume "ev \<in> set new"
      then have ev: "emission hs action (p_uuid_str P oid) code ?reason ?meta ev" by (rule new)
      then show "ev_action ev = action" "ev_outcome ev = outcome_from_status code"
        "ev_environment ev = environment_from_headers hs" "ev_source_service ev = u ''accounts''"
        by (simp_all add: emission_def)
      show "ev_reason ev = None \<longleftrightarrow> map_of (ev_metadata ev) (u ''http_status'') = None"
        using ev by (cases res) (simp_all add: emission_def)
      show "\<forall>n. map_of (ev_metadata ev) (u ''http_status'') = Some n \<longrightarrow> n = show_nat code"
        using ev by (cases res) (simp_all add: emission_def code_def http_status_for_error_def status_code_response)
    qed (simp add: same)
    with run emit show ?thesis by simp
  qed
qed

text \<open>The shape the three endpoints share.\<close>

definition audited_endpoint ::
  "'x params \<Rightarrow> headers \<Rightarrow> str \<Rightarrow> str \<Rightarrow> str \<Rightarrow> uuid \<Rightarrow> str \<Rightarrow> ('x, 'a) svc
   \<Rightarrow> ('a \<Rightarrow> uuid option \<times> transaction_status) \<Rightarrow> ('a \<Rightarrow> ('x, 'b) svc) \<Rightarrow> ('x, 'b) svc" where
  "audited_endpoint P hs peer path action i env m g k =
     bind_io (try_io m) (\<lambda>result.
     bind_io (audit_money P hs peer path action i env (map_sum id g result)) (\<lambda>_.
     bind_io (lift_result result) k))"

lemma audited_endpoint_run:
  assumes "m w = (res, w1)"
  shows "audited_endpoint P hs peer path action i env m g k w =
    (case res of
       Inl e \<Rightarrow> (Inl e, snd (audit_money P hs peer path action i env (Inl e) w1))
     | Inr x \<Rightarrow> k x (snd (audit_money P hs peer path action i env (Inr (g x)) w1)))"
proof -
  have a: "fst (audit_money P hs peer path action i env r w1) = Inr ()" for r
    using audit_money_recorded by blast
  show ?thesis
    using assms a [of "map_sum id g res"]
    by (cases res) (simp_all add: audited_endpoint_def io_simps prod.case_eq_if)
qed

lemma endpoint_recorded:
  fixes P :: "'x params" and hs :: headers and peer path action env :: str and i :: uuid
  assumes m: "keeps same_audit m" and k: "\<And>x. keeps same_audit (k x)"
    and code: "\<And>x w. \<exists>b. fst (k x w) = Inr (mutation_http_status (snd (g x)), b)"
  defines "X \<equiv> audited_endpoint P hs peer path action i env m g k"
  shows "recorded hs action (response_code (fst (X w))) w (snd (X w))"
proof -
  obtain res w1 where first: "m w = (res, w1)" by (cases "m w") auto
  note run = audited_endpoint_run [of m w res w1 P hs peer path action i env g k, OF first, folded X_def]
  have before: "same_audit w w1" using keepsD [OF m, of w] first by simp
  show ?thesis
  proof (cases res)
    case (Inl e)
    have "recorded hs action (response_status e) w1 (snd (audit_money P hs peer path action i env (Inl e) w1))"
      using audit_money_recorded [of P hs peer path action i env "Inl e" w1] by simp
    with run Inl before show ?thesis by (auto intro: recorded_around simp: same_audit_def)
  next
    case (Inr x)
    let ?w2 = "snd (audit_money P hs peer path action i env (Inr (g x)) w1)"
    have "recorded hs action (mutation_http_status (snd (g x))) w1 ?w2"
      using audit_money_recorded [of P hs peer path action i env "Inr (g x)" w1] by simp
    moreover obtain b where "fst (k x ?w2) = Inr (mutation_http_status (snd (g x)), b)" using code by blast
    moreover have "same_audit ?w2 (snd (k x ?w2))" by (rule keepsD [OF k])
    ultimately show ?thesis using run Inr before by (auto intro: recorded_around)
  qed
qed

text \<open>After its guards each endpoint has that shape.\<close>

abbreviation deposit_body where
  "deposit_body P i hs peer dq env key \<equiv>
     audited_endpoint P hs peer (u ''/api/v1/accounts/'' @ p_uuid_str P i @ u ''/deposit'')
       (u ''accounts.money.deposit'') i env
       (deposit_with_idempotency P i env (dr_amount dq) key (trimmed_header hs (u ''x-correlation-id''))
          (dr_description dq) (dr_external_recipient_id dq) (dr_reference_id dq))
       (\<lambda>(account, t). (acc_organization_id account, tx_status t))
       (\<lambda>(account, t). bind_io (account_with_balance P env i account) (\<lambda>account_resp.
          ret (mutation_http_status (tx_status t),
            \<lparr>mr_account = account_resp,
             mr_transaction = for_mutation_response (p_uuid_str P) t (ar_balance account_resp)\<rparr>)))"

abbreviation withdraw_body where
  "withdraw_body P i hs peer wq env key \<equiv>
     audited_endpoint P hs peer (u ''/api/v1/accounts/'' @ p_uuid_str P i @ u ''/withdraw'')
       (u ''accounts.money.withdraw'') i env
       (withdraw_with_idempotency P i env (wr_amount wq) key (trimmed_header hs (u ''x-correlation-id''))
          (wr_description wq) (wr_external_recipient_id wq) (wr_reference_id wq))
       (\<lambda>(account, t). (acc_organization_id account, tx_status t))
       (\<lambda>(account, t). bind_io (account_with_balance P env i account) (\<lambda>account_resp.
          ret (mutation_http_status (tx_status t),
            \<lparr>mr_account = account_resp,
             mr_transaction = for_mutation_response (p_uuid_str P) t (ar_balance account_resp)\<rparr>)))"

abbreviation transfer_body where
  "transfer_body P i hs peer tq env key \<equiv>
     audited_endpoint P hs peer (u ''/api/v1/accounts/'' @ p_uuid_str P i @ u ''/transfer'')
       (u ''accounts.money.transfer'') i env
       (transfer_with_idempotency P i env (trq_to_account_id tq) (trq_amount tq) key
          (trimmed_header hs (u ''x-correlation-id''))
          (trq_description tq) (trq_external_recipient_id tq) (trq_reference_id tq))
       (\<lambda>(from_account, to_account, t). (acc_organization_id from_account, tx_status t))
       (\<lambda>(from_account, to_account, t). bind_io (transfer_balances P env from_account to_account)
          (\<lambda>(from_resp, to_resp). ret (mutation_http_status (tx_status t),
            \<lparr>tfr_from_account = from_resp, tfr_to_account = to_resp,
             tfr_transaction = for_mutation_response (p_uuid_str P) t (ar_balance from_resp)\<rparr>)))"

lemma endpoint_bodies:
  assumes "extract_environment hs = Inr env" "trimmed_header hs (u ''Idempotency-Key'') = Some key"
  shows "0 < sint (dr_amount dq) \<Longrightarrow> deposit P i hs peer dq w = deposit_body P i hs peer dq env key w"
    and "0 < sint (wr_amount wq) \<Longrightarrow> withdraw P i hs peer wq w = withdraw_body P i hs peer wq env key w"
    and "0 < sint (trq_amount tq) \<Longrightarrow> transfer P i hs peer tq w = transfer_body P i hs peer tq env key w"
  using assms
  by (simp_all add: deposit_def withdraw_def transfer_def idempotency_header_def audited_endpoint_def
      bind_io_apply [of "lift_result (Inr env)"] bind_io_apply [of "lift_result (Inr key)"] lift_result_apply Let_def)

definition acceptable :: "headers \<Rightarrow> 64 word \<Rightarrow> bool" where
  "acceptable hs amount \<longleftrightarrow>
     (\<exists>env. extract_environment hs = Inr env) \<and> trimmed_header hs (u ''Idempotency-Key'') \<noteq> None \<and> 0 < sint amount"

lemma guards_stop:
  shows "\<not> acceptable hs (dr_amount dq) \<Longrightarrow> \<exists>m. deposit P i hs peer dq w = (Inl (Validation m), w)"
    and "\<not> acceptable hs (wr_amount wq) \<Longrightarrow> \<exists>m. withdraw P i hs peer wq w = (Inl (Validation m), w)"
    and "\<not> acceptable hs (trq_amount tq) \<Longrightarrow> \<exists>m. transfer P i hs peer tq w = (Inl (Validation m), w)"
  by (cases "header_str hs (u ''x-environment'')"; cases "trimmed_header hs (u ''Idempotency-Key'')";
      auto simp: acceptable_def deposit_def withdraw_def transfer_def extract_environment_def
        environment_required_def idempotency_header_def idempotency_key_required_def amount_not_positive_def
        io_simps Let_def)+

lemma views_succeed:
  "\<exists>b w'. account_with_balance P env i acc w = (Inr b, w')"
  "\<exists>b b' w'. transfer_balances P env acc acc' w = (Inr (b, b'), w')"
  by (auto simp: account_with_balance_def transfer_balances_def display_balance_def io_simps Let_def
      split: option.split sum.split)

lemma account_view_code:
  "\<exists>b. fst (bind_io (account_with_balance P env i acc) (\<lambda>resp. ret (code, f resp)) w) = Inr (code, b)"
  using views_succeed(1) [of P env i acc w] by (auto simp: io_simps)

lemma transfer_view_code:
  "\<exists>b. fst (bind_io (transfer_balances P env acc acc') (\<lambda>(r1, r2). ret (code, f r1 r2)) w) = Inr (code, b)"
  using views_succeed(2) [of P env acc acc' w] by (auto simp: io_simps)

text \<open>An endpoint whose guards stop it before any effect, and that otherwise is its body.\<close>

lemma endpoint_truthful:
  assumes stop: "\<not> acceptable hs amount \<Longrightarrow> \<exists>m. f w = (Inl (Validation m), w)"
    and body: "\<And>env key. extract_environment hs = Inr env \<Longrightarrow> trimmed_header hs (u ''Idempotency-Key'') = Some key \<Longrightarrow>
      0 < sint amount \<Longrightarrow> f w = g env key w"
    and recorded: "\<And>env key. recorded hs action (response_code (fst (g env key w))) w (snd (g env key w))"
  shows "recorded hs action (response_code (fst (f w))) w (snd (f w))"
proof (cases "acceptable hs amount")
  case False
  from stop [OF this] show ?thesis by (auto intro: recorded_nothing)
next
  case True
  then show ?thesis using body recorded unfolding acceptable_def by auto
qed

text \<open>
  C8. The audit trail tells the truth: whatever fails and whatever other processes do, a request to
  deposit, withdraw or transfer sends at most one audit event, whose outcome is the class of the HTTP
  status the client gets, and which carries a reason and that very status exactly when the request
  failed.
\<close>

theorem money_audit_truthful:
  "recorded hs (u ''accounts.money.deposit'') (response_code (fst (deposit P i hs peer dq w)))
     w (snd (deposit P i hs peer dq w)) \<and>
   recorded hs (u ''accounts.money.withdraw'') (response_code (fst (withdraw P i hs peer wq w)))
     w (snd (withdraw P i hs peer wq w)) \<and>
   recorded hs (u ''accounts.money.transfer'') (response_code (fst (transfer P i hs peer tq w)))
     w (snd (transfer P i hs peer tq w))"
proof (intro conjI)
  show "recorded hs (u ''accounts.money.deposit'') (response_code (fst (deposit P i hs peer dq w)))
     w (snd (deposit P i hs peer dq w))"
    by (rule endpoint_truthful [OF guards_stop(1) endpoint_bodies(1)], assumption+, rule endpoint_recorded)
      (auto intro!: unaudited.money unaudited.views unaudited.composed account_view_code)
  show "recorded hs (u ''accounts.money.withdraw'') (response_code (fst (withdraw P i hs peer wq w)))
     w (snd (withdraw P i hs peer wq w))"
    by (rule endpoint_truthful [OF guards_stop(2) endpoint_bodies(2)], assumption+, rule endpoint_recorded)
      (auto intro!: unaudited.money unaudited.views unaudited.composed account_view_code)
  show "recorded hs (u ''accounts.money.transfer'') (response_code (fst (transfer P i hs peer tq w)))
     w (snd (transfer P i hs peer tq w))"
    by (rule endpoint_truthful [OF guards_stop(3) endpoint_bodies(3)], assumption+, rule endpoint_recorded)
      (auto intro!: unaudited.money unaudited.views unaudited.composed transfer_view_code)
qed

section \<open>What the client gets\<close>

text \<open>
  Input guards: without a valid environment, a non-blank idempotency key and a positive amount,
  the three money endpoints answer with a validation error, which is a 400, and do nothing at all.
\<close>

theorem money_endpoints_guarded:
  "(\<not> acceptable hs (dr_amount dq) \<longrightarrow> (\<exists>m. deposit P i hs peer dq w = (Inl (Validation m), w))) \<and>
   (\<not> acceptable hs (wr_amount wq) \<longrightarrow> (\<exists>m. withdraw P i hs peer wq w = (Inl (Validation m), w))) \<and>
   (\<not> acceptable hs (trq_amount tq) \<longrightarrow> (\<exists>m. transfer P i hs peer tq w = (Inl (Validation m), w)))"
  using guards_stop by blast

theorem money_endpoints_guarded_witness:
  "\<exists>m. deposit demo_params 1 [(u ''x-environment'', u ''sandbox''), (u ''idempotency-key'', u ''k'')] (u ''::1'')
     \<lparr>dr_amount = 0, dr_description = None, dr_external_recipient_id = None, dr_reference_id = None\<rparr> demo_world
     = (Inl (Validation m), demo_world)"
proof -
  let ?rq = "\<lparr>dr_amount = 0, dr_description = None, dr_external_recipient_id = None, dr_reference_id = None\<rparr>"
  have "\<not> acceptable [(u ''x-environment'', u ''sandbox''), (u ''idempotency-key'', u ''k'')] (dr_amount ?rq)"
    by (simp add: acceptable_def)
  then show ?thesis by (rule money_endpoints_guarded [THEN conjunct1, rule_format])
qed

lemma audit_money_frame:
  assumes "result = Inr r"
  shows "w_db (snd (audit_money P hs peer path action i env result w)) = w_db w"
    "w_posts (snd (audit_money P hs peer path action i env result w)) = w_posts w"
    "w_ext (snd (audit_money P hs peer path action i env result w)) = w_ext w"
  using assms
  by (simp_all add: audit_money_def organization_of_def spawn_audit_emit_def io_simps Let_def split: option.split)

lemma balance_frame:
  "w_db (snd (get_account_balance P org env i c w)) = w_db w"
  "w_posts (snd (get_account_balance P org env i c w)) = w_posts w"
  using connect_channel_frame [of P w]
  by (cases "env_to_proto env"; cases "connect_channel P w";
      force simp: get_account_balance_def io_simps send_balance_def split: sum.split rpc_reply.split)+

lemma view_frame:
  "w_db (snd (account_with_balance P env i acc w)) = w_db w"
  "w_posts (snd (account_with_balance P env i acc w)) = w_posts w"
  by (simp_all add: account_with_balance_def display_balance_def io_simps Let_def balance_frame split: option.split)

text \<open>
  C7. POST deposit, end to end, with a new idempotency key on an active account: the answer is 200 when
  the ledger posted and 202 when it did not, the transaction shown says completed in the first case and
  pending in the second, and behind it is exactly one new row, settled as the ledger answered, and one
  post.
\<close>

theorem deposit_endpoint:
  assumes "undisturbed P" "ledger_up P" "db_ok (w_db w)"
    and "extract_environment hs = Inr env" "trimmed_header hs (u ''Idempotency-Key'') = Some key" "0 < sint (dr_amount rq)"
    and "account_at (w_db w) i env acc" "acc_status acc = Some Active" "acc_organization_id acc = Some org"
    and "\<forall>row \<in> set (db_transactions (w_db w)). \<not> idem_match org env key row"
    and "insert_ok (new_tx_row (p_clock P (Suc (w_tick w))) (p_uuid P (Suc (w_tick w))) org i i (dr_amount rq)
           (unwrap_or (acc_currency acc) (u ''USD'')) Deposit key env (dr_description rq)
           (dr_external_recipient_id rq) (dr_reference_id rq)) (db_transactions (w_db w))"
  shows "\<exists>body t w'.
    let c = unwrap_or (acc_currency acc) (u ''USD'');
        n = p_clock P (Suc (w_tick w)); fresh = p_uuid P (Suc (w_tick w));
        req = make_post P org (proto_env env) (u ''SYSTEM_CASH_CONTROL'') (p_uuid_str P i) (dr_amount rq) c fresh key
                (unwrap_or (trimmed_header hs (u ''x-correlation-id'')) (p_uuid_str P fresh));
        v = ledger_verdict P req (w_ext w) in
    deposit P i hs peer rq w = (Inr (if v = Inr () then 200 else 202, body), w') \<and>
    atr_status (mr_transaction body) = (if v = Inr () then u ''completed'' else u ''pending'') \<and>
    atr_id (mr_transaction body) = fresh \<and> ar_id (mr_account body) = acc_id acc \<and>
    request_effect P w (new_tx_row n fresh org i i (dr_amount rq) c Deposit key env (dr_description rq)
        (dr_external_recipient_id rq) (dr_reference_id rq))
      (new_transaction n fresh org i i (dr_amount rq) c Deposit key env (dr_description rq)
        (dr_external_recipient_id rq) (dr_reference_id rq)) req v w' t"
proof -
  let ?corr = "trimmed_header hs (u ''x-correlation-id'')"
  let ?c = "unwrap_or (acc_currency acc) (u ''USD'')"
  let ?n = "p_clock P (Suc (w_tick w))" and ?fresh = "p_uuid P (Suc (w_tick w))"
  let ?req = "make_post P org (proto_env env) (u ''SYSTEM_CASH_CONTROL'') (p_uuid_str P i) (dr_amount rq) ?c ?fresh key
                (unwrap_or ?corr (p_uuid_str P ?fresh))"
  let ?v = "ledger_verdict P ?req (w_ext w)"
  let ?t0 = "new_transaction ?n ?fresh org i i (dr_amount rq) ?c Deposit key env (dr_description rq)
        (dr_external_recipient_id rq) (dr_reference_id rq)"
  let ?row = "new_tx_row ?n ?fresh org i i (dr_amount rq) ?c Deposit key env (dr_description rq)
        (dr_external_recipient_id rq) (dr_reference_id rq)"
  have "trim key \<noteq> []" using trimmed_header_Some [OF assms(5)] by simp
  from deposit_run [OF assms(1,2,3) this assms(7-11) refl refl refl refl, where corr = ?corr] obtain t w1 where
    run: "deposit_with_idempotency P i env (dr_amount rq) key ?corr (dr_description rq)
      (dr_external_recipient_id rq) (dr_reference_id rq) w = (Inr (acc, t), w1)"
    and eff: "request_effect P w ?row ?t0 ?req ?v w1 t"
    by blast
  have t: "tx_status t = status_of ?v" "tx_id t = ?fresh"
    using eff by (auto simp: request_effect_def new_transaction_def)
  let ?w2 = "snd (audit_money P hs peer (u ''/api/v1/accounts/'' @ p_uuid_str P i @ u ''/deposit'')
    (u ''accounts.money.deposit'') i env (Inr (acc_organization_id acc, tx_status t)) w1)"
  obtain resp w' where view: "account_with_balance P env i acc ?w2 = (Inr resp, w')" using views_succeed(1) by blast
  have same: "w_db w' = w_db w1" "w_posts w' = w_posts w1"
    using view_frame [of P env i acc ?w2] view audit_money_frame(1,2) [OF refl] by simp_all
  have id: "ar_id resp = acc_id acc"
    using view by (auto simp: account_with_balance_def display_balance_def io_simps with_balance_def
        account_response_from_def Let_def split: option.splits)
  let ?body = "\<lparr>mr_account = resp, mr_transaction = for_mutation_response (p_uuid_str P) t (ar_balance resp)\<rparr>"
  have "deposit P i hs peer rq w = (Inr (mutation_http_status (tx_status t), ?body), w')"
    unfolding endpoint_bodies(1) [OF assms(4-6)]
    by (subst audited_endpoint_run, rule run) (use view in \<open>simp add: io_simps\<close>)
  moreover have "request_effect P w ?row ?t0 ?req ?v w' t" using eff by (simp add: request_effect_def same)
  moreover have "mutation_http_status (tx_status t) = (if ?v = Inr () then 200 else 202)"
    "view_status (tx_status t) = (if ?v = Inr () then u ''completed'' else u ''pending'')"
    unfolding t by (auto simp: status_of_def split: sum.split)
  ultimately show ?thesis
    unfolding Let_def
    by (intro exI [of _ ?body] exI [of _ t] exI [of _ w']) (simp add: views_economic t(2) id)
qed

theorem deposit_endpoint_witness:
  "\<exists>body w'. deposit demo_params 1 [(u ''x-environment'', u ''Sandbox''), (u ''idempotency-key'', u ''k'')] (u ''::1'')
     \<lparr>dr_amount = 25, dr_description = None, dr_external_recipient_id = None, dr_reference_id = None\<rparr> demo_world
     = (Inr (200, body), w') \<and> atr_status (mr_transaction body) = u ''completed'' \<and>
     map pr_amount (w_posts w') = [25]"
proof -
  let ?hs = "[(u ''x-environment'', u ''Sandbox''), (u ''idempotency-key'', u ''k'')]"
  let ?rq = "\<lparr>dr_amount = 25, dr_description = None, dr_external_recipient_id = None, dr_reference_id = None\<rparr> :: deposit_request"
  have env: "extract_environment ?hs = Inr (u ''sandbox'')"
    by (simp add: extract_environment_def header_str_def header_byte_ok_def to_lower_def lower_cp_def u_def
        trim_def trim_start_def trim_end_def is_ws_def)
  have key: "trimmed_header ?hs (u ''Idempotency-Key'') = Some (u ''k'')"
    by (simp add: trimmed_header_def header_str_def header_byte_ok_def to_lower_def lower_cp_def u_def
        trim_def trim_start_def trim_end_def is_ws_def)
  have fresh: "\<forall>row \<in> set (db_transactions (w_db demo_world)). \<not> idem_match 7 (u ''sandbox'') (u ''k'') row"
    by (simp add: demo_world_def)
  have ins: "insert_ok (new_tx_row (p_clock demo_params (Suc (w_tick demo_world)))
      (p_uuid demo_params (Suc (w_tick demo_world))) 7 1 1 (dr_amount ?rq)
      (unwrap_or (acc_currency (demo_acc 1 ''100'')) (u ''USD'')) Deposit (u ''k'') (u ''sandbox'')
      (dr_description ?rq) (dr_external_recipient_id ?rq) (dr_reference_id ?rq))
      (db_transactions (w_db demo_world))"
    by (simp add: insert_ok_def tx_row_ok_def new_tx_row_def demo_world_def)
  have posted: "ledger_verdict demo_params req n = Inr ()" for req n
    by (simp add: ledger_verdict_def demo_params_def)
  have amount: "0 < sint (dr_amount ?rq)" by simp
  have w: "w_posts demo_world = []" by (simp add: demo_world_def)
  show ?thesis
    using deposit_endpoint [where peer = "u ''::1''", OF demo_params_ok(1,2) demo_world_ok(1) env key amount
        demo_account_at(1) _ _ fresh ins]
    by (auto simp: Let_def request_effect_def posted make_post_def w)
qed

end
