(* ===== verification/Balance_Spec.thy ===== *)
theory Balance_Spec
  imports Handler_Spec
begin

text \<open>
  The balances the transaction listings show next to each transaction: \<open>balance_after\<close> of one
  account's history, and of the listing of an organization.
\<close>

section \<open>One account\<close>

abbreviation total_delta :: "uuid \<Rightarrow> transaction list \<Rightarrow> 64 word" where
  "total_delta i ts \<equiv> sum_list (map (\<lambda>t. balance_delta_for_account t i) ts)"

lemma length_balance_after [simp]: "length (balance_after_per_tx i c ts) = length ts"
  by (induction ts arbitrary: c) simp_all

lemma balance_after_nth:
  "k < length ts \<Longrightarrow> balance_after_per_tx i c ts ! k = c - total_delta i (take k ts)"
proof (induction ts arbitrary: c k)
  case (Cons t ts)
  show ?case
  proof (cases k)
    case (Suc j)
    then show ?thesis
      using Cons.IH [of j "c - balance_delta_for_account t i"] Cons.prems by (simp add: diff_diff_eq)
  qed simp
qed simp

lemma total_delta_split: "total_delta i ts = total_delta i (take k ts) + total_delta i (drop k ts)"
  by (metis append_take_drop_id map_append sum_list_append)

text \<open>
  C18. The balance history of an account is consistent: the newest transaction shows the balance the
  ledger reports now, each older one that balance less the effect of everything newer; so when the
  reported balance is the sum of all the effects listed, every transaction shows the sum up to and
  including itself.
\<close>

theorem balance_history:
  assumes "list_account_transactions P hs i q w = (Inr (code, views), w')"
  shows "\<exists>env ts w1 current.
    extract_environment hs = Inr env \<and> get_account_transactions P i env (ltq_limit q) w = (Inr ts, w1) \<and>
    (ts \<noteq> [] \<longrightarrow>
       display_balance P (tx_organization_id (hd ts)) env i (tx_currency (hd ts)) w1 = (Inr current, w')) \<and>
    code = 200 \<and> length views = length ts \<and>
    (\<forall>k < length ts. atr_id (views ! k) = tx_id (ts ! k) \<and> atr_amount (views ! k) = tx_amount (ts ! k) \<and>
       atr_balance_after (views ! k) = current - total_delta i (take k ts)) \<and>
    (current = total_delta i ts \<longrightarrow>
       (\<forall>k < length ts. atr_balance_after (views ! k) = total_delta i (drop k ts)))"
proof -
  obtain env where env: "extract_environment hs = Inr env"
    using assms by (cases "extract_environment hs") (auto simp: list_account_transactions_def io_simps)
  obtain ts w1 where ts: "get_account_transactions P i env (ltq_limit q) w = (Inr ts, w1)"
    using assms env
    by (auto simp: list_account_transactions_def io_simps split: prod.splits sum.splits)
  let ?fetch = "case ts of
      t # _ \<Rightarrow> display_balance P (tx_organization_id t) env i (tx_currency t) | [] \<Rightarrow> ret 0"
  obtain current where fetch: "?fetch w1 = (Inr current, w')"
    and views: "code = 200" "views = map (\<lambda>(k, t). from_transaction (p_uuid_str P) t i
        (unwrap_or (get_at (balance_after_per_tx i current ts) k) 0)) (enumerate 0 ts)"
    using assms env ts
    by (auto simp: list_account_transactions_def io_simps Let_def split: prod.splits sum.splits)
  have nth: "views ! k = from_transaction (p_uuid_str P) (ts ! k) i (current - total_delta i (take k ts))"
    if "k < length ts" for k
    using that views(2) by (simp add: nth_enumerate_eq get_at_def balance_after_nth)
  show ?thesis
  proof (intro exI conjI allI impI)
    show "extract_environment hs = Inr env" by (fact env)
    show "get_account_transactions P i env (ltq_limit q) w = (Inr ts, w1)" by (fact ts)
    show "display_balance P (tx_organization_id (hd ts)) env i (tx_currency (hd ts)) w1 = (Inr current, w')"
      if "ts \<noteq> []" using fetch that by (cases ts) simp_all
    show "code = 200" "length views = length ts" using views by simp_all
    fix k assume k: "k < length ts"
    show "atr_id (views ! k) = tx_id (ts ! k)" "atr_amount (views ! k) = tx_amount (ts ! k)"
      "atr_balance_after (views ! k) = current - total_delta i (take k ts)"
      using nth [OF k] by (simp_all add: views_economic)
    assume "current = total_delta i ts"
    then show "atr_balance_after (views ! k) = total_delta i (drop k ts)"
      using nth [OF k] total_delta_split [of i ts k] by (simp add: views_economic)
  qed
qed

text \<open>Account 1 with two posted deposits, 25 at time 1 and 10 at time 2; the ledger reports -35.\<close>

definition history_row :: "uuid \<Rightarrow> 64 word \<Rightarrow> time \<Rightarrow> string \<Rightarrow> tx_row" where
  "history_row i amount at key =
     (new_tx_row at i 7 1 1 amount (u ''USD'') Deposit (u key) (u ''sandbox'') None None None)
       \<lparr>r_status := u ''posted''\<rparr>"

definition history_world :: "nat world" where
  "history_world = demo_world\<lparr>w_db := (w_db demo_world)
     \<lparr>db_transactions := [history_row 51 25 1 ''k1'', history_row 52 10 2 ''k2'']\<rparr>\<rparr>"

definition history_params :: "nat params" where
  "history_params = demo_params\<lparr>p_balance := (\<lambda>_ x. (Reply (u ''-35''), x))\<rparr>"

definition sandbox_headers :: headers where
  "sandbox_headers = [(u ''x-environment'', u ''sandbox'')]"

definition list_query :: "32 word \<Rightarrow> list_transactions_query" where
  "list_query page = \<lparr>ltq_limit = None, ltq_organization_id = Some 7, ltq_page = Some page, ltq_per_page = Some 1\<rparr>"

lemma history_params_ok: "undisturbed history_params" "p_connect history_params n = Connected"
  by (simp_all add: undisturbed_def history_params_def demo_params_def)

lemma sandbox_environment: "extract_environment sandbox_headers = Inr (u ''sandbox'')"
  by (simp add: sandbox_headers_def extract_environment_def header_str_def header_byte_ok_def to_lower_def
      lower_cp_def u_def trim_def trim_start_def trim_end_def is_ws_def)

lemma history_balance: "\<exists>w'. display_balance history_params org (u ''sandbox'') i c w = (Inr 35, w')"
  by (auto simp: display_balance_def get_account_balance_def env_to_proto_def connect_channel_def send_balance_def
      history_params_def demo_params_def io_simps negate_ledger_balance_for_display_def Let_def
      parse_i64_def parse_signed_def parse_digits_def is_digit_def digits_val_def u_def
      trim_def trim_start_def trim_end_def is_ws_def)

definition history_tx :: "uuid \<Rightarrow> 64 word \<Rightarrow> time \<Rightarrow> string \<Rightarrow> transaction" where
  "history_tx i amount at key =
     (new_transaction at i 7 1 1 amount (u ''USD'') Deposit (u key) (u ''sandbox'') None None None)
       \<lparr>tx_status := Posted\<rparr>"

lemma history_row_tx: "row_to_transaction False (history_row i amount at key) = Inr (history_tx i amount at key)"
  by (simp add: row_to_transaction_def parse_kind_def parse_status_def history_row_def history_tx_def
      new_tx_row_def new_transaction_def)

lemma history_rows:
  "db_transactions (w_db history_world) = [history_row 51 25 1 ''k1'', history_row 52 10 2 ''k2'']"
  by (simp add: history_world_def)

lemma history_deltas: "balance_delta_for_account (history_tx j amount at key) i = amount"
  by (simp add: balance_delta_for_account_def history_tx_def new_transaction_def)

lemma history_row_simps:
  "r_created_at (history_row i amount at key) = at" "r_id (history_row i amount at key) = i"
  "r_organization_id (history_row i amount at key) = 7" "r_from_account_id (history_row i amount at key) = 1"
  "r_environment (history_row i amount at key) = Some (u ''sandbox'')"
  by (simp_all add: history_row_def new_tx_row_def)

lemma account_history:
  "\<exists>w1 w'. get_account_transactions history_params 1 (u ''sandbox'') None history_world
      = (Inr [history_tx 52 10 2 ''k2'', history_tx 51 25 1 ''k1''], w1) \<and>
    display_balance history_params 7 (u ''sandbox'') 1 (u ''USD'') w1 = (Inr 35, w') \<and>
    list_account_transactions history_params sandbox_headers 1 (list_query 1) history_world
      = (Inr (200, [from_transaction (p_uuid_str history_params) (history_tx 52 10 2 ''k2'') 1 35,
                    from_transaction (p_uuid_str history_params) (history_tx 51 25 1 ''k1'') 1 25]), w')"
proof -
  let ?ts = "[history_tx 52 10 2 ''k2'', history_tx 51 25 1 ''k1'']"
  let ?w1 = "history_world\<lparr>w_tick := Suc (Suc (w_tick history_world))\<rparr>"
  have acc: "account_at (w_db history_world) 1 (u ''sandbox'') (demo_acc 1 ''100'')"
    using demo_account_at(1) by (simp add: account_at_def history_world_def)
  have ts: "get_account_transactions history_params 1 (u ''sandbox'') None history_world = (Inr ?ts, ?w1)"
    using find_account_eval [OF history_params_ok(1) acc]
    by (simp add: get_account_transactions_def find_by_account_id_def io_simps history_params_ok Let_def
        sql_limit_def select_account_stmt_def sort_desc_def history_rows history_row_simps all_transactions_def
        history_row_tx)
  obtain w' where bal: "display_balance history_params 7 (u ''sandbox'') 1 (u ''USD'') ?w1 = (Inr 35, w')"
    using history_balance by blast
  have tx: "tx_organization_id (history_tx j a at key) = 7" "tx_currency (history_tx j a at key) = u ''USD''" for j a at key
    by (simp_all add: history_tx_def new_transaction_def)
  have "list_account_transactions history_params sandbox_headers 1 (list_query 1) history_world
      = (Inr (200, [from_transaction (p_uuid_str history_params) (history_tx 52 10 2 ''k2'') 1 35,
                    from_transaction (p_uuid_str history_params) (history_tx 51 25 1 ''k1'') 1 25]), w')"
    using ts bal
    by (simp add: list_account_transactions_def sandbox_environment list_query_def io_simps tx Let_def
        history_deltas get_at_def)
  with ts bal show ?thesis by blast
qed

theorem balance_history_witness:
  "\<exists>views w'. list_account_transactions history_params sandbox_headers 1 (list_query 1) history_world
      = (Inr (200, views), w') \<and>
    atr_balance_after (views ! 0) = 35 \<and> atr_balance_after (views ! 1) = 25"
proof -
  have tx: "tx_organization_id (history_tx j a at key) = 7" "tx_currency (history_tx j a at key) = u ''USD''" for j a at key
    by (simp_all add: history_tx_def new_transaction_def)
  obtain w1 w' views where run: "list_account_transactions history_params sandbox_headers 1 (list_query 1) history_world
      = (Inr (200, views), w')"
    and rest: "get_account_transactions history_params 1 (u ''sandbox'') None history_world
      = (Inr [history_tx 52 10 2 ''k2'', history_tx 51 25 1 ''k1''], w1)"
      "display_balance history_params 7 (u ''sandbox'') 1 (u ''USD'') w1 = (Inr 35, w')"
    using account_history by blast
  from balance_history [OF run] rest
  have "\<forall>k < 2. atr_balance_after (views ! k) =
       total_delta 1 (drop k [history_tx 52 10 2 ''k2'', history_tx 51 25 1 ''k1''])"
    by (auto simp: sandbox_environment list_query_def tx history_deltas)
  from this [rule_format, of 0] this [rule_format, of 1] run show ?thesis by (auto simp: history_deltas)
qed

section \<open>The listing of an organization\<close>

lemma history_page:
  assumes "page \<in> {1, 2}"
  shows "\<exists>code resp w'. list_transactions history_params id sandbox_headers (list_query page) history_world
      = (Inr (code, resp), w') \<and> map atr_balance_after (ptr_data resp) = [35] \<and>
        map atr_id (ptr_data resp) = [if page = 1 then 52 else 51]"
proof -
  have db: "db_ok (w_db history_world)"
    using demo_accounts_ok
    by (simp add: db_ok_def history_rows tx_table_ok_def tx_row_ok_def history_row_def new_tx_row_def idem_key_def)
      (simp add: history_world_def demo_world_def)
  let ?t = "if page = 1 then history_tx 52 10 2 ''k2'' else history_tx 51 25 1 ''k1''"
  have page: "tx_page 7 (u ''sandbox'') (w_db history_world) page 1 = [?t]"
    using assms
    by (auto simp: tx_page_def limit_offset_def page_offset_def org_listing_def sort_desc_def history_rows
        history_row_simps tx_of_row_def history_row_tx)
  obtain meta w1 where rows: "find_tx_by_organization_id_paginated history_params 7 (u ''sandbox'') page 1 history_world
      = (Inr ([?t], meta), w1)"
    using tx_page_run [OF history_params_ok(1) db, of 7 "u ''sandbox''" page 1] page by simp
  have t: "tx_from_account_id ?t = 1" "tx_currency ?t = u ''USD''" "tx_transaction_kind ?t = Deposit"
    "tx_id ?t = (if page = 1 then 52 else 51)"
    by (simp_all add: history_tx_def new_transaction_def)
  obtain w' where bal: "display_balance history_params 7 (u ''sandbox'') 1 (u ''USD'') w1 = (Inr 35, w')"
    using history_balance by blast
  have args: "page_arg (Some page) = page" "per_page_arg (Some 1) = 1"
    using assms by (auto simp: page_arg_def per_page_arg_def)
  have accounts: "unique_accounts [?t] = [(1, u ''USD'')]" by (simp add: unique_accounts_def Let_def t)
  have pairs: "walk_all [1 \<mapsto> 35] [?t] = [(35, None)]"
    by (simp add: walk_back_def Let_def t)
  have "list_transactions history_params id sandbox_headers (list_query page) history_world =
      (Inr (200, \<lparr>ptr_data = [for_mutation_response (p_uuid_str history_params) ?t 35], ptr_pagination = meta\<rparr>), w')"
    unfolding list_transactions_def
    by (simp add: sandbox_environment list_query_def io_simps Let_def args
        get_transactions_by_organization_paginated_def rows accounts bal pairs rows_of_def t get_at_def del: walk_all.simps)
  then show ?thesis by (simp add: views_economic t)
qed

text \<open>
  The listing of an organization does not agree with the history of the account from its second page
  on: every page starts its walk back from the balance the ledger reports now. Two deposits of 25 and
  10, listed one per page: both pages show a balance of 35, where the history of the account says 35 and
  25.
\<close>

theorem later_page_shows_current_balance:
  "\<exists>c1 r1 w1 c2 r2 w2 c3 v w3.
     list_transactions history_params id sandbox_headers (list_query 1) history_world = (Inr (c1, r1), w1) \<and>
     list_transactions history_params id sandbox_headers (list_query 2) history_world = (Inr (c2, r2), w2) \<and>
     list_account_transactions history_params sandbox_headers 1 (list_query 1) history_world = (Inr (c3, v), w3) \<and>
     map atr_id (ptr_data r1 @ ptr_data r2) = [52, 51] \<and>
     map atr_balance_after (ptr_data r1 @ ptr_data r2) = [35, 35] \<and>
     map atr_balance_after v = [35, 25]"
proof -
  have pages: "(1 :: 32 word) \<in> {1, 2}" "(2 :: 32 word) \<in> {1, 2}" by simp_all
  obtain c1 r1 w1 where "list_transactions history_params id sandbox_headers (list_query 1) history_world = (Inr (c1, r1), w1)"
    "map atr_balance_after (ptr_data r1) = [35]" "map atr_id (ptr_data r1) = [52]"
    using history_page [OF pages(1)] by auto
  moreover obtain c2 r2 w2 where
    "list_transactions history_params id sandbox_headers (list_query 2) history_world = (Inr (c2, r2), w2)"
    "map atr_balance_after (ptr_data r2) = [35]" "map atr_id (ptr_data r2) = [51]"
    using history_page [OF pages(2)] by auto
  moreover obtain v w3 where
    "list_account_transactions history_params sandbox_headers 1 (list_query 1) history_world = (Inr (200, v), w3)"
    "map atr_balance_after v = [35, 25]"
    using account_history by (auto simp: views_economic)
  ultimately show ?thesis by fastforce
qed

end
