(* ===== verification/Audit_Validate.thy ===== *)
theory Audit_Validate
  imports Audit_Proto
begin

text \<open>
  Validation of audit events in the audit service (\<^verbatim>\<open>audit-service/src/validate.rs\<close>) and the
  conversion of a validated event to a row (\<^verbatim>\<open>event_to_insert\<close> in
  \<^verbatim>\<open>grpc_server.rs\<close>). Parsing of UUIDs and RFC 3339 times belongs to the uuid and chrono
  crates; \<open>codec\<close> holds these functions. \<open>now\<close> is the time the validator reads.
\<close>

record codec =
  c_uuid_parse :: "str \<Rightarrow> uuid option"
  c_uuid_str :: "uuid \<Rightarrow> str"
  c_rfc3339_parse :: "str \<Rightarrow> time option"
  c_rfc3339_str :: "time \<Rightarrow> str"

definition ORG_ZERO_ALLOWED :: "str list" where
  "ORG_ZERO_ALLOWED = map u
     [''users.business.register'', ''users.auth.login'', ''users.password_reset.request'',
      ''users.password_reset.complete'', ''users.beta.apply'']"

definition ALL_ACTIONS :: "str list" where
  "ALL_ACTIONS = map u
     [''users.business.register'', ''users.auth.login'', ''users.auth.refresh'', ''users.auth.revoke'',
      ''users.password_reset.request'', ''users.password_reset.complete'', ''users.beta.apply'',
      ''users.api_key.create'', ''users.api_key.revoke'', ''accounts.account.create'',
      ''accounts.account.update_status'', ''accounts.account.close'', ''accounts.money.deposit'',
      ''accounts.money.withdraw'', ''accounts.money.transfer'', ''ledger.transaction.post'']"

definition METADATA_KEYS_ALLOWED :: "str list" where
  "METADATA_KEYS_ALLOWED = map u
     [''previous_status'', ''new_status'', ''http_status'', ''error_code'', ''idempotency_key_present'']"

definition NIL_UUID :: str where
  "NIL_UUID = u ''00000000-0000-0000-0000-000000000000''"

definition invalid_argument :: "string \<Rightarrow> grpc_status" where
  "invalid_argument m = \<lparr>gs_code = Code_Invalid_Argument, gs_message = u m\<rparr>"

definition validate_schema :: "audit_event \<Rightarrow> grpc_status + unit" where
  "validate_schema ev = ensure (ev_schema_version ev = 1) (invalid_argument ''schema_version must be 1'')"

text \<open>Five minutes, in microseconds.\<close>

definition validate_occurred_at :: "codec \<Rightarrow> time \<Rightarrow> audit_event \<Rightarrow> grpc_status + unit" where
  "validate_occurred_at C now ev =
     and_then (ok_or (c_rfc3339_parse C (ev_occurred_at ev))
       (invalid_argument ''occurred_at must be RFC3339 UTC'')) (\<lambda>occurred_at.
     ensure (\<not> occurred_at > now + 5 * 60 * 1000000)
       (invalid_argument ''occurred_at cannot be far in the future''))"

definition validate_source_service :: "audit_event \<Rightarrow> grpc_status + unit" where
  "validate_source_service ev =
     ensure (trim (ev_source_service ev) \<in> {u ''users'', u ''accounts'', u ''ledger''})
       (invalid_argument ''source_service must be one of: users, accounts, ledger'')"

definition validate_org_and_action :: "codec \<Rightarrow> audit_event \<Rightarrow> grpc_status + unit" where
  "validate_org_and_action C ev =
     and_then (ok_or (c_uuid_parse C (trim (ev_organization_id ev)))
       (invalid_argument ''organization_id must be a UUID'')) (\<lambda>org.
     let action = trim (ev_action ev) in
     and_then (ensure (action \<in> set ALL_ACTIONS) (invalid_argument ''unknown action for v1 catalog'')) (\<lambda>_.
     ensure (\<not> (c_uuid_str C org = NIL_UUID \<and> action \<notin> set ORG_ZERO_ALLOWED))
       (invalid_argument ''organization_id must not be all-zero for this action'')))"

definition validate_environment_and_correlation :: "audit_event \<Rightarrow> grpc_status + unit" where
  "validate_environment_and_correlation ev =
     and_then (ensure (trim (ev_environment ev) \<noteq> []) (invalid_argument ''environment is required'')) (\<lambda>_.
     ensure (trim (ev_correlation_id ev) \<noteq> []) (invalid_argument ''correlation_id is required''))"

definition validate_outcome :: "audit_event \<Rightarrow> grpc_status + unit" where
  "validate_outcome ev =
     and_then (ok_or (outcome_try_from (ev_outcome ev)) (invalid_argument ''invalid outcome enum value'')) (\<lambda>outcome.
     ensure (outcome \<noteq> Outcome_Unspecified) (invalid_argument ''outcome must be set''))"

definition validate_actor :: "audit_event \<Rightarrow> grpc_status + unit" where
  "validate_actor ev =
     and_then (ok_or (ev_actor ev) (invalid_argument ''actor is required'')) (\<lambda>actor.
     and_then (ok_or (actor_type_try_from (am_type actor)) (invalid_argument ''invalid actor type'')) (\<lambda>actor_type.
     ensure (actor_type \<noteq> Actor_Unspecified) (invalid_argument ''actor.type must be set'')))"

definition validate_target :: "audit_event \<Rightarrow> grpc_status + unit" where
  "validate_target ev =
     and_then (ok_or (ev_target ev) (invalid_argument ''target is required'')) (\<lambda>target.
     ensure (\<not> (trim (tm_type target) = [] \<or> trim (tm_id target) = []))
       (invalid_argument ''target.type and target.id are required''))"

definition validate_request :: "audit_event \<Rightarrow> grpc_status + unit" where
  "validate_request ev =
     and_then (ok_or (ev_request ev) (invalid_argument ''request is required'')) (\<lambda>req.
     ensure (\<not> (trim (rc_method req) = [] \<or> trim (rc_path req) = []))
       (invalid_argument ''request.method and request.path are required''))"

definition validate_reason :: "audit_event \<Rightarrow> grpc_status + unit" where
  "validate_reason ev =
     (case ev_reason ev of
        None \<Rightarrow> Inr ()
      | Some reason \<Rightarrow>
          ensure (\<not> length (trim reason) > 500) (invalid_argument ''reason exceeds 500 characters''))"

fun validate_metadata_entries :: "(str \<times> str) list \<Rightarrow> grpc_status + unit" where
  "validate_metadata_entries [] = Inr ()"
| "validate_metadata_entries ((k, v) # rest) =
     and_then (ensure (k \<in> set METADATA_KEYS_ALLOWED) (invalid_argument ''metadata key not allowlisted for v1'')) (\<lambda>_.
     and_then (ensure (\<not> length v > 256) (invalid_argument ''metadata value exceeds 256 characters'')) (\<lambda>_.
     validate_metadata_entries rest))"

definition validate_metadata :: "audit_event \<Rightarrow> grpc_status + unit" where
  "validate_metadata ev =
     and_then (ensure (\<not> length (ev_metadata ev) > 16)
       (invalid_argument ''metadata may have at most 16 entries'')) (\<lambda>_.
     validate_metadata_entries (ev_metadata ev))"

definition validate_audit_event :: "codec \<Rightarrow> time \<Rightarrow> audit_event \<Rightarrow> grpc_status + unit" where
  "validate_audit_event C now ev =
     and_then (validate_schema ev) (\<lambda>_.
     and_then (validate_occurred_at C now ev) (\<lambda>_.
     and_then (validate_source_service ev) (\<lambda>_.
     and_then (validate_org_and_action C ev) (\<lambda>_.
     and_then (validate_environment_and_correlation ev) (\<lambda>_.
     and_then (validate_outcome ev) (\<lambda>_.
     and_then (validate_actor ev) (\<lambda>_.
     and_then (validate_target ev) (\<lambda>_.
     and_then (validate_request ev) (\<lambda>_.
     and_then (validate_reason ev) (\<lambda>_.
     validate_metadata ev))))))))))"

section \<open>The row of an event\<close>

record audit_insert =
  ins_occurred_at :: time
  ins_schema_version :: "16 word"
  ins_source_service :: str
  ins_organization_id :: uuid
  ins_environment :: str
  ins_actor_type :: str
  ins_actor_id :: str
  ins_actor_roles :: "str list"
  ins_action :: str
  ins_target_type :: str
  ins_target_id :: str
  ins_outcome :: str
  ins_request_id :: str
  ins_request_method :: str
  ins_request_path :: str
  ins_request_ip :: str
  ins_request_user_agent :: str
  ins_correlation_id :: str
  ins_reason :: "str option"
  ins_metadata :: "(str \<times> str) list"

primrec actor_type_str :: "actor_type \<Rightarrow> str" where
  "actor_type_str Actor_User = u ''user''"
| "actor_type_str Actor_Api_Key = u ''api_key''"
| "actor_type_str Actor_Internal_Service = u ''internal_service''"
| "actor_type_str Actor_Anonymous = u ''anonymous''"
| "actor_type_str Actor_Unspecified = u ''unspecified''"

primrec outcome_str :: "outcome \<Rightarrow> str" where
  "outcome_str Outcome_Success = u ''success''"
| "outcome_str Outcome_Client_Error = u ''client_error''"
| "outcome_str Outcome_Server_Error = u ''server_error''"
| "outcome_str Outcome_Unspecified = u ''unspecified''"

text \<open>The metadata map is written to a JSON object entry by entry; an entry list stands for both.\<close>

definition event_to_insert :: "codec \<Rightarrow> audit_event \<Rightarrow> grpc_status + audit_insert" where
  "event_to_insert C ev =
     and_then (ok_or (c_rfc3339_parse C (ev_occurred_at ev)) (invalid_argument ''occurred_at'')) (\<lambda>occurred_at.
     and_then (ok_or (c_uuid_parse C (trim (ev_organization_id ev))) (invalid_argument ''organization_id'')) (\<lambda>org.
     and_then (ok_or (ev_actor ev) (invalid_argument ''actor'')) (\<lambda>actor.
     and_then (ok_or (actor_type_try_from (am_type actor)) (invalid_argument ''actor.type'')) (\<lambda>actor_type.
     and_then (ok_or (ev_target ev) (invalid_argument ''target'')) (\<lambda>target.
     and_then (ok_or (ev_request ev) (invalid_argument ''request'')) (\<lambda>req.
     and_then (ok_or (outcome_try_from (ev_outcome ev)) (invalid_argument ''outcome'')) (\<lambda>outcome.
     Inr \<lparr>ins_occurred_at = occurred_at,
          ins_schema_version = word_of_int (ev_schema_version ev),
          ins_source_service = trim (ev_source_service ev),
          ins_organization_id = org,
          ins_environment = trim (ev_environment ev),
          ins_actor_type = actor_type_str actor_type,
          ins_actor_id = trim (am_id actor),
          ins_actor_roles = am_roles actor,
          ins_action = trim (ev_action ev),
          ins_target_type = trim (tm_type target),
          ins_target_id = trim (tm_id target),
          ins_outcome = outcome_str outcome,
          ins_request_id = trim (rc_id req),
          ins_request_method = trim (rc_method req),
          ins_request_path = trim (rc_path req),
          ins_request_ip = rc_ip req,
          ins_request_user_agent = rc_user_agent req,
          ins_correlation_id = trim (ev_correlation_id ev),
          ins_reason = (case ev_reason ev of None \<Rightarrow> None | Some s \<Rightarrow> if trim s = [] then None else Some s),
          ins_metadata = ev_metadata ev\<rparr>)))))))"

section \<open>Facts\<close>

text \<open>What validation promises, as one predicate.\<close>

definition valid_event :: "codec \<Rightarrow> time \<Rightarrow> audit_event \<Rightarrow> bool" where
  "valid_event C now ev \<longleftrightarrow>
     ev_schema_version ev = 1 \<and>
     (\<exists>t. c_rfc3339_parse C (ev_occurred_at ev) = Some t \<and> t \<le> now + 300000000) \<and>
     trim (ev_source_service ev) \<in> {u ''users'', u ''accounts'', u ''ledger''} \<and>
     (\<exists>org. c_uuid_parse C (trim (ev_organization_id ev)) = Some org \<and> trim (ev_action ev) \<in> set ALL_ACTIONS \<and>
        (c_uuid_str C org = NIL_UUID \<longrightarrow> trim (ev_action ev) \<in> set ORG_ZERO_ALLOWED)) \<and>
     trim (ev_environment ev) \<noteq> [] \<and> trim (ev_correlation_id ev) \<noteq> [] \<and>
     (\<exists>out. outcome_try_from (ev_outcome ev) = Some out \<and> out \<noteq> Outcome_Unspecified) \<and>
     (\<exists>a ty. ev_actor ev = Some a \<and> actor_type_try_from (am_type a) = Some ty \<and> ty \<noteq> Actor_Unspecified) \<and>
     (\<exists>t. ev_target ev = Some t \<and> trim (tm_type t) \<noteq> [] \<and> trim (tm_id t) \<noteq> []) \<and>
     (\<exists>r. ev_request ev = Some r \<and> trim (rc_method r) \<noteq> [] \<and> trim (rc_path r) \<noteq> []) \<and>
     (\<forall>s. ev_reason ev = Some s \<longrightarrow> length (trim s) \<le> 500) \<and>
     length (ev_metadata ev) \<le> 16 \<and>
     (\<forall>(k, v) \<in> set (ev_metadata ev). k \<in> set METADATA_KEYS_ALLOWED \<and> length v \<le> 256)"

lemma metadata_entries_Inr:
  "validate_metadata_entries es = Inr () \<longleftrightarrow>
   (\<forall>(k, v) \<in> set es. k \<in> set METADATA_KEYS_ALLOWED \<and> length v \<le> 256)"
  by (induction es rule: validate_metadata_entries.induct) (auto simp: and_then_Inr)

lemma validate_audit_event_iff: "validate_audit_event C now ev = Inr () \<longleftrightarrow> valid_event C now ev"
  unfolding validate_audit_event_def valid_event_def validate_schema_def validate_occurred_at_def
    validate_source_service_def validate_org_and_action_def validate_environment_and_correlation_def
    validate_outcome_def validate_actor_def validate_target_def validate_request_def validate_reason_def
    validate_metadata_def Let_def
  by (auto simp: and_then_Inr ok_or_Inr metadata_entries_Inr not_less split: option.splits)

lemma ensure_Inl: "ensure b e = Inl x \<longleftrightarrow> \<not> b \<and> x = e"
  by (auto simp: ensure_def)

lemma and_then_Inl: "and_then r f = Inl e \<longleftrightarrow> r = Inl e \<or> (\<exists>a. r = Inr a \<and> f a = Inl e)"
  by (cases r) simp_all

lemma ok_or_Inl: "ok_or x e = Inl y \<longleftrightarrow> x = None \<and> y = e"
  by (cases x) auto

lemma metadata_entries_code:
  "validate_metadata_entries es = Inl e \<Longrightarrow> gs_code e = Code_Invalid_Argument"
  by (induction es rule: validate_metadata_entries.induct)
    (auto simp: and_then_Inl ensure_Inl invalid_argument_def)

lemma validation_error_code:
  "validate_audit_event C now ev = Inl e \<Longrightarrow> gs_code e = Code_Invalid_Argument"
  unfolding validate_audit_event_def validate_schema_def validate_occurred_at_def
    validate_source_service_def validate_org_and_action_def validate_environment_and_correlation_def
    validate_outcome_def validate_actor_def validate_target_def validate_request_def validate_reason_def
    validate_metadata_def Let_def
  by (auto simp: and_then_Inl ok_or_Inl ensure_Inl invalid_argument_def dest!: metadata_entries_code
      split: option.splits)

text \<open>Validation makes the conversion total.\<close>

lemma valid_event_row:
  assumes "valid_event C now ev"
  shows "\<exists>row. event_to_insert C ev = Inr row \<and>
    c_rfc3339_parse C (ev_occurred_at ev) = Some (ins_occurred_at row) \<and>
    ins_action row = trim (ev_action ev) \<and> ins_environment row = trim (ev_environment ev) \<and>
    ins_source_service row = trim (ev_source_service ev) \<and>
    ins_schema_version row = 1 \<and> c_uuid_parse C (trim (ev_organization_id ev)) = Some (ins_organization_id row) \<and>
    ins_outcome row \<in> {u ''success'', u ''client_error'', u ''server_error''} \<and>
    ins_actor_type row \<in> {u ''user'', u ''api_key'', u ''internal_service'', u ''anonymous''}"
proof -
  obtain t org out a ty tg rq where parts: "c_rfc3339_parse C (ev_occurred_at ev) = Some t"
    "c_uuid_parse C (trim (ev_organization_id ev)) = Some org"
    "outcome_try_from (ev_outcome ev) = Some out" "out \<noteq> Outcome_Unspecified"
    "ev_actor ev = Some a" "actor_type_try_from (am_type a) = Some ty" "ty \<noteq> Actor_Unspecified"
    "ev_target ev = Some tg" "ev_request ev = Some rq" "ev_schema_version ev = 1"
    using assms unfolding valid_event_def by blast
  have out: "outcome_str out \<in> {u ''success'', u ''client_error'', u ''server_error''}"
    using parts(4) by (cases out) simp_all
  have ty: "actor_type_str ty \<in> {u ''user'', u ''api_key'', u ''internal_service'', u ''anonymous''}"
    using parts(7) by (cases ty) simp_all
  obtain row where row: "event_to_insert C ev = Inr row" using parts by (simp add: event_to_insert_def)
  then have "ins_occurred_at row = t" "ins_organization_id row = org" "ins_outcome row = outcome_str out"
    "ins_actor_type row = actor_type_str ty" "ins_action row = trim (ev_action ev)"
    "ins_environment row = trim (ev_environment ev)" "ins_source_service row = trim (ev_source_service ev)"
    "ins_schema_version row = 1"
    using parts by (auto simp: event_to_insert_def)
  with row parts out ty show ?thesis by auto
qed

end
