(* ===== verification/Audit_Service.thy ===== *)
theory Audit_Service
  imports Audit_Validate Pagination
begin

text \<open>
  The audit service: its one table (\<^verbatim>\<open>audit-service/migrations\<close>), the statements of
  \<^verbatim>\<open>db.rs\<close>, the gRPC method of \<^verbatim>\<open>grpc_server.rs\<close>, its users client
  (\<^verbatim>\<open>users_grpc.rs\<close>) and the HTTP routes of \<^verbatim>\<open>routes/audit_events.rs\<close>. The table is
  append-only: two rules of the schema turn updates and deletes into nothing, and the service issues
  neither. As for the accounts service, other processes may act between two statements and a statement
  may fail before or after its effect.
\<close>

record audit_event_row =
  er_id :: uuid
  er_data :: audit_insert
  er_created_at :: time

record 'x audit_params =
  q_codec :: codec
  q_other :: "nat \<Rightarrow> audit_event_row list \<Rightarrow> audit_event_row list"
  q_fault :: "nat \<Rightarrow> db_fault"
  q_clock :: "nat \<Rightarrow> time"
  q_uuid :: "nat \<Rightarrow> uuid"
  q_constraint_error :: str
  q_validate_key :: "str \<Rightarrow> str \<Rightarrow> 'x \<Rightarrow> (grpc_status + str \<times> str \<times> str) \<times> 'x"
  q_internal_token :: "str option"

record 'x audit_world =
  aw_rows :: "audit_event_row list"
  aw_ext :: 'x
  aw_tick :: nat

section \<open>Statements\<close>

definition audit_now :: "'x audit_params \<Rightarrow> ('x audit_world, 'e, time) io" where
  "audit_now Q = (\<lambda>w. (Inr (q_clock Q (aw_tick w)), w\<lparr>aw_tick := Suc (aw_tick w)\<rparr>))"

definition audit_query ::
  "'x audit_params \<Rightarrow> (nat \<Rightarrow> audit_event_row list \<Rightarrow> (str + 'a) \<times> audit_event_row list) \<Rightarrow> ('x audit_world, str, 'a) io" where
  "audit_query Q q = (\<lambda>w.
     let t = aw_tick w; d = q_other Q t (aw_rows w) in
     case q_fault Q t of
       Fault_Before e \<Rightarrow> (Inl e, w\<lparr>aw_rows := d, aw_tick := Suc t\<rparr>)
     | Fault_After e \<Rightarrow> (Inl e, w\<lparr>aw_rows := snd (q t d), aw_tick := Suc t\<rparr>)
     | No_Fault \<Rightarrow> (fst (q t d), w\<lparr>aw_rows := snd (q t d), aw_tick := Suc t\<rparr>))"

definition insert_event_stmt ::
  "str \<Rightarrow> audit_event_row \<Rightarrow> audit_event_row list \<Rightarrow> (str + uuid) \<times> audit_event_row list" where
  "insert_event_stmt err row rows =
     (if er_id row \<in> er_id ` set rows then (Inl err, rows) else (Inr (er_id row), rows @ [row]))"

definition insert_audit_event :: "'x audit_params \<Rightarrow> audit_insert \<Rightarrow> ('x audit_world, str, uuid) io" where
  "insert_audit_event Q row =
     audit_query Q (\<lambda>t. insert_event_stmt (q_constraint_error Q)
       \<lparr>er_id = q_uuid Q t, er_data = row, er_created_at = q_clock Q t\<rparr>)"

record audit_list_filters =
  af_organization_id :: uuid
  af_environment :: str
  af_action :: "str option"
  af_target_type :: "str option"
  af_target_id :: "str option"
  af_outcome :: "str option"
  af_from :: "time option"
  af_to :: "time option"
  af_page :: "32 word"
  af_per_page :: "32 word"

definition opt_all :: "('a \<Rightarrow> bool) \<Rightarrow> 'a option \<Rightarrow> bool" where
  "opt_all p x = (case x of None \<Rightarrow> True | Some a \<Rightarrow> p a)"

definition filter_clause :: "audit_list_filters \<Rightarrow> audit_event_row \<Rightarrow> bool" where
  "filter_clause f r \<longleftrightarrow>
     ins_organization_id (er_data r) = af_organization_id f \<and>
     ins_environment (er_data r) = af_environment f \<and>
     opt_all (\<lambda>a. ins_action (er_data r) = a) (af_action f) \<and>
     opt_all (\<lambda>t. ins_target_type (er_data r) = t) (af_target_type f) \<and>
     opt_all (\<lambda>t. ins_target_id (er_data r) = t) (af_target_id f) \<and>
     opt_all (\<lambda>x. ins_outcome (er_data r) = x) (af_outcome f) \<and>
     opt_all (\<lambda>t. ins_occurred_at (er_data r) \<ge> t) (af_from f) \<and>
     opt_all (\<lambda>t. ins_occurred_at (er_data r) \<le> t) (af_to f)"

definition event_listing :: "audit_list_filters \<Rightarrow> audit_event_row list \<Rightarrow> audit_event_row list" where
  "event_listing f rows =
     sort_desc (\<lambda>r. (ins_occurred_at (er_data r), er_created_at r, uint (er_id r))) (filter (filter_clause f) rows)"

definition count_audit_events :: "'x audit_params \<Rightarrow> audit_list_filters \<Rightarrow> ('x audit_world, str, nat) io" where
  "count_audit_events Q f = audit_query Q (\<lambda>t rows. (Inr (length (filter (filter_clause f) rows)), rows))"

definition list_audit_events_db ::
  "'x audit_params \<Rightarrow> audit_list_filters \<Rightarrow> ('x audit_world, str, audit_event_row list \<times> pagination_meta) io" where
  "list_audit_events_db Q f =
     bind_io (count_audit_events Q f) (\<lambda>total_count.
     let offset = page_offset (af_page f) (af_per_page f) in
     bind_io (audit_query Q (\<lambda>t rows. (Inr (limit_offset (af_per_page f) offset (event_listing f rows)), rows)))
       (\<lambda>events. ret (events, make_pagination (af_page f) (af_per_page f) total_count)))"

section \<open>gRPC\<close>

definition status_internal :: "str \<Rightarrow> grpc_status" where
  "status_internal m = \<lparr>gs_code = Code_Internal, gs_message = m\<rparr>"

definition append_audit_event_grpc ::
  "'x audit_params \<Rightarrow> audit_event option \<Rightarrow> ('x audit_world, grpc_status, str) io" where
  "append_audit_event_grpc Q event =
     bind_io (lift_result (ok_or event (invalid_argument ''event required''))) (\<lambda>ev.
     bind_io (audit_now Q) (\<lambda>now.
     bind_io (lift_result (validate_audit_event (q_codec Q) now ev)) (\<lambda>_.
     bind_io (lift_result (event_to_insert (q_codec Q) ev)) (\<lambda>row.
     bind_io (map_err_io status_internal (insert_audit_event Q row)) (\<lambda>i.
     ret (c_uuid_str (q_codec Q) i))))))"

definition audit_validate_api_key ::
  "'x audit_params \<Rightarrow> str \<Rightarrow> str \<Rightarrow> ('x audit_world, grpc_status, uuid \<times> uuid \<times> uuid) io" where
  "audit_validate_api_key Q api_key env =
     bind_io (\<lambda>w. (fst (q_validate_key Q api_key env (aw_ext w)),
                  w\<lparr>aw_ext := snd (q_validate_key Q api_key env (aw_ext w)), aw_tick := Suc (aw_tick w)\<rparr>))
       (\<lambda>(b, e, a).
     bind_io (lift_result (ok_or (c_uuid_parse (q_codec Q) b)
       (status_internal (u ''invalid business_id from users service'')))) (\<lambda>business_id.
     bind_io (lift_result (ok_or (c_uuid_parse (q_codec Q) e)
       (status_internal (u ''invalid environment_id from users service'')))) (\<lambda>environment_id.
     bind_io (lift_result (ok_or (c_uuid_parse (q_codec Q) a)
       (status_internal (u ''invalid admin_user_id from users service'')))) (\<lambda>admin_user_id.
     ret (business_id, environment_id, admin_user_id)))))"

section \<open>HTTP\<close>

text \<open>The status and message of an \<^verbatim>\<open>ApiError\<close>. Its correlation id and time stamp are fresh
  values that the middleware replaces.\<close>

record api_error =
  ae_status :: nat
  ae_message :: str

definition api_error :: "nat \<Rightarrow> str \<Rightarrow> api_error" where
  "api_error status message = \<lparr>ae_status = status, ae_message = message\<rparr>"

record actor_payload =
  ap_type :: str
  ap_id :: str
  ap_roles :: "str list"

record audit_event_payload =
  ep_occurred_at :: str
  ep_schema_version :: "32 word"
  ep_source_service :: str
  ep_organization_id :: str
  ep_environment :: str
  ep_actor :: actor_payload
  ep_action :: str
  ep_target :: target_msg
  ep_outcome :: str
  ep_request :: request_context
  ep_correlation_id :: str
  ep_reason :: "str option"
  ep_metadata :: "(str \<times> str) list"

definition parse_actor_type :: "str \<Rightarrow> api_error + actor_type" where
  "parse_actor_type value =
     (let v = trim value in
      if v = u ''user'' then Inr Actor_User
      else if v = u ''api_key'' then Inr Actor_Api_Key
      else if v = u ''internal_service'' then Inr Actor_Internal_Service
      else if v = u ''anonymous'' then Inr Actor_Anonymous
      else Inl (api_error 400 (u ''actor.type must be one of: user, api_key, internal_service, anonymous'')))"

definition bad_outcome :: api_error where
  "bad_outcome = api_error 400 (u ''outcome must be one of: success, client_error, server_error'')"

definition parse_outcome :: "str \<Rightarrow> api_error + outcome" where
  "parse_outcome value =
     (let v = trim value in
      if v = u ''success'' then Inr Outcome_Success
      else if v = u ''client_error'' then Inr Outcome_Client_Error
      else if v = u ''server_error'' then Inr Outcome_Server_Error
      else Inl bad_outcome)"

definition into_proto :: "audit_event_payload \<Rightarrow> api_error + audit_event" where
  "into_proto p =
     and_then (parse_actor_type (ap_type (ep_actor p))) (\<lambda>actor_type.
     and_then (parse_outcome (ep_outcome p)) (\<lambda>outcome.
     Inr \<lparr>ev_occurred_at = ep_occurred_at p,
          ev_schema_version = sint (ep_schema_version p),
          ev_source_service = ep_source_service p,
          ev_organization_id = ep_organization_id p,
          ev_environment = ep_environment p,
          ev_actor = Some \<lparr>am_type = actor_type_i32 actor_type, am_id = ap_id (ep_actor p),
                          am_roles = ap_roles (ep_actor p)\<rparr>,
          ev_action = ep_action p,
          ev_target = Some (ep_target p),
          ev_outcome = outcome_i32 outcome,
          ev_request = Some (ep_request p),
          ev_correlation_id = ep_correlation_id p,
          ev_reason = ep_reason p,
          ev_metadata = ep_metadata p\<rparr>))"

definition normalize_environment :: "str option \<Rightarrow> api_error + str" where
  "normalize_environment value =
     (case map_option (\<lambda>s. to_lower (trim s)) value of
        Some env \<Rightarrow>
          if env = u ''sandbox'' then Inr (u ''sandbox'')
          else if env = u ''production'' then Inr (u ''production'')
          else Inl (api_error 400 (u ''environment must be 'sandbox' or 'production'' @ [39]))
      | None \<Rightarrow> Inl (api_error 400 (u ''environment must be 'sandbox' or 'production'' @ [39])))"

definition map_tonic_validation_error :: "grpc_status \<Rightarrow> api_error" where
  "map_tonic_validation_error status = api_error 400 (gs_message status)"

definition map_users_grpc_error :: "grpc_status \<Rightarrow> api_error" where
  "map_users_grpc_error status =
     (case gs_code status of
        Code_Unauthenticated \<Rightarrow> api_error 401 (gs_message status)
      | Code_Invalid_Argument \<Rightarrow> api_error 401 (gs_message status)
      | Code_Permission_Denied \<Rightarrow> api_error 403 (gs_message status)
      | _ \<Rightarrow> api_error 500 (u ''Failed to validate API key''))"

text \<open>\<^verbatim>\<open>.map(f).transpose()?\<close>\<close>

definition transpose_map :: "('a \<Rightarrow> 'e + 'b) \<Rightarrow> 'a option \<Rightarrow> 'e + 'b option" where
  "transpose_map f x = (case x of None \<Rightarrow> Inr None | Some a \<Rightarrow> and_then (f a) (\<lambda>b. Inr (Some b)))"

text \<open>The internal token of the caller against the configured one; \<open>what\<close> names the operation.\<close>

definition check_internal_token :: "'x audit_params \<Rightarrow> str \<Rightarrow> str \<Rightarrow> api_error + unit" where
  "check_internal_token Q what internal_token =
     and_then (ok_or (q_internal_token Q) (api_error 401 (what @ u '' not configured''))) (\<lambda>expected.
     ensure (internal_token = expected) (api_error 401 (u ''Invalid internal service token'')))"

definition append_audit_event ::
  "'x audit_params \<Rightarrow> headers \<Rightarrow> audit_event_payload \<Rightarrow> ('x audit_world, api_error, nat \<times> str) io" where
  "append_audit_event Q hs payload =
     bind_io (lift_result (ok_or (trimmed_header hs (u ''x-internal-service-token''))
       (api_error 401 (u ''X-Internal-Service-Token header is required'')))) (\<lambda>internal_token.
     bind_io (lift_result (check_internal_token Q (u ''Internal audit append is'') internal_token)) (\<lambda>_.
     bind_io (lift_result
       (and_then (transpose_map (\<lambda>v. normalize_environment (Some v)) (trimmed_header hs (u ''x-environment''))) (\<lambda>env.
        case env of
          Some environment \<Rightarrow>
            ensure (to_lower (trim (ep_environment payload)) = environment)
              (api_error 400 (u ''event.environment must match X-Environment''))
        | None \<Rightarrow> Inr ()))) (\<lambda>_.
     if c_uuid_parse (q_codec Q) (trim (ep_organization_id payload)) = None
     then throw (api_error 400 (u ''organization_id must be a UUID'')) else
     bind_io (lift_result (into_proto payload)) (\<lambda>ev.
     bind_io (audit_now Q) (\<lambda>now.
     bind_io (map_err_io map_tonic_validation_error (lift_result (validate_audit_event (q_codec Q) now ev))) (\<lambda>_.
     bind_io (map_err_io map_tonic_validation_error (lift_result (event_to_insert (q_codec Q) ev))) (\<lambda>row.
     bind_io (map_err_io (\<lambda>_. api_error 500 (u ''Failed to append audit event'')) (insert_audit_event Q row)) (\<lambda>i.
     ret (201, c_uuid_str (q_codec Q) i)))))))))"

record list_audit_events_query =
  lq_organization_id :: "str option"
  lq_environment :: "str option"
  lq_action :: "str option"
  lq_target_type :: "str option"
  lq_target_id :: "str option"
  lq_outcome :: "str option"
  lq_from :: "str option"
  lq_to :: "str option"
  lq_page :: "32 word option"
  lq_per_page :: "32 word option"

definition audit_parse_uuid :: "codec \<Rightarrow> str \<Rightarrow> api_error + uuid" where
  "audit_parse_uuid C value = ok_or (c_uuid_parse C (trim value)) (api_error 400 (u ''organization_id must be a UUID''))"

text \<open>With an internal token the caller names the organization; otherwise the organization is that of
  the API key.\<close>

definition resolve_list_scope ::
  "'x audit_params \<Rightarrow> headers \<Rightarrow> list_audit_events_query \<Rightarrow> ('x audit_world, api_error, uuid \<times> str) io" where
  "resolve_list_scope Q hs query =
     (case trimmed_header hs (u ''x-internal-service-token'') of
        Some internal_token \<Rightarrow>
          bind_io (lift_result (check_internal_token Q (u ''Internal audit reads are'') internal_token)) (\<lambda>_.
          bind_io (lift_result (and_then (ok_or (lq_organization_id query)
            (api_error 400 (u ''organization_id query parameter is required''))) (audit_parse_uuid (q_codec Q)))) (\<lambda>org.
          bind_io (lift_result (normalize_environment (lq_environment query))) (\<lambda>environment.
          ret (org, environment))))
      | None \<Rightarrow>
          bind_io (lift_result (transpose_map (\<lambda>s. normalize_environment (Some s)) (lq_environment query))) (\<lambda>given.
          bind_io (lift_result (transpose_map (\<lambda>s. normalize_environment (Some s))
            (case given of Some e \<Rightarrow> Some e | None \<Rightarrow> trimmed_header hs (u ''x-environment'')))) (\<lambda>env.
          let environment = unwrap_or env (u ''sandbox'') in
          bind_io (lift_result (ok_or (trimmed_header hs (u ''x-api-key''))
            (api_error 401 (u ''X-API-Key header is required'')))) (\<lambda>api_key.
          bind_io (map_err_io map_users_grpc_error (audit_validate_api_key Q api_key environment)) (\<lambda>(business_id, _, _).
          ret (business_id, environment))))))"

definition optional_trimmed :: "str option \<Rightarrow> str option" where
  "optional_trimmed value =
     (case value of None \<Rightarrow> None | Some s \<Rightarrow> if trim s = [] then None else Some (trim s))"

definition validate_outcome_filter :: "str \<Rightarrow> api_error + str" where
  "validate_outcome_filter value =
     (if value \<in> {u ''success'', u ''client_error'', u ''server_error''} then Inr value else Inl bad_outcome)"

definition audit_parse_rfc3339 :: "codec \<Rightarrow> str \<Rightarrow> api_error + time" where
  "audit_parse_rfc3339 C value =
     ok_or (c_rfc3339_parse C (trim value)) (api_error 400 (u ''from and to must be RFC3339 timestamps''))"

definition build_list_filters ::
  "codec \<Rightarrow> uuid \<Rightarrow> str \<Rightarrow> list_audit_events_query \<Rightarrow> api_error + audit_list_filters" where
  "build_list_filters C org env q =
     (let page = max (unwrap_or (lq_page q) 1) 1;
          per_page = min (max (unwrap_or (lq_per_page q) 25) 1) 100 in
      and_then (transpose_map validate_outcome_filter (optional_trimmed (lq_outcome q))) (\<lambda>outcome.
      and_then (transpose_map (audit_parse_rfc3339 C) (lq_from q)) (\<lambda>from_t.
      and_then (transpose_map (audit_parse_rfc3339 C) (lq_to q)) (\<lambda>to_t.
      Inr \<lparr>af_organization_id = org, af_environment = env,
           af_action = optional_trimmed (lq_action q),
           af_target_type = optional_trimmed (lq_target_type q),
           af_target_id = optional_trimmed (lq_target_id q),
           af_outcome = outcome, af_from = from_t, af_to = to_t,
           af_page = page, af_per_page = per_page\<rparr>))))"

record actor_response =
  acr_type :: str
  acr_id :: str
  acr_roles :: "str list"

record audit_event_response =
  aer_id :: str
  aer_occurred_at :: str
  aer_schema_version :: "16 word"
  aer_source_service :: str
  aer_organization_id :: str
  aer_environment :: str
  aer_actor :: actor_response
  aer_action :: str
  aer_target :: target_msg
  aer_outcome :: str
  aer_request :: request_context
  aer_correlation_id :: str
  aer_reason :: "str option"
  aer_metadata :: "(str \<times> str) list"
  aer_created_at :: str

definition audit_event_response_from :: "codec \<Rightarrow> audit_event_row \<Rightarrow> audit_event_response" where
  "audit_event_response_from C row =
     (let d = er_data row in
      \<lparr>aer_id = c_uuid_str C (er_id row),
       aer_occurred_at = c_rfc3339_str C (ins_occurred_at d),
       aer_schema_version = ins_schema_version d,
       aer_source_service = ins_source_service d,
       aer_organization_id = c_uuid_str C (ins_organization_id d),
       aer_environment = ins_environment d,
       aer_actor = \<lparr>acr_type = ins_actor_type d, acr_id = ins_actor_id d, acr_roles = ins_actor_roles d\<rparr>,
       aer_action = ins_action d,
       aer_target = \<lparr>tm_type = ins_target_type d, tm_id = ins_target_id d\<rparr>,
       aer_outcome = ins_outcome d,
       aer_request = \<lparr>rc_id = ins_request_id d, rc_method = ins_request_method d, rc_path = ins_request_path d,
                      rc_ip = ins_request_ip d, rc_user_agent = ins_request_user_agent d\<rparr>,
       aer_correlation_id = ins_correlation_id d,
       aer_reason = ins_reason d,
       aer_metadata = ins_metadata d,
       aer_created_at = c_rfc3339_str C (er_created_at row)\<rparr>)"

definition list_audit_events ::
  "'x audit_params \<Rightarrow> headers \<Rightarrow> list_audit_events_query
   \<Rightarrow> ('x audit_world, api_error, nat \<times> audit_event_response list \<times> pagination_meta) io" where
  "list_audit_events Q hs query =
     bind_io (resolve_list_scope Q hs query) (\<lambda>(organization_id, environment).
     bind_io (lift_result (build_list_filters (q_codec Q) organization_id environment query)) (\<lambda>filters.
     bind_io (map_err_io (\<lambda>_. api_error 500 (u ''Failed to list audit events'')) (list_audit_events_db Q filters))
       (\<lambda>(rows, pagination).
     ret (200, map (audit_event_response_from (q_codec Q)) rows, pagination))))"

end
