(* ===== verification/Audit_Spec.thy ===== *)
theory Audit_Spec
  imports Audit_Service Handler_Spec
begin

text \<open>
  Properties of the audit service: which events it stores and what it stores of them, that stored
  events are never changed, whose events a listing shows, and how the events of the accounts service
  fare in it.
\<close>

section \<open>Appending\<close>

definition audit_undisturbed :: "'x audit_params \<Rightarrow> bool" where
  "audit_undisturbed Q \<longleftrightarrow> (\<forall>t. q_other Q t = id) \<and> (\<forall>t. q_fault Q t = No_Fault)"

lemma audit_query_undisturbed [simp]:
  "audit_undisturbed Q \<Longrightarrow>
   audit_query Q q w = (fst (q (aw_tick w) (aw_rows w)),
     w\<lparr>aw_rows := snd (q (aw_tick w) (aw_rows w)), aw_tick := Suc (aw_tick w)\<rparr>)"
  by (simp add: audit_query_def audit_undisturbed_def Let_def)

lemma audit_now_apply [io_simps]: "audit_now Q w = (Inr (q_clock Q (aw_tick w)), w\<lparr>aw_tick := Suc (aw_tick w)\<rparr>)"
  by (simp add: audit_now_def)

text \<open>
  C22. The gRPC append, undisturbed: an event is stored exactly when it satisfies the catalogue rules;
  then one row is added whose content is the event's, action and environment trimmed, schema version 1,
  an outcome and an actor type of the four and three known ones, and its identifier is returned. Any
  other event is refused as an invalid argument and the table stays as it is.
\<close>

theorem append_stores_exactly_valid:
  assumes "audit_undisturbed Q" "q_uuid Q (Suc (aw_tick w)) \<notin> er_id ` set (aw_rows w)"
    and "append_audit_event_grpc Q (Some ev) w = (r, w')"
  shows "if valid_event (q_codec Q) (q_clock Q (aw_tick w)) ev
    then \<exists>row. event_to_insert (q_codec Q) ev = Inr (er_data row) \<and> aw_rows w' = aw_rows w @ [row] \<and>
           r = Inr (c_uuid_str (q_codec Q) (er_id row)) \<and>
           ins_action (er_data row) = trim (ev_action ev) \<and> ins_environment (er_data row) = trim (ev_environment ev) \<and>
           ins_schema_version (er_data row) = 1 \<and>
           c_uuid_parse (q_codec Q) (trim (ev_organization_id ev)) = Some (ins_organization_id (er_data row)) \<and>
           ins_outcome (er_data row) \<in> {u ''success'', u ''client_error'', u ''server_error''} \<and>
           ins_actor_type (er_data row) \<in> {u ''user'', u ''api_key'', u ''internal_service'', u ''anonymous''}
    else \<exists>e. r = Inl e \<and> gs_code e = Code_Invalid_Argument \<and> aw_rows w' = aw_rows w"
proof (cases "valid_event (q_codec Q) (q_clock Q (aw_tick w)) ev")
  case True
  then have ok: "validate_audit_event (q_codec Q) (q_clock Q (aw_tick w)) ev = Inr ()"
    by (simp add: validate_audit_event_iff)
  obtain data where data: "event_to_insert (q_codec Q) ev = Inr data"
    "ins_action data = trim (ev_action ev)" "ins_environment data = trim (ev_environment ev)"
    "ins_schema_version data = 1" "c_uuid_parse (q_codec Q) (trim (ev_organization_id ev)) = Some (ins_organization_id data)"
    "ins_outcome data \<in> {u ''success'', u ''client_error'', u ''server_error''}"
    "ins_actor_type data \<in> {u ''user'', u ''api_key'', u ''internal_service'', u ''anonymous''}"
    using valid_event_row [OF True] by blast
  let ?n = "Suc (aw_tick w)"
  let ?row = "\<lparr>er_id = q_uuid Q ?n, er_data = data, er_created_at = q_clock Q ?n\<rparr>"
  have "aw_rows w' = aw_rows w @ [?row] \<and> r = Inr (c_uuid_str (q_codec Q) (er_id ?row))"
    using assms ok data(1)
    by (auto simp: append_audit_event_grpc_def io_simps insert_audit_event_def insert_event_stmt_def)
  with True data show ?thesis by (auto intro!: exI [of _ ?row])
next
  case False
  then obtain e where e: "validate_audit_event (q_codec Q) (q_clock Q (aw_tick w)) ev = Inl e"
    using validate_audit_event_iff by (cases "validate_audit_event (q_codec Q) (q_clock Q (aw_tick w)) ev") auto
  moreover have "gs_code e = Code_Invalid_Argument"
    using validation_error_code [OF e] .
  ultimately show ?thesis
    using False assms(3) by (auto simp: append_audit_event_grpc_def io_simps)
qed

text \<open>A codec to evaluate with: UUIDs and times as decimal numbers.\<close>

definition demo_codec :: codec where
  "demo_codec = \<lparr>c_uuid_parse = (\<lambda>s. map_option of_nat (parse_digits s)), c_uuid_str = (\<lambda>i. show_nat (unat i)),
     c_rfc3339_parse = (\<lambda>s. map_option int (parse_digits s)), c_rfc3339_str = (\<lambda>t. show_nat (nat t))\<rparr>"

definition demo_audit :: "nat audit_params" where
  "demo_audit = \<lparr>q_codec = demo_codec, q_other = (\<lambda>_. id), q_fault = (\<lambda>_. No_Fault), q_clock = (\<lambda>t. 1000000 * int t),
     q_uuid = (\<lambda>t. of_nat (100 + t)), q_constraint_error = u ''constraint'',
     q_validate_key = (\<lambda>_ _ x. (Inr (u ''7'', u ''8'', u ''9''), x)), q_internal_token = Some (u ''secret'')\<rparr>"

definition demo_event :: audit_event where
  "demo_event = \<lparr>ev_occurred_at = u ''0'', ev_schema_version = 1, ev_source_service = u ''accounts'',
     ev_organization_id = u ''7'', ev_environment = u ''sandbox'',
     ev_actor = Some \<lparr>am_type = 4, am_id = [], am_roles = []\<rparr>, ev_action = u ''accounts.money.deposit'',
     ev_target = Some \<lparr>tm_type = u ''account'', tm_id = u ''1''\<rparr>, ev_outcome = 1,
     ev_request = Some \<lparr>rc_id = u ''5'', rc_method = u ''POST'', rc_path = u ''x'', rc_ip = [], rc_user_agent = []\<rparr>,
     ev_correlation_id = u ''c'', ev_reason = None, ev_metadata = []\<rparr>"

lemma demo_audit_ok: "audit_undisturbed demo_audit"
  by (simp add: audit_undisturbed_def demo_audit_def)

lemma demo_event_acceptable: "valid_event demo_codec 0 demo_event"
proof -
  have digit: "parse_digits (u [c]) = Some (of_char c - 48)" if "is_digit (of_char c)" for c
    using that by (simp add: parse_digits_def u_def digits_val_def)
  have "show_nat 7 \<noteq> u ''00000000-0000-0000-0000-000000000000''"
    by (subst show_nat.simps) (simp add: u_def)
  then show ?thesis
    by (simp add: valid_event_def demo_event_def demo_codec_def digit trim_u is_digit_def is_ws_def
        ALL_ACTIONS_def NIL_UUID_def outcome_try_from_def actor_type_try_from_def)
qed

theorem append_stores_exactly_valid_witness:
  "\<exists>i w'. append_audit_event_grpc demo_audit (Some demo_event) \<lparr>aw_rows = [], aw_ext = 0, aw_tick = 0\<rparr>
     = (Inr i, w') \<and> map (ins_action \<circ> er_data) (aw_rows w') = [u ''accounts.money.deposit'']"
proof -
  let ?w = "\<lparr>aw_rows = [], aw_ext = 0, aw_tick = 0\<rparr> :: nat audit_world"
  obtain r w' where run: "append_audit_event_grpc demo_audit (Some demo_event) ?w = (r, w')" by fastforce
  have valid: "valid_event (q_codec demo_audit) (q_clock demo_audit (aw_tick ?w)) demo_event"
    using demo_event_acceptable by (simp add: demo_audit_def)
  have "trim (ev_action demo_event) = u ''accounts.money.deposit''"
    by (simp add: demo_event_def trim_u is_ws_def)
  then show ?thesis
    using append_stores_exactly_valid [OF demo_audit_ok _ run] valid run by auto
qed

section \<open>The table only grows\<close>

definition audit_grows :: "'x audit_world \<Rightarrow> 'x audit_world \<Rightarrow> bool" where
  "audit_grows w w' \<longleftrightarrow>
     (\<exists>new. aw_rows w' = aw_rows w @ new) \<and> (distinct (map er_id (aw_rows w)) \<longrightarrow> distinct (map er_id (aw_rows w')))"

interpretation growing: run_preorder audit_grows
  by unfold_locales (auto simp: audit_grows_def)

text \<open>Other processes are further instances of the service: they append rows under fresh identifiers.\<close>

definition others_append :: "'x audit_params \<Rightarrow> bool" where
  "others_append Q \<longleftrightarrow>
     (\<forall>t d. (\<exists>new. q_other Q t d = d @ new) \<and> (distinct (map er_id d) \<longrightarrow> distinct (map er_id (q_other Q t d))))"

lemma audit_query_grows:
  assumes "others_append Q"
    and q: "\<And>t d. (\<exists>new. snd (q t d) = d @ new) \<and> (distinct (map er_id d) \<longrightarrow> distinct (map er_id (snd (q t d))))"
  shows "keeps audit_grows (audit_query Q q)"
proof (rule keepsI)
  fix w :: "'a audit_world"
  let ?d = "q_other Q (aw_tick w) (aw_rows w)"
  obtain a where a: "?d = aw_rows w @ a" "distinct (map er_id (aw_rows w)) \<longrightarrow> distinct (map er_id ?d)"
    using assms(1) unfolding others_append_def by blast
  moreover obtain b where "snd (q (aw_tick w) ?d) = ?d @ b"
    "distinct (map er_id ?d) \<longrightarrow> distinct (map er_id (snd (q (aw_tick w) ?d)))"
    using q by blast
  ultimately show "audit_grows w (snd (audit_query Q q w))"
    unfolding audit_grows_def audit_query_def Let_def by (auto split: db_fault.split)
qed

lemmas audit_composed =
  growing.keeps_bind growing.keeps_try growing.keeps_if growing.keeps_option growing.keeps_sum growing.keeps_ret
  growing.keeps_throw growing.keeps_lift growing.keeps_map_err

lemma audit_statements_grow:
  assumes "others_append Q"
  shows "keeps audit_grows (insert_audit_event Q row)" "keeps audit_grows (count_audit_events Q f)"
    "keeps audit_grows (list_audit_events_db Q f)" "keeps audit_grows (audit_now Q)"
    "keeps audit_grows (audit_validate_api_key Q k env)"
proof -
  show "keeps audit_grows (insert_audit_event Q row)"
    unfolding insert_audit_event_def
    by (rule audit_query_grows [OF assms]) (auto simp: insert_event_stmt_def)
  show c: "keeps audit_grows (count_audit_events Q f)" for f
    unfolding count_audit_events_def by (rule audit_query_grows [OF assms]) auto
  show "keeps audit_grows (list_audit_events_db Q f)"
    unfolding list_audit_events_db_def Let_def
    by (intro audit_composed c audit_query_grows [OF assms]) auto
  show "keeps audit_grows (audit_now Q)" by (auto intro: keepsI simp: audit_now_def audit_grows_def)
  have "keeps audit_grows (\<lambda>w. (fst (q_validate_key Q k env (aw_ext w)),
      w\<lparr>aw_ext := snd (q_validate_key Q k env (aw_ext w)), aw_tick := Suc (aw_tick w)\<rparr>))"
    by (auto intro: keepsI simp: audit_grows_def)
  then show "keeps audit_grows (audit_validate_api_key Q k env)"
    unfolding audit_validate_api_key_def by (auto intro!: audit_composed split: prod.split)
qed

text \<open>
  C23. The audit trail is append-only: whatever fails, and while further instances append as well, every
  operation of the service, gRPC or HTTP, accepted or refused, leaves all stored rows in place and
  unchanged, and identifiers stay unique.
\<close>

theorem audit_append_only:
  assumes "others_append Q"
  shows "audit_grows w (snd (append_audit_event_grpc Q event w)) \<and>
    audit_grows w (snd (append_audit_event Q hs payload w)) \<and>
    audit_grows w (snd (list_audit_events Q hs query w))"
proof (intro conjI)
  note parts = audit_statements_grow [OF assms]
  have "keeps audit_grows (append_audit_event_grpc Q event)"
    unfolding append_audit_event_grpc_def by (intro audit_composed parts)
  then show "audit_grows w (snd (append_audit_event_grpc Q event w))" by (rule keepsD)
  have "keeps audit_grows (append_audit_event Q hs payload)"
    unfolding append_audit_event_def by (intro audit_composed parts)
  then show "audit_grows w (snd (append_audit_event Q hs payload w))" by (rule keepsD)
  have "keeps audit_grows (resolve_list_scope Q hs query)"
    unfolding resolve_list_scope_def Let_def by (auto intro!: audit_composed parts split: prod.split)
  then have "keeps audit_grows (list_audit_events Q hs query)"
    unfolding list_audit_events_def by (auto intro!: audit_composed parts split: prod.split)
  then show "audit_grows w (snd (list_audit_events Q hs query w))" by (rule keepsD)
qed

text \<open>Two stored events, of different organizations.\<close>

definition demo_insert :: "uuid \<Rightarrow> string \<Rightarrow> audit_insert" where
  "demo_insert org env = \<lparr>ins_occurred_at = 0, ins_schema_version = 1, ins_source_service = u ''accounts'',
     ins_organization_id = org, ins_environment = u env, ins_actor_type = u ''anonymous'', ins_actor_id = [],
     ins_actor_roles = [], ins_action = u ''accounts.money.deposit'', ins_target_type = u ''account'',
     ins_target_id = u ''1'', ins_outcome = u ''success'', ins_request_id = u ''5'', ins_request_method = u ''POST'',
     ins_request_path = u ''x'', ins_request_ip = [], ins_request_user_agent = [], ins_correlation_id = u ''c'',
     ins_reason = None, ins_metadata = []\<rparr>"

definition demo_trail :: "nat audit_world" where
  "demo_trail = \<lparr>aw_rows = [\<lparr>er_id = 1, er_data = demo_insert 7 ''sandbox'', er_created_at = 0\<rparr>,
     \<lparr>er_id = 2, er_data = demo_insert 8 ''sandbox'', er_created_at = 0\<rparr>], aw_ext = 0, aw_tick = 0\<rparr>"

text \<open>Another instance appends one row before every statement.\<close>

definition busy_audit :: "nat audit_params" where
  "busy_audit = demo_audit\<lparr>q_other := \<lambda>t d. if of_nat (500 + t) \<in> er_id ` set d then d
     else d @ [\<lparr>er_id = of_nat (500 + t), er_data = demo_insert 9 ''production'', er_created_at = 0\<rparr>]\<rparr>"

lemma busy_audit_append:
  "\<exists>i w'. append_audit_event_grpc busy_audit (Some demo_event) demo_trail = (Inr i, w') \<and> length (aw_rows w') = 4"
proof -
  have "validate_audit_event demo_codec 0 demo_event = Inr ()"
    using demo_event_acceptable by (simp add: validate_audit_event_iff)
  moreover obtain data where "event_to_insert demo_codec demo_event = Inr data"
    using valid_event_row [OF demo_event_acceptable] by blast
  ultimately show ?thesis
    by (simp add: append_audit_event_grpc_def io_simps insert_audit_event_def insert_event_stmt_def audit_query_def
        busy_audit_def demo_audit_def demo_trail_def)
qed

text \<open>Two rows are stored; the other instance adds one and the event of the request one more.\<close>

theorem audit_append_only_witness:
  "\<exists>i w'. append_audit_event_grpc busy_audit (Some demo_event) demo_trail = (Inr i, w') \<and>
     take 2 (aw_rows w') = aw_rows demo_trail \<and> length (aw_rows w') = 4 \<and> distinct (map er_id (aw_rows w'))"
proof -
  have "others_append busy_audit" by (auto simp: others_append_def busy_audit_def)
  moreover obtain i w' where run: "append_audit_event_grpc busy_audit (Some demo_event) demo_trail = (Inr i, w')"
    "length (aw_rows w') = 4" using busy_audit_append by blast
  ultimately have "audit_grows demo_trail w'" using audit_append_only by (metis snd_conv)
  then obtain new where "aw_rows w' = aw_rows demo_trail @ new"
    "distinct (map er_id (aw_rows demo_trail)) \<longrightarrow> distinct (map er_id (aw_rows w'))"
    unfolding audit_grows_def by blast
  with run show ?thesis by (simp add: demo_trail_def)
qed

section \<open>Listing\<close>

lemma normalize_environment_Inr:
  "normalize_environment v = Inr env \<Longrightarrow> env = u ''sandbox'' \<or> env = u ''production''"
  by (auto simp: normalize_environment_def split: option.splits if_splits)

lemma transpose_map_Inr:
  "transpose_map f x = Inr y \<longleftrightarrow> (x = None \<and> y = None) \<or> (\<exists>a b. x = Some a \<and> f a = Inr b \<and> y = Some b)"
  by (cases x) (auto simp: transpose_map_def and_then_Inr)

text \<open>Where the scope of a listing comes from.\<close>

lemma resolve_scope_Inr:
  assumes "resolve_list_scope Q hs query w = (Inr (org, env), w')"
  shows "env \<in> {u ''sandbox'', u ''production''} \<and>
    (case trimmed_header hs (u ''x-internal-service-token'') of
       Some token \<Rightarrow> q_internal_token Q = Some token \<and>
         (\<exists>s. lq_organization_id query = Some s \<and> c_uuid_parse (q_codec Q) (trim s) = Some org)
     | None \<Rightarrow> \<exists>key e a w0. trimmed_header hs (u ''x-api-key'') = Some key \<and>
         audit_validate_api_key Q key env w0 = (Inr (org, e, a), w'))"
proof (cases "trimmed_header hs (u ''x-internal-service-token'')")
  case None
  then show ?thesis
    using assms
    by (auto simp: resolve_list_scope_def io_simps Let_def transpose_map_Inr unwrap_or_def ok_or_Inr
        dest!: normalize_environment_Inr split: prod.splits sum.splits option.splits)
next
  case (Some token)
  then show ?thesis
    using assms
    by (auto simp: resolve_list_scope_def io_simps check_internal_token_def and_then_Inr ok_or_Inr
        audit_parse_uuid_def dest!: normalize_environment_Inr split: prod.splits sum.splits)
qed

definition event_page :: "audit_list_filters \<Rightarrow> audit_event_row list \<Rightarrow> 32 word \<Rightarrow> 32 word \<Rightarrow> audit_event_row list" where
  "event_page f rows page per_page = limit_offset per_page (page_offset page per_page) (event_listing f rows)"

interpretation event_pages: paged_listing "event_page f" "event_listing f" for f
  by unfold_locales (simp add: event_page_def)

lemma list_db_rows:
  assumes "list_audit_events_db Q f w = (Inr (rows, meta), w')"
  shows "\<exists>d. rows = event_page f d (af_page f) (af_per_page f)"
  using assms
  by (auto simp: list_audit_events_db_def count_audit_events_def io_simps Let_def audit_query_def event_page_def
      split: prod.splits sum.splits db_fault.splits)

lemma listing_rows: "r \<in> set (event_page f d page per_page) \<Longrightarrow> r \<in> set d \<and> filter_clause f r"
  using event_pages.page_sub [of f d page per_page] by (auto simp: event_listing_def)

text \<open>What a successful listing shows is the scope it resolved first.\<close>

lemma listing_content:
  assumes "list_audit_events Q hs query w = (Inr (code, events, meta), w')"
  obtains org env w1 where "resolve_list_scope Q hs query w = (Inr (org, env), w1)" "code = 200" "length events \<le> 100"
    "list_all (\<lambda>ev. aer_organization_id ev = c_uuid_str (q_codec Q) org \<and> aer_environment ev = env) events"
proof -
  obtain org env w1 where scope: "resolve_list_scope Q hs query w = (Inr (org, env), w1)"
    using assms by (auto simp: list_audit_events_def io_simps split: prod.splits sum.splits)
  obtain f where f: "build_list_filters (q_codec Q) org env query = Inr f"
    using assms scope by (auto simp: list_audit_events_def io_simps split: prod.splits sum.splits)
  obtain rows where db: "list_audit_events_db Q f w1 = (Inr (rows, meta), w')"
    and events: "code = 200" "events = map (audit_event_response_from (q_codec Q)) rows"
    using assms scope f by (auto simp: list_audit_events_def io_simps split: prod.splits sum.splits)
  obtain d where d: "rows = event_page f d (af_page f) (af_per_page f)" using list_db_rows [OF db] by blast
  have scope_f: "af_organization_id f = org" "af_environment f = env" "unat (af_per_page f) \<le> 100"
    using f by (auto simp: build_list_filters_def and_then_Inr Let_def word_le_nat_alt min_def)
  have "length events \<le> 100" using event_pages.page_bounded [of f d "af_page f" "af_per_page f"] d scope_f(3) events(2) by simp
  moreover have "list_all (\<lambda>ev. aer_organization_id ev = c_uuid_str (q_codec Q) org \<and> aer_environment ev = env) events"
    unfolding events(2) list_all_iff d
    using scope_f(1,2) by (auto simp: audit_event_response_from_def filter_clause_def Let_def dest!: listing_rows)
  ultimately show thesis using that scope events(1) by blast
qed

text \<open>
  C24. Tenants are separated: whatever fails and whatever other instances do, a successful listing
  without an internal token shows only events of the business the users service has named for the API
  key, in one of the two environments, and never more than one page.
\<close>

theorem audit_listing_scoped:
  assumes "list_audit_events Q hs query w = (Inr (code, events, meta), w')"
    and "trimmed_header hs (u ''x-internal-service-token'') = None"
  shows "\<exists>key env business e a w0 w1.
    trimmed_header hs (u ''x-api-key'') = Some key \<and> env \<in> {u ''sandbox'', u ''production''} \<and>
    audit_validate_api_key Q key env w0 = (Inr (business, e, a), w1) \<and>
    code = 200 \<and> length events \<le> 100 \<and>
    list_all (\<lambda>ev. aer_organization_id ev = c_uuid_str (q_codec Q) business \<and> aer_environment ev = env) events"
proof -
  obtain org env w1 where scope: "resolve_list_scope Q hs query w = (Inr (org, env), w1)"
    and shown: "code = 200" "length events \<le> 100"
      "list_all (\<lambda>ev. aer_organization_id ev = c_uuid_str (q_codec Q) org \<and> aer_environment ev = env) events"
    using assms(1) by (rule listing_content)
  obtain key e a w0 where "trimmed_header hs (u ''x-api-key'') = Some key"
    "audit_validate_api_key Q key env w0 = (Inr (org, e, a), w1)" "env \<in> {u ''sandbox'', u ''production''}"
    using resolve_scope_Inr [OF scope] assms(2) by auto
  then show ?thesis using shown by blast
qed

definition key_headers :: headers where
  "key_headers = [(u ''x-api-key'', u ''k'')]"

definition any_query :: list_audit_events_query where
  "any_query = \<lparr>lq_organization_id = None, lq_environment = None, lq_action = None, lq_target_type = None,
     lq_target_id = None, lq_outcome = None, lq_from = None, lq_to = None, lq_page = None, lq_per_page = None\<rparr>"

lemma key_headers_simps:
  "trimmed_header key_headers (u ''x-api-key'') = Some (u ''k'')"
  "trimmed_header key_headers (u ''x-internal-service-token'') = None"
  "trimmed_header key_headers (u ''x-environment'') = None"
  by (simp_all add: key_headers_def trimmed_header_def header_str_def header_byte_ok_def to_lower_def lower_cp_def
      u_def trim_def trim_start_def trim_end_def is_ws_def)

lemma demo_codec_parse:
  "q_codec demo_audit = demo_codec" "c_uuid_parse demo_codec (u ''7'') = Some 7"
  "c_uuid_parse demo_codec (u ''8'') = Some 8" "c_uuid_parse demo_codec (u ''9'') = Some 9"
proof -
  have digit: "parse_digits (u [c]) = Some (of_char c - 48)" if "is_digit (of_char c)" for c
    using that by (simp add: parse_digits_def u_def digits_val_def)
  show "q_codec demo_audit = demo_codec" "c_uuid_parse demo_codec (u ''7'') = Some 7"
    "c_uuid_parse demo_codec (u ''8'') = Some 8" "c_uuid_parse demo_codec (u ''9'') = Some 9"
    by (simp_all add: demo_audit_def demo_codec_def digit is_digit_def)
qed

lemma demo_scope:
  "\<exists>w'. resolve_list_scope demo_audit key_headers any_query demo_trail = (Inr (7, u ''sandbox''), w') \<and>
     aw_rows w' = aw_rows demo_trail"
proof -
  have call: "q_validate_key demo_audit k e x = (Inr (u ''7'', u ''8'', u ''9''), x)" for k e x
    by (simp add: demo_audit_def)
  show ?thesis
    by (simp add: resolve_list_scope_def key_headers_simps any_query_def transpose_map_def io_simps Let_def
        audit_validate_api_key_def demo_codec_parse call)
qed

lemma demo_list:
  "\<exists>meta w'. list_audit_events demo_audit key_headers any_query demo_trail
     = (Inr (200, [audit_event_response_from demo_codec \<lparr>er_id = 1, er_data = demo_insert 7 ''sandbox'', er_created_at = 0\<rparr>], meta), w')"
proof -
  note scope = demo_scope
  have listing: "event_listing f (aw_rows demo_trail) = [\<lparr>er_id = 1, er_data = demo_insert 7 ''sandbox'', er_created_at = 0\<rparr>]"
    if "f = \<lparr>af_organization_id = 7, af_environment = u ''sandbox'', af_action = None, af_target_type = None,
      af_target_id = None, af_outcome = None, af_from = None, af_to = None, af_page = 1, af_per_page = 25\<rparr>" for f
    using that by (simp add: event_listing_def sort_desc_def filter_clause_def opt_all_def demo_trail_def demo_insert_def)
  have filters: "build_list_filters demo_codec 7 (u ''sandbox'') any_query = Inr
      \<lparr>af_organization_id = 7, af_environment = u ''sandbox'', af_action = None, af_target_type = None,
      af_target_id = None, af_outcome = None, af_from = None, af_to = None, af_page = 1, af_per_page = 25\<rparr>"
    by (simp add: build_list_filters_def any_query_def transpose_map_def optional_trimmed_def)
  show ?thesis
    using scope
    by (auto simp: list_audit_events_def io_simps demo_codec_parse filters list_audit_events_db_def count_audit_events_def
        demo_audit_ok Let_def listing limit_offset_def page_offset_def)
qed

theorem audit_listing_scoped_witness:
  "\<exists>events meta w'. list_audit_events demo_audit key_headers any_query demo_trail = (Inr (200, events, meta), w') \<and>
     length events = 1 \<and> (\<exists>business. list_all (\<lambda>ev. aer_organization_id ev = c_uuid_str demo_codec business) events)"
proof -
  obtain meta w' where run: "list_audit_events demo_audit key_headers any_query demo_trail
     = (Inr (200, [audit_event_response_from demo_codec \<lparr>er_id = 1, er_data = demo_insert 7 ''sandbox'', er_created_at = 0\<rparr>], meta), w')"
    using demo_list by blast
  have "q_codec demo_audit = demo_codec" by (simp add: demo_audit_def)
  with audit_listing_scoped [OF run key_headers_simps(2)] run show ?thesis by auto
qed

section \<open>Events of the accounts service\<close>

text \<open>
  An accounts request may write its environment in any case, but its audit event keeps the spelling,
  and a listing only ever asks for the two lower-case names: the event of a request with X-Environment
  Sandbox is accepted by the audit service, stored, and shown by no listing.
\<close>

theorem mixed_case_environment_unlisted:
  assumes "environment_from_headers hs \<notin> {u ''sandbox'', u ''production''}" "ev_environment ev = environment_from_headers hs"
    and "event_to_insert C ev = Inr data" "row = \<lparr>er_id = i, er_data = data, er_created_at = at\<rparr>"
    and "resolve_list_scope Q hs' query w = (Inr (org, env), w')" "build_list_filters C org env query = Inr f"
  shows "row \<notin> set (event_page f d page per_page)"
proof
  assume "row \<in> set (event_page f d page per_page)"
  then have "filter_clause f row" using listing_rows by blast
  moreover have "af_environment f = env" using assms(6) by (auto simp: build_list_filters_def and_then_Inr Let_def)
  moreover have "env \<in> {u ''sandbox'', u ''production''}" using resolve_scope_Inr [OF assms(5)] by simp
  moreover have "ins_environment data = trim (environment_from_headers hs)"
    using assms(2,3) by (auto simp: event_to_insert_def and_then_Inr)
  moreover have "trim (environment_from_headers hs) = environment_from_headers hs"
    by (auto simp: environment_from_headers_def unwrap_or_def trim_u is_ws_def dest: trimmed_header_Some split: option.split)
  ultimately show False using assms(1,4) by (auto simp: filter_clause_def)
qed

definition mixed_headers :: headers where
  "mixed_headers = [(u ''x-environment'', u ''Sandbox'')]"

lemma mixed_headers_simps:
  "extract_environment mixed_headers = Inr (u ''sandbox'')"
  "environment_from_headers mixed_headers = u ''Sandbox''"
  by (simp_all add: mixed_headers_def extract_environment_def environment_from_headers_def trimmed_header_def
      header_str_def header_byte_ok_def to_lower_def lower_cp_def u_def trim_def trim_start_def trim_end_def is_ws_def)

definition mixed_event :: audit_event where
  "mixed_event = demo_event\<lparr>ev_environment := u ''Sandbox''\<rparr>"

theorem mixed_case_environment_unlisted_witness:
  "extract_environment mixed_headers = Inr (u ''sandbox'') \<and>
   (\<exists>data f. event_to_insert demo_codec mixed_event = Inr data \<and>
      build_list_filters demo_codec 7 (u ''sandbox'') any_query = Inr f \<and>
      \<lparr>er_id = 1, er_data = data, er_created_at = 0\<rparr>
        \<notin> set (event_page f [\<lparr>er_id = 1, er_data = data, er_created_at = 0\<rparr>] 1 25))"
proof -
  have digit: "parse_digits (u [c]) = Some (of_char c - 48)" if "is_digit (of_char c)" for c
    using that by (simp add: parse_digits_def u_def digits_val_def)
  obtain data where data: "event_to_insert demo_codec mixed_event = Inr data"
    by (simp add: event_to_insert_def mixed_event_def demo_event_def demo_codec_def digit is_digit_def trim_u is_ws_def
        actor_type_try_from_def outcome_try_from_def)
  obtain w' where scope: "resolve_list_scope demo_audit key_headers any_query demo_trail = (Inr (7, u ''sandbox''), w')"
    using demo_scope by blast
  obtain f where f: "build_list_filters demo_codec 7 (u ''sandbox'') any_query = Inr f"
    by (simp add: build_list_filters_def any_query_def transpose_map_def optional_trimmed_def)
  have "\<lparr>er_id = 1, er_data = data, er_created_at = 0\<rparr>
      \<notin> set (event_page f [\<lparr>er_id = 1, er_data = data, er_created_at = 0\<rparr>] 1 25)"
    by (rule mixed_case_environment_unlisted [OF _ _ data refl scope f, of mixed_headers])
      (simp_all add: mixed_headers_simps mixed_event_def)
  with data f mixed_headers_simps(1) show ?thesis by blast
qed

text \<open>What the two services must agree on: the audit service reads back the UUIDs and times the accounts
  service prints, only the nil UUID prints as the nil text, and the clocks differ by at most five
  minutes.\<close>

definition codecs_agree :: "'x params \<Rightarrow> codec \<Rightarrow> time \<Rightarrow> bool" where
  "codecs_agree P C now \<longleftrightarrow>
     (\<forall>i. trim (p_uuid_str P i) = p_uuid_str P i \<and> p_uuid_str P i \<noteq> [] \<and>
          c_uuid_parse C (p_uuid_str P i) = Some i) \<and>
     (\<forall>i. i \<noteq> 0 \<longrightarrow> c_uuid_str C i \<noteq> NIL_UUID) \<and>
     (\<forall>n. c_rfc3339_parse C (p_rfc3339 P (p_clock P n)) = Some (p_clock P n) \<and> p_clock P n \<le> now + 300000000)"

lemma error_text_start: "\<exists>c s. error_to_string e = c # s \<and> \<not> is_ws c"
  by (cases e) (simp_all add: u_def is_ws_def)

lemma truncated_length:
  "length (trim (truncate_reason (error_to_string e))) \<le> 500 \<longleftrightarrow> length (error_to_string e) \<le> 500"
proof (cases "length (error_to_string e) \<le> 500")
  case True
  then show ?thesis using length_trim_le [of "error_to_string e"] by (simp add: truncate_reason_short)
next
  case False
  let ?t = "take 500 (error_to_string e) @ [0x2026]"
  have t: "truncate_reason (error_to_string e) = ?t" using False by (simp add: truncate_reason_def Let_def)
  obtain c s where "error_to_string e = c # s" "\<not> is_ws c" using error_text_start by blast
  then have "trim ?t = ?t" by (intro trim_fixed) (simp_all add: is_ws_def)
  then show ?thesis using False by (simp add: t)
qed

lemma outcome_from_status_ok: "\<exists>out. outcome_try_from (outcome_from_status n) = Some out \<and> out \<noteq> Outcome_Unspecified"
  by (simp add: outcome_from_status_def outcome_try_from_def)

lemma length_show_nat_small: "n < 1000 \<Longrightarrow> length (show_nat n) \<le> 3"
  by (subst show_nat.simps, simp, subst show_nat.simps, simp, subst show_nat.simps, simp)

lemma correlation_run:
  assumes "codecs_agree P C now"
  shows "\<exists>corr n. correlation_from_headers P hs w = (Inr corr, w\<lparr>w_tick := n\<rparr>) \<and> trim corr \<noteq> []"
proof (cases "trimmed_header hs (u ''x-correlation-id'')")
  case None
  then show ?thesis
    using assms by (auto simp: correlation_from_headers_def new_v4_def io_simps codecs_agree_def)
next
  case (Some s)
  then have "correlation_from_headers P hs w = (Inr s, w\<lparr>w_tick := w_tick w\<rparr>)"
    by (simp add: correlation_from_headers_def io_simps)
  then show ?thesis using trimmed_header_Some [OF Some] by metis
qed

text \<open>The event as it is sent.\<close>

definition sent_event ::
  "'x params \<Rightarrow> headers \<Rightarrow> str \<Rightarrow> str \<Rightarrow> str \<Rightarrow> str \<Rightarrow> uuid \<Rightarrow> actor_type \<Rightarrow> str \<Rightarrow> str list
   \<Rightarrow> str \<Rightarrow> uuid \<Rightarrow> nat \<Rightarrow> str option \<Rightarrow> (str \<times> str) list \<Rightarrow> nat \<Rightarrow> str \<Rightarrow> str \<Rightarrow> audit_event" where
  "sent_event P hs peer verb path action org at actor_id roles tt ti status reason meta n rid corr =
     \<lparr>ev_occurred_at = p_rfc3339 P (p_clock P n), ev_schema_version = 1, ev_source_service = u ''accounts'',
      ev_organization_id = p_uuid_str P org, ev_environment = environment_from_headers hs,
      ev_actor = Some \<lparr>am_type = actor_type_i32 at, am_id = actor_id, am_roles = roles\<rparr>, ev_action = action,
      ev_target = Some \<lparr>tm_type = tt, tm_id = p_uuid_str P ti\<rparr>, ev_outcome = outcome_from_status status,
      ev_request = Some \<lparr>rc_id = rid, rc_method = verb, rc_path = path, rc_ip = client_ip hs peer,
                        rc_user_agent = user_agent hs\<rparr>,
      ev_correlation_id = corr, ev_reason = reason, ev_metadata = meta\<rparr>"

lemma emit_exact:
  assumes "p_audit_client P" "codecs_agree P C now"
  shows "\<exists>n rid corr m. trim corr \<noteq> [] \<and>
    emit_accounts_mutation P hs peer verb path action org at actor_id roles tt ti status reason meta w =
      (Inr (), w\<lparr>w_audit := w_audit w @ [sent_event P hs peer verb path action org at actor_id roles tt ti status reason
         meta n rid corr], w_tick := m\<rparr>)"
proof -
  obtain corr n where "correlation_from_headers P hs (w\<lparr>w_tick := Suc (Suc (w_tick w))\<rparr>) = (Inr corr, w\<lparr>w_tick := n\<rparr>)"
    "trim corr \<noteq> []"
    using correlation_run [OF assms(2), of hs "w\<lparr>w_tick := Suc (Suc (w_tick w))\<rparr>"] by auto
  then have "emit_accounts_mutation P hs peer verb path action org at actor_id roles tt ti status reason meta w =
      (Inr (), w\<lparr>w_audit := w_audit w @ [sent_event P hs peer verb path action org at actor_id roles tt ti status reason
         meta (Suc (w_tick w)) (p_uuid_str P (p_uuid P (w_tick w))) corr], w_tick := Suc n\<rparr>)"
    using assms(1)
    by (simp add: emit_accounts_mutation_def new_v4_def utc_now_def io_simps append_with_client_def sent_event_def Let_def)
  with \<open>trim corr \<noteq> []\<close> show ?thesis by blast
qed

lemma sent_event_valid_iff:
  assumes "codecs_agree P C now" "org \<noteq> 0" "at \<noteq> Actor_Unspecified" "trim corr \<noteq> []" "trim tt \<noteq> []"
    and "trim verb \<noteq> []" "trim path \<noteq> []" "trim action \<in> set ALL_ACTIONS"
    and "length meta \<le> 16" "\<forall>(k, v) \<in> set meta. k \<in> set METADATA_KEYS_ALLOWED \<and> length v \<le> 256"
  shows "valid_event C now (sent_event P hs peer verb path action org at actor_id roles tt ti status reason meta n rid corr)
    \<longleftrightarrow> (\<forall>s. reason = Some s \<longrightarrow> length (trim s) \<le> 500)"
proof -
  have env: "trim (environment_from_headers hs) \<noteq> []"
    by (auto simp: environment_from_headers_def unwrap_or_def trim_u is_ws_def dest: trimmed_header_Some
        split: option.split)
  have "trim (u ''accounts'') = u ''accounts''" by (simp add: trim_u is_ws_def)
  moreover obtain out where "outcome_try_from (outcome_from_status status) = Some out" "out \<noteq> Outcome_Unspecified"
    using outcome_from_status_ok by blast
  ultimately show ?thesis
    using assms env unfolding valid_event_def codecs_agree_def
    by (simp add: sent_event_def)
qed

text \<open>The event of a money request is valid unless its reason is too long.\<close>

lemma money_event_valid:
  fixes result :: "app_error + 'r \<times> transaction_status"
  assumes "codecs_agree P C now" "trim path \<noteq> []" "trim corr \<noteq> []" "oid \<noteq> 0"
    and "action \<in> {u ''accounts.money.deposit'', u ''accounts.money.withdraw'', u ''accounts.money.transfer''}"
  shows "valid_event C now (sent_event P hs peer (u ''POST'') path action oid Actor_Anonymous [] [] (u ''account'') i status
      (case result of Inr _ \<Rightarrow> None | Inl e \<Rightarrow> Some (truncate_reason (error_to_string e)))
      ((u ''idempotency_key_present'', u ''true'') #
        (case result of Inr _ \<Rightarrow> [] | Inl e \<Rightarrow> [(u ''http_status'', show_nat (http_status_for_error e))])) n rid corr) \<longleftrightarrow>
    (\<forall>e. result = Inl e \<longrightarrow> length (error_to_string e) \<le> 500)"
proof -
  let ?meta = "(u ''idempotency_key_present'', u ''true'') #
      (case result of Inr _ \<Rightarrow> [] | Inl e \<Rightarrow> [(u ''http_status'', show_nat (http_status_for_error e))])"
  let ?reason = "case result of Inr _ \<Rightarrow> None | Inl e \<Rightarrow> Some (truncate_reason (error_to_string e))"
  have action: "trim action \<in> set ALL_ACTIONS" using assms(5) by (auto simp: ALL_ACTIONS_def trim_u is_ws_def)
  have short: "length (show_nat (http_status_for_error e)) \<le> 256" for e
    using length_show_nat_small [of "status_code e"] status_code_range [of e] by (simp add: http_status_for_error_def)
  have keys: "u ''idempotency_key_present'' \<in> set METADATA_KEYS_ALLOWED" "u ''http_status'' \<in> set METADATA_KEYS_ALLOWED"
    by (simp_all add: METADATA_KEYS_ALLOWED_def)
  have meta: "length ?meta \<le> 16" "\<forall>(k, v) \<in> set ?meta. k \<in> set METADATA_KEYS_ALLOWED \<and> length v \<le> 256"
    using short keys by (cases result; simp)+
  have "valid_event C now (sent_event P hs peer (u ''POST'') path action oid Actor_Anonymous [] [] (u ''account'') i status
      ?reason ?meta n rid corr) \<longleftrightarrow> (\<forall>s. ?reason = Some s \<longrightarrow> length (trim s) \<le> 500)"
    using assms(1-4) action meta
    by (intro sent_event_valid_iff) (auto simp: trim_u is_ws_def split: sum.split)
  then show ?thesis by (cases result) (simp_all add: truncated_length)
qed

text \<open>
  C26. The events of the money endpoints fit the audit catalogue: with clocks that agree and an
  organization that is not the nil UUID, the audit service accepts the event of a deposit, withdrawal or
  transfer whatever its outcome, with one exception, a failure whose error text exceeds 500 characters:
  truncate\_reason then makes it 501 characters long, one more than the validator allows.
\<close>

theorem money_events_accepted:
  assumes "codecs_agree P C now" "trim path \<noteq> []"
    and "action \<in> {u ''accounts.money.deposit'', u ''accounts.money.withdraw'', u ''accounts.money.transfer''}"
  shows "\<exists>new. w_audit (snd (audit_money P hs peer path action i env result w)) = w_audit w @ new \<and> length new \<le> 1 \<and>
    list_all (\<lambda>ev. ev_organization_id ev \<noteq> p_uuid_str P 0 \<longrightarrow>
      (valid_event C now ev \<longleftrightarrow> (\<forall>e. result = Inl e \<longrightarrow> length (error_to_string e) \<le> 500))) new"
proof -
  let ?org = "organization_of P i env (map_sum id fst result)"
  obtain oo w1 where org: "?org w = (Inr oo, w1)"
    by (cases result) (auto simp: organization_of_def io_simps split: prod.splits sum.splits)
  have same: "w_audit w1 = w_audit w"
    using keepsD [OF unaudited.views(1), of w P i env "map_sum id fst result"] org by (simp add: same_audit_def)
  show ?thesis
  proof (cases "oo = None \<or> \<not> p_audit_client P")
    case True
    then have "w_audit (snd (audit_money P hs peer path action i env result w)) = w_audit w"
      using org same
      by (auto simp: audit_money_def io_simps spawn_audit_emit_def emit_accounts_mutation_def Let_def split: option.split)
    then show ?thesis by (intro exI [of _ "[]"]) simp
  next
    case False
    then obtain oid where oid: "oo = Some oid" "p_audit_client P" by auto
    let ?meta = "(u ''idempotency_key_present'', u ''true'') #
      (case result of Inr _ \<Rightarrow> [] | Inl e \<Rightarrow> [(u ''http_status'', show_nat (http_status_for_error e))])"
    let ?status = "case result of Inr r \<Rightarrow> mutation_http_status (snd r) | Inl e \<Rightarrow> http_status_for_error e"
    let ?reason = "case result of Inr _ \<Rightarrow> None | Inl e \<Rightarrow> Some (truncate_reason (error_to_string e))"
    obtain n rid corr m where corr: "trim corr \<noteq> []" and run:
      "emit_accounts_mutation P hs peer (u ''POST'') path action oid Actor_Anonymous [] [] (u ''account'') i
        ?status ?reason ?meta w1 = (Inr (), w1\<lparr>w_audit := w_audit w1 @ [sent_event P hs peer (u ''POST'') path action
          oid Actor_Anonymous [] [] (u ''account'') i ?status ?reason ?meta n rid corr], w_tick := m\<rparr>)"
      using emit_exact [OF oid(2) assms(1), where hs = hs and peer = peer and verb = "u ''POST''" and path = path
          and action = action and org = oid and at = Actor_Anonymous and actor_id = "[]" and roles = "[]"
          and tt = "u ''account''" and ti = i and status = ?status and reason = ?reason and meta = ?meta and w = w1]
      by blast
    let ?ev = "sent_event P hs peer (u ''POST'') path action oid Actor_Anonymous [] [] (u ''account'') i ?status ?reason
      ?meta n rid corr"
    have "w_audit (snd (audit_money P hs peer path action i env result w)) = w_audit w @ [?ev]"
      using org oid run by (simp add: audit_money_def io_simps spawn_audit_emit_def Let_def same)
    moreover have "ev_organization_id ?ev \<noteq> p_uuid_str P 0 \<longrightarrow>
      (valid_event C now ?ev \<longleftrightarrow> (\<forall>e. result = Inl e \<longrightarrow> length (error_to_string e) \<le> 500))"
    using money_event_valid [OF assms(1,2) corr _ assms(3), of oid hs peer i ?status result n rid]
      by (auto simp: sent_event_def)
    ultimately show ?thesis by (intro exI [of _ "[?ev]"]) simp
  qed
qed

definition still_params :: "nat params" where
  "still_params = demo_params\<lparr>p_clock := (\<lambda>_. 0)\<rparr>"

lemma show_nat_not_nil: "show_nat n \<noteq> NIL_UUID"
proof
  assume "show_nat n = NIL_UUID"
  then have "list_all is_digit NIL_UUID" using show_nat_digits [of n] by simp
  then show False by (simp add: NIL_UUID_def u_def is_digit_def)
qed

lemma still_params_agree: "codecs_agree still_params demo_codec 0"
  using show_nat_digits
  by (simp add: codecs_agree_def still_params_def demo_params_def demo_codec_def show_nat_not_nil)

theorem money_events_accepted_witness:
  "\<exists>new. w_audit (snd (audit_money still_params [] (u ''::1'') (u ''x'') (u ''accounts.money.deposit'') 1 (u ''sandbox'')
       (Inl InsufficientFunds) demo_world)) = w_audit demo_world @ new \<and>
     list_all (\<lambda>ev. ev_organization_id ev = p_uuid_str still_params 0 \<or> valid_event demo_codec 0 ev) new"
proof -
  have path: "trim (u ''x'') \<noteq> []" by (simp add: trim_u is_ws_def)
  show ?thesis
    using money_events_accepted [OF still_params_agree path, of "u ''accounts.money.deposit''" "[]" "u ''::1''" 1
        "u ''sandbox''" "Inl InsufficientFunds" demo_world]
    by (auto simp: list_all_iff)
qed

end
