(* ===== verification/Rate_Limit.thy ===== *)
theory Rate_Limit
  imports Audit_Proto
begin

text \<open>
  The fixed-window rate limiter in front of the money endpoints of the accounts service
  (\<^verbatim>\<open>accounts-service/src/routes/rate_limit.rs\<close>) and of the authentication endpoints of the
  users service (\<^verbatim>\<open>users-service/src/routes/rate_limit.rs\<close>), and the choice of the client
  key. The two files agree but for \<^verbatim>\<open>parse_forwarded_for\<close>. Instants and durations are
  nanoseconds. Parsing and printing of IP addresses is a parameter: addresses are an abstract type.
\<close>

section \<open>The limiter\<close>

record rate_limit_config =
  rl_window :: int
  rl_max :: "32 word"

record rate_limit_window =
  rw_start :: int
  rw_count :: "32 word"

type_synonym rate_limiter = "str \<rightharpoonup> rate_limit_window"

text \<open>\<^verbatim>\<open>duration_since\<close> saturates at zero.\<close>

definition allow :: "rate_limit_config \<Rightarrow> int \<Rightarrow> str \<Rightarrow> rate_limiter \<Rightarrow> bool \<times> rate_limiter" where
  "allow cfg now client_key store =
     (let entry = (case store client_key of None \<Rightarrow> \<lparr>rw_start = now, rw_count = 0\<rparr> | Some e \<Rightarrow> e);
          entry = (if max 0 (now - rw_start entry) > rl_window cfg
                   then entry\<lparr>rw_start := now, rw_count := 0\<rparr> else entry)
      in if rw_count entry \<ge> rl_max cfg then (False, store(client_key \<mapsto> entry))
         else (True, store(client_key \<mapsto> entry\<lparr>rw_count := rw_count entry + 1\<rparr>)))"

definition reset :: "rate_limiter \<Rightarrow> rate_limiter" where
  "reset store = Map.empty"

text \<open>The limiter of the users service is the same code.\<close>

definition users_allow :: "rate_limit_config \<Rightarrow> int \<Rightarrow> str \<Rightarrow> rate_limiter \<Rightarrow> bool \<times> rate_limiter" where
  "users_allow = allow"

definition parse_env_u64 :: "(str \<Rightarrow> str option) \<Rightarrow> string \<Rightarrow> 64 word option" where
  "parse_env_u64 env name = (case env (u name) of None \<Rightarrow> None | Some v \<Rightarrow> parse_u64 v)"

definition parse_env_u32 :: "(str \<Rightarrow> str option) \<Rightarrow> string \<Rightarrow> 32 word option" where
  "parse_env_u32 env name =
     (case env (u name) of None \<Rightarrow> None | Some v \<Rightarrow> map_option of_nat (parse_unsigned (2 ^ 32 - 1) v))"

definition limiter_config :: "64 word option \<Rightarrow> 32 word option \<Rightarrow> 64 word \<Rightarrow> 32 word \<Rightarrow> rate_limit_config" where
  "limiter_config window limit window0 limit0 =
     (let window_seconds = (case window of Some v \<Rightarrow> if v > 0 then v else window0 | None \<Rightarrow> window0);
          max_requests = (case limit of Some v \<Rightarrow> if v > 0 then v else limit0 | None \<Rightarrow> limit0)
      in \<lparr>rl_window = uint window_seconds * 1000000000, rl_max = max_requests\<rparr>)"

definition money_rate_limit_config :: "(str \<Rightarrow> str option) \<Rightarrow> rate_limit_config" where
  "money_rate_limit_config env =
     limiter_config (parse_env_u64 env ''ACCOUNTS_MONEY_RATE_LIMIT_WINDOW_SECONDS'')
       (parse_env_u32 env ''ACCOUNTS_MONEY_RATE_LIMIT_MAX'') 60 20"

definition auth_rate_limit_config :: "(str \<Rightarrow> str option) \<Rightarrow> rate_limit_config" where
  "auth_rate_limit_config env =
     limiter_config (parse_env_u64 env ''USERS_AUTH_RATE_LIMIT_WINDOW_SECONDS'')
       (parse_env_u32 env ''USERS_AUTH_RATE_LIMIT_MAX'') 60 10"

section \<open>The client key\<close>

record 'ip ip_codec =
  ip_parse :: "str \<Rightarrow> 'ip option"
  ip_str :: "'ip \<Rightarrow> str"

text \<open>Accounts: one entry that does not parse discards the header.\<close>

fun parse_ips :: "'ip ip_codec \<Rightarrow> str list \<Rightarrow> 'ip list option" where
  "parse_ips I [] = Some []"
| "parse_ips I (v # vs) =
     (if trim v = [] then parse_ips I vs
      else (case ip_parse I (trim v) of
              None \<Rightarrow> None
            | Some ip \<Rightarrow> map_option ((#) ip) (parse_ips I vs)))"

definition parse_forwarded_for :: "'ip ip_codec \<Rightarrow> headers \<Rightarrow> 'ip list option" where
  "parse_forwarded_for I hs =
     (case header_str hs (u ''x-forwarded-for'') of
        None \<Rightarrow> None
      | Some s \<Rightarrow> (case parse_ips I (split_on 44 s) of
           None \<Rightarrow> None
         | Some ips \<Rightarrow> if ips = [] then None else Some ips))"

text \<open>Users: entries that do not parse are skipped.\<close>

definition users_parse_forwarded_for :: "'ip ip_codec \<Rightarrow> headers \<Rightarrow> 'ip list option" where
  "users_parse_forwarded_for I hs =
     (case header_str hs (u ''x-forwarded-for'') of
        None \<Rightarrow> None
      | Some s \<Rightarrow>
          let ips = List.map_filter (\<lambda>v. if trim v = [] then None else ip_parse I (trim v)) (split_on 44 s)
          in if ips = [] then None else Some ips)"

definition extract_real_ip :: "'ip ip_codec \<Rightarrow> headers \<Rightarrow> str option" where
  "extract_real_ip I hs =
     (case trimmed_header hs (u ''x-real-ip'') of
        None \<Rightarrow> None
      | Some s \<Rightarrow> map_option (ip_str I) (ip_parse I s))"

definition trusted_proxy_ips :: "'ip ip_codec \<Rightarrow> (str \<Rightarrow> str option) \<Rightarrow> string \<Rightarrow> 'ip list" where
  "trusted_proxy_ips I env var_name =
     List.map_filter (ip_parse I)
       (filter (\<lambda>v. v \<noteq> []) (map trim (split_on 44 (case env (u var_name) of None \<Rightarrow> [] | Some v \<Rightarrow> v))))"

definition extract_forwarded_ip :: "'ip ip_codec \<Rightarrow> 'ip list option \<Rightarrow> 'ip \<Rightarrow> 'ip list \<Rightarrow> str option" where
  "extract_forwarded_ip I forwarded peer trusted_proxies =
     (case forwarded of
        None \<Rightarrow> None
      | Some forwarded_ips \<Rightarrow>
          if forwarded_ips = [] then None else
          let last_hop = last forwarded_ips in
          if last_hop \<noteq> peer \<and> last_hop \<notin> set trusted_proxies then None
          else map_option (ip_str I) (find (\<lambda>ip. ip \<notin> set trusted_proxies) (rev forwarded_ips)))"

text \<open>\<open>forwarded\<close> is the parse of the header, by the function of the service.\<close>

definition client_key_of ::
  "'ip ip_codec \<Rightarrow> (str \<Rightarrow> str option) \<Rightarrow> string \<Rightarrow> 'ip list option \<Rightarrow> 'ip option \<Rightarrow> headers \<Rightarrow> str" where
  "client_key_of I env trusted_proxy_env forwarded peer hs =
     (case peer of
        Some peer_ip \<Rightarrow>
          let trusted_proxies = trusted_proxy_ips I env trusted_proxy_env in
          if peer_ip \<in> set trusted_proxies then
            (case extract_forwarded_ip I forwarded peer_ip trusted_proxies of
               Some forwarded_ip \<Rightarrow> forwarded_ip
             | None \<Rightarrow> (case extract_real_ip I hs of Some real_ip \<Rightarrow> real_ip | None \<Rightarrow> ip_str I peer_ip))
          else ip_str I peer_ip
      | None \<Rightarrow> (case extract_real_ip I hs of Some real_ip \<Rightarrow> real_ip | None \<Rightarrow> u ''unknown''))"

definition extract_client_key ::
  "'ip ip_codec \<Rightarrow> (str \<Rightarrow> str option) \<Rightarrow> string \<Rightarrow> 'ip option \<Rightarrow> headers \<Rightarrow> str" where
  "extract_client_key I env trusted_proxy_env peer hs =
     client_key_of I env trusted_proxy_env (parse_forwarded_for I hs) peer hs"

definition users_extract_client_key ::
  "'ip ip_codec \<Rightarrow> (str \<Rightarrow> str option) \<Rightarrow> string \<Rightarrow> 'ip option \<Rightarrow> headers \<Rightarrow> str" where
  "users_extract_client_key I env trusted_proxy_env peer hs =
     client_key_of I env trusted_proxy_env (users_parse_forwarded_for I hs) peer hs"

section \<open>Runs of the limiter\<close>

fun limiter_run :: "rate_limit_config \<Rightarrow> rate_limiter \<Rightarrow> (int \<times> str) list \<Rightarrow> (int \<times> str \<times> bool) list" where
  "limiter_run cfg store [] = []"
| "limiter_run cfg store ((t, k) # calls) =
     (t, k, fst (allow cfg t k store)) # limiter_run cfg (snd (allow cfg t k store)) calls"

text \<open>The window of one client, and its calls.\<close>

definition step_window :: "rate_limit_config \<Rightarrow> int \<Rightarrow> rate_limit_window option \<Rightarrow> bool \<times> rate_limit_window" where
  "step_window cfg now w =
     (let entry = (case w of None \<Rightarrow> \<lparr>rw_start = now, rw_count = 0\<rparr> | Some e \<Rightarrow> e);
          entry = (if max 0 (now - rw_start entry) > rl_window cfg
                   then entry\<lparr>rw_start := now, rw_count := 0\<rparr> else entry)
      in if rw_count entry \<ge> rl_max cfg then (False, entry)
         else (True, entry\<lparr>rw_count := rw_count entry + 1\<rparr>))"

fun accepted :: "rate_limit_config \<Rightarrow> rate_limit_window option \<Rightarrow> int list \<Rightarrow> int list" where
  "accepted cfg w [] = []"
| "accepted cfg w (t # ts) =
     (if fst (step_window cfg t w) then [t] else []) @ accepted cfg (Some (snd (step_window cfg t w))) ts"

lemma allow_step:
  "allow cfg now k store = (fst (step_window cfg now (store k)), store(k \<mapsto> snd (step_window cfg now (store k))))"
  by (simp add: allow_def step_window_def Let_def)

text \<open>Clients do not influence each other.\<close>

lemma limiter_run_client:
  "map fst (filter (\<lambda>(t, k', ok). k' = k \<and> ok) (limiter_run cfg store calls)) =
   accepted cfg (store k) (map fst (filter (\<lambda>(t, k'). k' = k) calls))"
  by (induction cfg store calls rule: limiter_run.induct) (auto simp: allow_step fun_upd_def)

lemma accepted_subset: "set (accepted cfg w ts) \<subseteq> set ts"
  by (induction cfg w ts rule: accepted.induct) auto

abbreviation in_span :: "int \<Rightarrow> int \<Rightarrow> int \<Rightarrow> bool" where
  "in_span a b t \<equiv> a \<le> t \<and> t \<le> b"

abbreviation accepted_in :: "rate_limit_config \<Rightarrow> rate_limit_window \<Rightarrow> int list \<Rightarrow> int \<Rightarrow> int \<Rightarrow> nat" where
  "accepted_in cfg w ts a b \<equiv> length (filter (in_span a b) (accepted cfg (Some w) ts))"

lemma step_same:
  assumes "rw_start w \<le> t" "t \<le> rw_start w + rl_window cfg"
  shows "step_window cfg t (Some w) =
    (if unat (rw_count w) < unat (rl_max cfg) then (True, w\<lparr>rw_count := rw_count w + 1\<rparr>) else (False, w))"
  using assms by (simp add: step_window_def Let_def word_le_nat_alt)

lemma step_fresh:
  assumes "rw_start w + rl_window cfg < t" "0 \<le> rl_window cfg"
  shows "step_window cfg t (Some w) =
    (if 0 < unat (rl_max cfg) then (True, \<lparr>rw_start = t, rw_count = 1\<rparr>) else (False, \<lparr>rw_start = t, rw_count = 0\<rparr>))"
proof -
  have "w\<lparr>rw_start := t, rw_count := c\<rparr> = \<lparr>rw_start = t, rw_count = c\<rparr>" for c by (cases w) simp
  then show ?thesis using assms by (simp add: step_window_def Let_def word_le_nat_alt)
qed

lemma count_up: "unat (c :: 32 word) < unat (m :: 32 word) \<Longrightarrow> unat (c + 1) = Suc (unat c)"
  using unsigned_less [of m, where ?'a = nat] by (simp add: unat_word_ariths)

text \<open>Within the current window.\<close>

lemma accepted_current:
  assumes "0 \<le> rl_window cfg" "unat (rw_count w) \<le> unat (rl_max cfg)" "sorted (rw_start w # ts)"
    and "b \<le> rw_start w + rl_window cfg"
  shows "accepted_in cfg w ts a b \<le> unat (rl_max cfg) - unat (rw_count w)"
  using assms(2-4)
proof (induction ts arbitrary: w)
  case (Cons t ts)
  show ?case
  proof (cases "t \<le> rw_start w + rl_window cfg")
    case False
    then have "set (t # ts) \<inter> {x. x \<le> b} = {}" using Cons.prems(2,3) by auto
    then have "filter (in_span a b) (accepted cfg (Some w) (t # ts)) = []"
      using accepted_subset [of cfg "Some w" "t # ts"] by (auto simp: filter_empty_conv)
    then show ?thesis by (simp only: list.size)
  next
    case True
    have start: "rw_start w \<le> t" using Cons.prems(2) by simp
    show ?thesis
    proof (cases "unat (rw_count w) < unat (rl_max cfg)")
      case False
      then show ?thesis using step_same [OF start True] Cons.IH [of w] Cons.prems by auto
    next
      case less: True
      let ?w = "w\<lparr>rw_count := rw_count w + 1\<rparr>"
      have "accepted_in cfg ?w ts a b \<le> unat (rl_max cfg) - unat (rw_count ?w)"
        using Cons.prems less count_up [OF less] by (intro Cons.IH) auto
      then show ?thesis using step_same [OF start True] less count_up [OF less] by auto
    qed
  qed
qed simp

text \<open>All calls at or after the beginning of the span.\<close>

lemma accepted_after:
  assumes "0 \<le> rl_window cfg" "unat (rw_count w) \<le> unat (rl_max cfg)" "sorted (rw_start w # ts)"
    and "\<forall>t \<in> set ts. a \<le> t"
  shows "accepted_in cfg w ts a (a + rl_window cfg) \<le> unat (rl_max cfg) - unat (rw_count w) + unat (rl_max cfg)"
  using assms(2-4)
proof (induction ts arbitrary: w)
  case (Cons t ts)
  have start: "rw_start w \<le> t" and ts: "sorted (t # ts)" using Cons.prems(2) by auto
  show ?case
  proof (cases "t \<le> rw_start w + rl_window cfg")
    case True
    show ?thesis
    proof (cases "unat (rw_count w) < unat (rl_max cfg)")
      case False
      then show ?thesis using step_same [OF start True] Cons.IH [of w] Cons.prems by auto
    next
      case less: True
      let ?w = "w\<lparr>rw_count := rw_count w + 1\<rparr>"
      have "accepted_in cfg ?w ts a (a + rl_window cfg) \<le> unat (rl_max cfg) - unat (rw_count ?w) + unat (rl_max cfg)"
        using Cons.prems less count_up [OF less] by (intro Cons.IH) auto
      then show ?thesis using step_same [OF start True] less count_up [OF less] by auto
    qed
  next
    case False
    then have fresh: "rw_start w + rl_window cfg < t" by simp
    have a: "a + rl_window cfg \<le> t + rl_window cfg" using Cons.prems(3) by simp
    have "accepted_in cfg \<lparr>rw_start = t, rw_count = c\<rparr> ts a (a + rl_window cfg) \<le> unat (rl_max cfg) - unat c"
      if "unat c \<le> unat (rl_max cfg)" for c
      using accepted_current [of cfg "\<lparr>rw_start = t, rw_count = c\<rparr>" ts] assms(1) that ts a by simp
    from this [of 0] this [of 1] show ?thesis
      unfolding accepted.simps step_fresh [OF fresh assms(1)] by auto
  qed
qed simp

lemma accepted_span:
  assumes "0 \<le> rl_window cfg" "unat (rw_count w) \<le> unat (rl_max cfg)" "sorted (rw_start w # ts)"
  shows "accepted_in cfg w ts a (a + rl_window cfg) \<le> 2 * unat (rl_max cfg)"
  using assms(2,3)
proof (induction ts arbitrary: w)
  case (Cons t ts)
  have start: "rw_start w \<le> t" and ts: "sorted (t # ts)" using Cons.prems(2) by auto
  show ?case
  proof (cases "a \<le> t")
    case True
    then have "\<forall>x \<in> set (t # ts). a \<le> x" using ts by auto
    from accepted_after [OF assms(1) Cons.prems(1,2) this] show ?thesis by linarith
  next
    case False
    let ?w = "snd (step_window cfg t (Some w))"
    have "unat (rw_count ?w) \<le> unat (rl_max cfg) \<and> sorted (rw_start ?w # ts)"
    proof (cases "t \<le> rw_start w + rl_window cfg")
      case True
      then show ?thesis using step_same [OF start True] Cons.prems count_up [of "rw_count w" "rl_max cfg"] by auto
    next
      case False
      then have "rw_start w + rl_window cfg < t" by simp
      from step_fresh [OF this assms(1)] ts show ?thesis by auto
    qed
    then have "accepted_in cfg ?w ts a (a + rl_window cfg) \<le> 2 * unat (rl_max cfg)" using Cons.IH by blast
    then show ?thesis using False by simp
  qed
qed simp

lemma accepted_none:
  assumes "0 \<le> rl_window cfg"
  shows "accepted cfg None (t # ts) = accepted cfg (Some \<lparr>rw_start = t, rw_count = 0\<rparr>) (t # ts)"
  using assms by (simp add: step_window_def Let_def)

lemma accepted_from_start:
  assumes "0 \<le> rl_window cfg" "sorted ts"
  shows "length (filter (in_span a (a + rl_window cfg)) (accepted cfg None ts)) \<le> 2 * unat (rl_max cfg)"
proof (cases ts)
  case (Cons t rest)
  then show ?thesis
    using accepted_span [OF assms(1), of "\<lparr>rw_start = t, rw_count = 0\<rparr>" ts a] assms(2)
    by (simp add: accepted_none [OF assms(1)] del: accepted.simps)
qed simp

text \<open>
  C27. The limiter limits: on any sequence of calls in order of time, whatever other clients do, a client
  is allowed at most twice the maximum in any span of one window, and its decisions depend on its own
  calls only; and a client whose window is over is allowed again.
\<close>

theorem rate_limit_bound:
  assumes "0 \<le> rl_window cfg" "sorted (map fst calls)"
  shows "length (filter (\<lambda>(t, k', ok). k' = k \<and> ok \<and> a \<le> t \<and> t \<le> a + rl_window cfg)
      (limiter_run cfg Map.empty calls)) \<le> 2 * unat (rl_max cfg) \<and>
    map fst (filter (\<lambda>(t, k', ok). k' = k \<and> ok) (limiter_run cfg Map.empty calls)) =
      map fst (filter (\<lambda>(t, k', ok). k' = k \<and> ok)
        (limiter_run cfg Map.empty (filter (\<lambda>(t, k'). k' = k) calls))) \<and>
    (store k = Some w \<and> rw_start w + rl_window cfg < now \<and> 0 < rl_max cfg \<longrightarrow> fst (allow cfg now k store))"
proof (intro conjI impI)
  let ?mine = "map fst (filter (\<lambda>(t, k'). k' = k) calls)"
  let ?ok = "filter (\<lambda>(t, k', ok). k' = k \<and> ok) (limiter_run cfg Map.empty calls)"
  have "sorted ?mine"
    using assms(2) by (induction calls) (auto split: prod.splits)
  then have "length (filter (in_span a (a + rl_window cfg)) (map fst ?ok)) \<le> 2 * unat (rl_max cfg)"
    using accepted_from_start [OF assms(1)] by (simp add: limiter_run_client)
  moreover have "length (filter (in_span a (a + rl_window cfg)) (map fst ?ok)) =
      length (filter (\<lambda>(t, k', ok). k' = k \<and> ok \<and> a \<le> t \<and> t \<le> a + rl_window cfg) (limiter_run cfg Map.empty calls))"
    by (simp add: filter_map o_def split_def conj_assoc)
  ultimately show "length (filter (\<lambda>(t, k', ok). k' = k \<and> ok \<and> a \<le> t \<and> t \<le> a + rl_window cfg)
      (limiter_run cfg Map.empty calls)) \<le> 2 * unat (rl_max cfg)" by simp
  show "map fst ?ok = map fst (filter (\<lambda>(t, k', ok). k' = k \<and> ok)
        (limiter_run cfg Map.empty (filter (\<lambda>(t, k'). k' = k) calls)))"
    by (simp add: limiter_run_client)
  assume "store k = Some w \<and> rw_start w + rl_window cfg < now \<and> 0 < rl_max cfg"
  then show "fst (allow cfg now k store)"
    using step_fresh [of w cfg now] assms(1) by (simp add: allow_step word_less_nat_alt)
qed

theorem rate_limit_bound_witness:
  "length (filter (\<lambda>(t, k', ok). k' = u ''a'' \<and> ok \<and> 0 \<le> t \<and> t \<le> 0 + rl_window (money_rate_limit_config Map.empty))
     (limiter_run (money_rate_limit_config Map.empty) Map.empty [(0, u ''a''), (5, u ''b''), (9, u ''a'')])) \<le> 40"
proof -
  have cfg: "rl_window (money_rate_limit_config Map.empty) = 60000000000" "rl_max (money_rate_limit_config Map.empty) = 20"
    by (simp_all add: money_rate_limit_config_def limiter_config_def parse_env_u64_def parse_env_u32_def)
  have sorted: "sorted (map fst [(0 :: int, u ''a''), (5, u ''b''), (9, u ''a'')])" by simp
  show ?thesis
    using rate_limit_bound [of "money_rate_limit_config Map.empty", OF _ sorted, THEN conjunct1, of "u ''a''" 0]
    by (simp add: cfg)
qed

end
