(* ===== verification/Users_World.thy ===== *)
theory Users_World
  imports Audit_Emit
begin

text \<open>
  The world of the users service (\<^verbatim>\<open>users-service\<close>): its error type
  (\<^verbatim>\<open>error.rs\<close>), its tables with the constraints of \<^verbatim>\<open>users-service/migrations\<close>, and
  the statements and transactions in which the handlers act on them. As for the accounts service, other
  processes may change the tables before a statement, a statement or a commit may fail before or after
  its effect, and the clock, the random generator and the crates (argon2, sha2, hmac, base64,
  jsonwebtoken, uuid) are parameters. The statements of one transaction run at one point: what other
  transactions commit meanwhile comes before or after all of them.
\<close>

section \<open>Errors\<close>

datatype users_error =
    U_Unauthorized
  | U_Forbidden
  | U_Unrecognized_Source
  | U_Too_Many_Requests
  | U_Bad_Request str
  | U_Conflict str
  | U_Internal

primrec users_error_to_string :: "users_error \<Rightarrow> str" where
  "users_error_to_string U_Unauthorized = u ''Unauthorized''"
| "users_error_to_string U_Forbidden = u ''Forbidden''"
| "users_error_to_string U_Unrecognized_Source =
     u ''Request rejected: API called from an unrecognized source.''"
| "users_error_to_string U_Too_Many_Requests = u ''Too many requests''"
| "users_error_to_string (U_Bad_Request m) = u ''Bad request: '' @ m"
| "users_error_to_string (U_Conflict m) = u ''Conflict: '' @ m"
| "users_error_to_string U_Internal = u ''Internal server error''"

fun users_status_code :: "users_error \<Rightarrow> nat" where
  "users_status_code U_Unauthorized = 401"
| "users_status_code U_Forbidden = 403"
| "users_status_code U_Unrecognized_Source = 403"
| "users_status_code U_Too_Many_Requests = 429"
| "users_status_code (U_Bad_Request _) = 400"
| "users_status_code (U_Conflict _) = 409"
| "users_status_code U_Internal = 500"

definition DUPLICATE_EMAIL_MESSAGE :: str where
  "DUPLICATE_EMAIL_MESSAGE =
     u ''An account with this email already exists. Try signing in or resetting your password.''"

definition DUPLICATE_BETA_EMAIL_MESSAGE :: str where
  "DUPLICATE_BETA_EMAIL_MESSAGE =
     u ''An application with this email has already been submitted. We'' @ [39]
     @ u ''ll be in touch shortly.''"

section \<open>Tables\<close>

record business_row =
  biz_id :: uuid
  biz_name :: str
  biz_website :: "str option"
  biz_status :: str
  biz_created_at :: time
  biz_updated_at :: time

record environment_row =
  env_id :: uuid
  env_business_id :: uuid
  env_type :: str
  env_status :: str
  env_created_at :: time
  env_updated_at :: time

record user_row =
  usr_id :: uuid
  usr_business_id :: uuid
  usr_environment_id :: uuid
  usr_first_name :: str
  usr_last_name :: str
  usr_email :: str
  usr_password_hash :: str
  usr_role :: str
  usr_status :: str
  usr_created_at :: time
  usr_updated_at :: time
  usr_created_by_user_id :: "uuid option"
  usr_created_by_api_key_id :: "uuid option"

record session_row =
  ses_id :: uuid
  ses_user_id :: uuid
  ses_environment_id :: uuid
  ses_refresh_token :: str
  ses_jwt_id :: str
  ses_status :: str
  ses_created_at :: time
  ses_revoked_at :: "time option"
  ses_expires_at :: time

record api_key_row =
  key_id :: uuid
  key_business_id :: uuid
  key_environment_id :: "uuid option"
  key_hash :: str
  key_status :: str
  key_last_used_at :: "time option"
  key_created_at :: time
  key_revoked_at :: "time option"
  key_created_by_user_id :: "uuid option"

record reset_token_row =
  prt_id :: uuid
  prt_user_id :: uuid
  prt_token_hash :: str
  prt_expires_at :: time
  prt_used_at :: "time option"
  prt_created_at :: time

record beta_row =
  beta_id :: uuid
  beta_name :: str
  beta_email :: str
  beta_company :: str
  beta_use_case :: str
  beta_created_at :: time

record users_db =
  t_businesses :: "business_row list"
  t_environments :: "environment_row list"
  t_users :: "user_row list"
  t_sessions :: "session_row list"
  t_api_keys :: "api_key_row list"
  t_reset_tokens :: "reset_token_row list"
  t_beta :: "beta_row list"

section \<open>Parameters and world\<close>

datatype password_check = Hash_Unreadable | Password_Wrong | Password_Right

record jwt_claims =
  jc_sub :: str
  jc_jti :: str
  jc_exp :: int
  jc_iat :: int
  jc_env :: str
  jc_business_id :: str

datatype email_msg =
    Password_Reset_Email str str
  | Beta_Application_Email str str str str

text \<open>\<open>up_random t\<close> is the array of 32 bytes drawn at tick \<open>t\<close>;
  \<open>up_random_fails t\<close> says whether the generator reports an error there. \<open>up_verify h p\<close> is
  the parse of the stored hash and the check of the password. \<open>up_jwt_decode secret now token\<close> is the
  subject of a token whose signature and expiry the crate accepts.\<close>

record users_params =
  up_other :: "nat \<Rightarrow> users_db \<Rightarrow> users_db"
  up_fault :: "nat \<Rightarrow> db_fault"
  up_clock :: "nat \<Rightarrow> time"
  up_uuid :: "nat \<Rightarrow> uuid"
  up_random :: "nat \<Rightarrow> 8 word list"
  up_random_fails :: "nat \<Rightarrow> bool"
  up_env_var :: "str \<Rightarrow> str option"
  up_uuid_str :: "uuid \<Rightarrow> str"
  up_uuid_parse :: "str \<Rightarrow> uuid option"
  up_rfc3339 :: "time \<Rightarrow> str"
  up_base64 :: "8 word list \<Rightarrow> str"
  up_base64_url :: "8 word list \<Rightarrow> str"
  up_hash_password :: "nat \<Rightarrow> str \<Rightarrow> str option"
  up_verify :: "str \<Rightarrow> str \<Rightarrow> password_check"
  up_sha256_hex :: "str \<Rightarrow> str"
  up_hmac :: "str \<Rightarrow> str \<Rightarrow> 8 word list option"
  up_jwt_encode :: "str \<Rightarrow> jwt_claims \<Rightarrow> str option"
  up_jwt_decode :: "str \<Rightarrow> time \<Rightarrow> str \<Rightarrow> str option"
  up_audit_client :: bool
  up_email :: bool

record users_world =
  uw_db :: users_db
  uw_audit :: "audit_event list"
  uw_emails :: "email_msg list"
  uw_tick :: nat

type_synonym 'a users = "(users_world, users_error, 'a) io"

text \<open>One reading of the clock, of the random generator, of a fresh UUID.\<close>

definition users_tick :: "(users_world, 'e, nat) io" where
  "users_tick = (\<lambda>w. (Inr (uw_tick w), w\<lparr>uw_tick := Suc (uw_tick w)\<rparr>))"

definition users_now :: "users_params \<Rightarrow> (users_world, 'e, time) io" where
  "users_now U = bind_io users_tick (\<lambda>t. ret (up_clock U t))"

definition users_uuid :: "users_params \<Rightarrow> (users_world, 'e, uuid) io" where
  "users_uuid U = bind_io users_tick (\<lambda>t. ret (up_uuid U t))"

definition users_random :: "users_params \<Rightarrow> (users_world, 'e, 8 word list) io" where
  "users_random U = bind_io users_tick (\<lambda>t. ret (up_random U t))"

text \<open>\<^verbatim>\<open>try_fill_bytes(..).map_err(|_| AppError::Internal)\<close>: the generator may report an error.\<close>

definition users_try_random :: "users_params \<Rightarrow> 8 word list users" where
  "users_try_random U =
     bind_io users_tick (\<lambda>t. if up_random_fails U t then throw U_Internal else ret (up_random U t))"

section \<open>Statements and transactions\<close>

text \<open>A constraint violation is a database error with PostgreSQL's message; what \<open>up_fault\<close>
  injects is a failure of another kind (pool, connection).\<close>

datatype sql_error = Database_Error str | Other_Error str

definition unique_violation :: "string \<Rightarrow> sql_error" where
  "unique_violation c =
     Database_Error (u ''duplicate key value violates unique constraint '' @ [34] @ u c @ [34])"

definition foreign_key_violation :: "string \<Rightarrow> string \<Rightarrow> sql_error" where
  "foreign_key_violation t c =
     Database_Error (u ''insert or update on table '' @ [34] @ u t @ [34]
       @ u '' violates foreign key constraint '' @ [34] @ u c @ [34])"

type_synonym 'a users_stmt = "nat \<Rightarrow> users_db \<Rightarrow> (sql_error + 'a) \<times> users_db"

definition users_run :: "users_params \<Rightarrow> 'a users_stmt \<Rightarrow> (users_world, sql_error, 'a) io" where
  "users_run U q = (\<lambda>w.
     let t = uw_tick w; d = uw_db w in
     case up_fault U t of
       Fault_Before e \<Rightarrow> (Inl (Other_Error e), w\<lparr>uw_tick := Suc t\<rparr>)
     | Fault_After e \<Rightarrow> (Inl (Other_Error e), w\<lparr>uw_db := snd (q t d), uw_tick := Suc t\<rparr>)
     | No_Fault \<Rightarrow> (fst (q t d), w\<lparr>uw_db := snd (q t d), uw_tick := Suc t\<rparr>))"

text \<open>Other processes act.\<close>

definition users_interleave :: "users_params \<Rightarrow> (users_world, 'e, unit) io" where
  "users_interleave U = (\<lambda>w. (Inr (), w\<lparr>uw_db := up_other U (uw_tick w) (uw_db w)\<rparr>))"

text \<open>A statement on the pool.\<close>

definition users_query :: "users_params \<Rightarrow> 'a users_stmt \<Rightarrow> (users_world, sql_error, 'a) io" where
  "users_query U q = bind_io (users_interleave U) (\<lambda>_. users_run U q)"

text \<open>\<^verbatim>\<open>begin()\<close>, the body, whose statements are \<open>users_run\<close>, and \<^verbatim>\<open>commit()\<close>. An
  error of the body or of the commit drops the transaction; only a lost acknowledgement of the commit
  leaves its effect with an error.\<close>

definition users_transaction :: "users_params \<Rightarrow> 'a users \<Rightarrow> 'a users" where
  "users_transaction U body =
     bind_io (users_interleave U) (\<lambda>_. \<lambda>w0.
       (case bind_io (map_err_io (\<lambda>_. U_Internal) (users_run U (\<lambda>t d. (Inr (), d)))) (\<lambda>_. body) w0 of
          (Inl e, w) \<Rightarrow> (Inl e, w\<lparr>uw_db := uw_db w0\<rparr>)
        | (Inr a, w) \<Rightarrow>
            (case up_fault U (uw_tick w) of
               No_Fault \<Rightarrow> (Inr a, w\<lparr>uw_tick := Suc (uw_tick w)\<rparr>)
             | Fault_Before e \<Rightarrow> (Inl U_Internal, w\<lparr>uw_db := uw_db w0, uw_tick := Suc (uw_tick w)\<rparr>)
             | Fault_After e \<Rightarrow> (Inl U_Internal, w\<lparr>uw_tick := Suc (uw_tick w)\<rparr>))))"

text \<open>\<^verbatim>\<open>.map_err(|_| AppError::Internal)\<close>\<close>

definition or_internal :: "(users_world, sql_error, 'a) io \<Rightarrow> 'a users" where
  "or_internal m = map_err_io (\<lambda>_. U_Internal) m"

text \<open>\<^verbatim>\<open>SELECT\<close> of the first row of a list, of all rows, and the effect of an
  \<^verbatim>\<open>UPDATE\<close> with its number of affected rows.\<close>

definition select_first :: "(users_db \<Rightarrow> 'r list) \<Rightarrow> 'r option users_stmt" where
  "select_first f = (\<lambda>t d. (Inr (fetch_optional (f d)), d))"

definition select_all :: "(users_db \<Rightarrow> 'r) \<Rightarrow> 'r users_stmt" where
  "select_all f = (\<lambda>t d. (Inr (f d), d))"

fun str_contains :: "str \<Rightarrow> str \<Rightarrow> bool" where
  "str_contains n [] \<longleftrightarrow> n = []"
| "str_contains n (c # s) \<longleftrightarrow> starts_with n (c # s) \<or> str_contains n s"

text \<open>The map of the constraint \<^verbatim>\<open>unique_email\<close> to a conflict.\<close>

definition email_conflict :: "sql_error \<Rightarrow> users_error" where
  "email_conflict e =
     (case e of
        Database_Error m \<Rightarrow>
          if str_contains (u ''unique_email'') m then U_Conflict DUPLICATE_EMAIL_MESSAGE else U_Internal
      | Other_Error _ \<Rightarrow> U_Internal)"

section \<open>Inserts\<close>

definition insert_business :: "business_row \<Rightarrow> users_db \<Rightarrow> (sql_error + unit) \<times> users_db" where
  "insert_business r d =
     (if biz_id r \<in> biz_id ` set (t_businesses d) then (Inl (unique_violation ''businesses_pkey''), d)
      else (Inr (), d\<lparr>t_businesses := t_businesses d @ [r]\<rparr>))"

definition insert_environment :: "environment_row \<Rightarrow> users_db \<Rightarrow> (sql_error + unit) \<times> users_db" where
  "insert_environment r d =
     (if env_id r \<in> env_id ` set (t_environments d) then (Inl (unique_violation ''environments_pkey''), d)
      else if env_business_id r \<notin> biz_id ` set (t_businesses d)
      then (Inl (foreign_key_violation ''environments'' ''environments_business_id_fkey''), d)
      else (Inr (), d\<lparr>t_environments := t_environments d @ [r]\<rparr>))"

definition insert_user :: "user_row \<Rightarrow> users_db \<Rightarrow> (sql_error + unit) \<times> users_db" where
  "insert_user r d =
     (if usr_id r \<in> usr_id ` set (t_users d) then (Inl (unique_violation ''users_pkey''), d)
      else if usr_email r \<in> usr_email ` set (t_users d) then (Inl (unique_violation ''unique_email''), d)
      else if usr_business_id r \<notin> biz_id ` set (t_businesses d)
      then (Inl (foreign_key_violation ''users'' ''users_business_id_fkey''), d)
      else if usr_environment_id r \<notin> env_id ` set (t_environments d)
      then (Inl (foreign_key_violation ''users'' ''users_environment_id_fkey''), d)
      else if \<not> (case usr_created_by_user_id r of None \<Rightarrow> True | Some i \<Rightarrow> i \<in> usr_id ` set (t_users d @ [r]))
      then (Inl (foreign_key_violation ''users'' ''users_created_by_user_id_fkey''), d)
      else if \<not> (case usr_created_by_api_key_id r of None \<Rightarrow> True | Some k \<Rightarrow> k \<in> key_id ` set (t_api_keys d))
      then (Inl (foreign_key_violation ''users'' ''users_created_by_api_key_id_fkey''), d)
      else (Inr (), d\<lparr>t_users := t_users d @ [r]\<rparr>))"

definition insert_session :: "session_row \<Rightarrow> users_db \<Rightarrow> (sql_error + unit) \<times> users_db" where
  "insert_session r d =
     (if ses_id r \<in> ses_id ` set (t_sessions d) then (Inl (unique_violation ''user_sessions_pkey''), d)
      else if ses_user_id r \<notin> usr_id ` set (t_users d)
      then (Inl (foreign_key_violation ''user_sessions'' ''user_sessions_user_id_fkey''), d)
      else if ses_environment_id r \<notin> env_id ` set (t_environments d)
      then (Inl (foreign_key_violation ''user_sessions'' ''user_sessions_environment_id_fkey''), d)
      else (Inr (), d\<lparr>t_sessions := t_sessions d @ [r]\<rparr>))"

definition insert_api_key :: "api_key_row \<Rightarrow> users_db \<Rightarrow> (sql_error + unit) \<times> users_db" where
  "insert_api_key r d =
     (if key_id r \<in> key_id ` set (t_api_keys d) then (Inl (unique_violation ''api_keys_pkey''), d)
      else if key_hash r \<in> key_hash ` set (t_api_keys d) then (Inl (unique_violation ''api_keys_key_hash_unique''), d)
      else if \<not> (case key_environment_id r of None \<Rightarrow> True | Some e \<Rightarrow> e \<in> env_id ` set (t_environments d))
      then (Inl (foreign_key_violation ''api_keys'' ''api_keys_environment_id_fkey''), d)
      else if \<not> (case key_created_by_user_id r of None \<Rightarrow> True | Some i \<Rightarrow> i \<in> usr_id ` set (t_users d))
      then (Inl (foreign_key_violation ''api_keys'' ''api_keys_created_by_user_id_fkey''), d)
      else (Inr (), d\<lparr>t_api_keys := t_api_keys d @ [r]\<rparr>))"

definition insert_reset_token :: "reset_token_row \<Rightarrow> users_db \<Rightarrow> (sql_error + unit) \<times> users_db" where
  "insert_reset_token r d =
     (if prt_id r \<in> prt_id ` set (t_reset_tokens d) then (Inl (unique_violation ''password_reset_tokens_pkey''), d)
      else if prt_user_id r \<notin> usr_id ` set (t_users d)
      then (Inl (foreign_key_violation ''password_reset_tokens'' ''password_reset_tokens_user_id_fkey''), d)
      else (Inr (), d\<lparr>t_reset_tokens := t_reset_tokens d @ [r]\<rparr>))"

text \<open>PostgreSQL's \<^verbatim>\<open>TRIM\<close> removes blanks only; the unique index of the beta
  applications is on \<^verbatim>\<open>LOWER(TRIM(email))\<close>.\<close>

definition sql_trim :: "str \<Rightarrow> str" where
  "sql_trim s = rev (dropWhile (\<lambda>c. c = 32) (rev (dropWhile (\<lambda>c. c = 32) s)))"

definition beta_email_key :: "beta_row \<Rightarrow> str" where
  "beta_email_key r = to_lower (sql_trim (beta_email r))"

definition insert_beta :: "beta_row \<Rightarrow> users_db \<Rightarrow> (sql_error + unit) \<times> users_db" where
  "insert_beta r d =
     (if beta_id r \<in> beta_id ` set (t_beta d) then (Inl (unique_violation ''beta_applications_pkey''), d)
      else if beta_email_key r \<in> beta_email_key ` set (t_beta d)
      then (Inl (unique_violation ''idx_beta_applications_email_normalized''), d)
      else (Inr (), d\<lparr>t_beta := t_beta d @ [r]\<rparr>))"

section \<open>Facts\<close>

definition users_undisturbed :: "users_params \<Rightarrow> bool" where
  "users_undisturbed U \<longleftrightarrow> (\<forall>t. up_other U t = id) \<and> (\<forall>t. up_fault U t = No_Fault)"

lemma users_run_undisturbed [simp]:
  "users_undisturbed U \<Longrightarrow>
   users_run U q w = (fst (q (uw_tick w) (uw_db w)),
     w\<lparr>uw_db := snd (q (uw_tick w) (uw_db w)), uw_tick := Suc (uw_tick w)\<rparr>)"
  by (simp add: users_run_def users_undisturbed_def Let_def)

lemma users_query_undisturbed [simp]:
  "users_undisturbed U \<Longrightarrow>
   users_query U q w = (fst (q (uw_tick w) (uw_db w)),
     w\<lparr>uw_db := snd (q (uw_tick w) (uw_db w)), uw_tick := Suc (uw_tick w)\<rparr>)"
  by (simp add: users_query_def users_interleave_def io_simps users_undisturbed_def users_run_def Let_def)

lemma users_transaction_undisturbed:
  assumes "users_undisturbed U"
  shows "users_transaction U body w =
    (case body (w\<lparr>uw_tick := Suc (uw_tick w)\<rparr>) of
       (Inl e, w') \<Rightarrow> (Inl e, w'\<lparr>uw_db := uw_db w\<rparr>)
     | (Inr a, w') \<Rightarrow> (Inr a, w'\<lparr>uw_tick := Suc (uw_tick w')\<rparr>))"
proof -
  have "up_other U t = id" "up_fault U t = No_Fault" for t
    using assms by (simp_all add: users_undisturbed_def)
  then show ?thesis
    by (simp add: users_transaction_def users_interleave_def io_simps users_run_def Let_def
        split: prod.splits sum.splits)
qed

lemma users_tick_apply [io_simps]: "users_tick w = (Inr (uw_tick w), w\<lparr>uw_tick := Suc (uw_tick w)\<rparr>)"
  by (simp add: users_tick_def)

lemma users_reads_apply [io_simps]:
  "users_now U w = (Inr (up_clock U (uw_tick w)), w\<lparr>uw_tick := Suc (uw_tick w)\<rparr>)"
  "users_uuid U w = (Inr (up_uuid U (uw_tick w)), w\<lparr>uw_tick := Suc (uw_tick w)\<rparr>)"
  "users_random U w = (Inr (up_random U (uw_tick w)), w\<lparr>uw_tick := Suc (uw_tick w)\<rparr>)"
  by (simp_all add: users_now_def users_uuid_def users_random_def io_simps)

lemma users_try_random_apply [io_simps]:
  "users_try_random U w =
     (if up_random_fails U (uw_tick w) then Inl U_Internal else Inr (up_random U (uw_tick w)),
      w\<lparr>uw_tick := Suc (uw_tick w)\<rparr>)"
  by (simp add: users_try_random_def io_simps)

lemma or_internal_apply [io_simps]:
  "or_internal m w = (case m w of (Inl e, w') \<Rightarrow> (Inl U_Internal, w') | (Inr a, w') \<Rightarrow> (Inr a, w'))"
  by (simp add: or_internal_def io_simps)

lemma select_apply [simp]:
  "select_first f t d = (Inr (fetch_optional (f d)), d)"
  "select_all g t d = (Inr (g d), d)"
  by (simp_all add: select_first_def select_all_def)

lemma str_contains_append: "str_contains n (p @ n @ s)"
proof (induction p)
  case Nil
  have "starts_with n (n @ s)" by (simp add: starts_with_def)
  then show ?case by (cases "n @ s") simp_all
qed simp

lemma email_conflict_unique [simp]:
  "email_conflict (unique_violation ''unique_email'') = U_Conflict DUPLICATE_EMAIL_MESSAGE"
  using str_contains_append [of "u ''unique_email''" "u ''duplicate key value violates unique constraint '' @ [34]" "[34]"]
  by (simp add: email_conflict_def unique_violation_def)

end
