(* ===== verification/Users_Audit.thy ===== *)
theory Users_Audit
  imports Users_World
begin

text \<open>
  Audit events of the users service (\<^verbatim>\<open>users-service/src/audit_emit.rs\<close>) and the shape all its
  mutating handlers share: run the inner function, emit one event for its outcome, return the outcome.
  The file repeats the helpers of the accounts service word for word (client address, user agent,
  truncation, deadline); they are the same definitions here. The append is awaited, but its answer is
  only logged. \<^verbatim>\<open>Uuid::nil()\<close> is \<open>0\<close>.
\<close>

definition users_environment_from_headers :: "headers \<Rightarrow> str" where
  "users_environment_from_headers hs = unwrap_or (trimmed_header hs (u ''x-environment'')) (u ''unknown'')"

definition users_correlation_from_headers :: "users_params \<Rightarrow> headers \<Rightarrow> str users" where
  "users_correlation_from_headers U hs =
     (case trimmed_header hs (u ''x-correlation-id'') of
        Some s \<Rightarrow> ret s
      | None \<Rightarrow> bind_io (users_uuid U) (\<lambda>i. ret (up_uuid_str U i)))"

definition users_client_ip :: "headers \<Rightarrow> str \<Rightarrow> str" where
  "users_client_ip = client_ip"

definition users_user_agent :: "headers \<Rightarrow> str" where
  "users_user_agent = user_agent"

definition users_http_status_for_error :: "users_error \<Rightarrow> nat" where
  "users_http_status_for_error e = users_status_code e"

definition users_outcome_from_status :: "nat \<Rightarrow> int" where
  "users_outcome_from_status = outcome_from_status"

definition users_truncate_reason :: "str \<Rightarrow> str" where
  "users_truncate_reason = truncate_reason"

definition users_append_with_client :: "audit_event \<Rightarrow> unit users" where
  "users_append_with_client ev =
     (\<lambda>w. (Inr (), w\<lparr>uw_audit := uw_audit w @ [ev], uw_tick := Suc (uw_tick w)\<rparr>))"

definition emit_users_mutation ::
  "users_params \<Rightarrow> headers \<Rightarrow> str \<Rightarrow> str \<Rightarrow> str \<Rightarrow> str \<Rightarrow> uuid \<Rightarrow> actor_type \<Rightarrow> str \<Rightarrow> str list
   \<Rightarrow> str \<Rightarrow> uuid \<Rightarrow> nat \<Rightarrow> str option \<Rightarrow> (str \<times> str) list \<Rightarrow> unit users" where
  "emit_users_mutation U hs peer verb path action organization_id actor_type actor_id actor_roles
       target_type target_id http_status reason metadata =
     (if \<not> up_audit_client U then ret () else
      let outcome = users_outcome_from_status http_status in
      bind_io (users_uuid U) (\<lambda>req_id.
      bind_io (users_now U) (\<lambda>now.
      bind_io (users_correlation_from_headers U hs) (\<lambda>correlation_id.
      users_append_with_client
        \<lparr>ev_occurred_at = up_rfc3339 U now,
         ev_schema_version = 1,
         ev_source_service = u ''users'',
         ev_organization_id = up_uuid_str U organization_id,
         ev_environment = users_environment_from_headers hs,
         ev_actor = Some \<lparr>am_type = actor_type_i32 actor_type, am_id = actor_id, am_roles = actor_roles\<rparr>,
         ev_action = action,
         ev_target = Some \<lparr>tm_type = target_type, tm_id = up_uuid_str U target_id\<rparr>,
         ev_outcome = outcome,
         ev_request = Some \<lparr>rc_id = up_uuid_str U req_id, rc_method = verb, rc_path = path,
                           rc_ip = users_client_ip hs peer, rc_user_agent = users_user_agent hs\<rparr>,
         ev_correlation_id = correlation_id,
         ev_reason = reason,
         ev_metadata = metadata\<rparr>))))"

section \<open>Audited handlers\<close>

text \<open>What the event of a success says: organisation, actor, its id and roles, target.\<close>

record audit_subject =
  as_org :: uuid
  as_actor :: actor_type
  as_actor_id :: str
  as_roles :: "str list"
  as_target_type :: str
  as_target_id :: uuid

definition audited ::
  "users_params \<Rightarrow> headers \<Rightarrow> str \<Rightarrow> str \<Rightarrow> str \<Rightarrow> (('a \<Rightarrow> audit_subject)) \<Rightarrow> audit_subject
   \<Rightarrow> (str \<times> str) list \<Rightarrow> 'a users \<Rightarrow> 'a users" where
  "audited U hs peer path action on_ok on_err meta inner =
     bind_io (try_io inner) (\<lambda>r.
       case r of
         Inr a \<Rightarrow>
           bind_io (emit_users_mutation U hs peer (u ''POST'') path action (as_org (on_ok a))
             (as_actor (on_ok a)) (as_actor_id (on_ok a)) (as_roles (on_ok a)) (as_target_type (on_ok a))
             (as_target_id (on_ok a)) 200 None meta) (\<lambda>_. ret a)
       | Inl e \<Rightarrow>
           bind_io (emit_users_mutation U hs peer (u ''POST'') path action (as_org on_err)
             (as_actor on_err) (as_actor_id on_err) (as_roles on_err) (as_target_type on_err)
             (as_target_id on_err) (users_http_status_for_error e)
             (Some (users_truncate_reason (users_error_to_string e)))
             (meta @ [(u ''http_status'', show_nat (users_http_status_for_error e))])) (\<lambda>_. throw e))"

text \<open>The subject of most failures, and of a success by a user about itself.\<close>

definition anonymous_subject :: "string \<Rightarrow> audit_subject" where
  "anonymous_subject target_type =
     \<lparr>as_org = 0, as_actor = Actor_Anonymous, as_actor_id = [], as_roles = [],
      as_target_type = u target_type, as_target_id = 0\<rparr>"

definition user_subject :: "users_params \<Rightarrow> uuid \<Rightarrow> uuid \<Rightarrow> audit_subject" where
  "user_subject U uid bid =
     \<lparr>as_org = bid, as_actor = Actor_User, as_actor_id = up_uuid_str U uid, as_roles = [],
      as_target_type = u ''user'', as_target_id = uid\<rparr>"

section \<open>Facts\<close>

lemma emit_users_run:
  "\<exists>n new. emit_users_mutation U hs peer verb path action org at ai roles tt ti status reason metadata w =
     (Inr (), w\<lparr>uw_audit := uw_audit w @ new, uw_tick := n\<rparr>) \<and> uw_tick w \<le> n \<and>
     (if up_audit_client U
      then \<exists>ev. new = [ev] \<and> ev_source_service ev = u ''users'' \<and> ev_action ev = action \<and>
        ev_organization_id ev = up_uuid_str U org \<and> ev_outcome ev = users_outcome_from_status status \<and>
        ev_reason ev = reason \<and> ev_metadata ev = metadata
      else new = [] \<and> n = uw_tick w)"
proof (cases "up_audit_client U")
  case False
  then show ?thesis
    by (intro exI [of _ "uw_tick w"] exI [of _ "[]"]) (simp add: emit_users_mutation_def io_simps)
next
  case True
  then show ?thesis
    by (cases "trimmed_header hs (u ''x-correlation-id'')")
      (simp_all add: emit_users_mutation_def users_correlation_from_headers_def users_append_with_client_def
        io_simps Let_def, (rule exI, rule exI, rule conjI, rule refl, simp)+)
qed

lemma emit_users_frame [simp]:
  "fst (emit_users_mutation U hs peer verb path action org at ai roles tt ti status reason metadata w) = Inr ()"
  "uw_db (snd (emit_users_mutation U hs peer verb path action org at ai roles tt ti status reason metadata w)) = uw_db w"
  "uw_emails (snd (emit_users_mutation U hs peer verb path action org at ai roles tt ti status reason metadata w)) = uw_emails w"
  using emit_users_run [of U hs peer verb path action org at ai roles tt ti status reason metadata w] by auto

lemma emit_users_bind [simp]:
  "bind_io (emit_users_mutation U hs peer verb path action org at ai roles tt ti status reason metadata) f w =
   f () (snd (emit_users_mutation U hs peer verb path action org at ai roles tt ti status reason metadata w))"
  by (cases "emit_users_mutation U hs peer verb path action org at ai roles tt ti status reason metadata w")
    (use emit_users_frame [of U hs peer verb path action org at ai roles tt ti status reason metadata w]
      in \<open>simp add: io_simps\<close>)

text \<open>Auditing changes neither the outcome nor the tables.\<close>

lemma audited_run:
  "fst (audited U hs peer path action on_ok on_err meta inner w) = fst (inner w)"
  "uw_db (snd (audited U hs peer path action on_ok on_err meta inner w)) = uw_db (snd (inner w))"
  "uw_emails (snd (audited U hs peer path action on_ok on_err meta inner w)) = uw_emails (snd (inner w))"
proof -
  obtain r w' where "inner w = (r, w')" by (cases "inner w")
  then have run: "audited U hs peer path action on_ok on_err meta inner w =
    (case r of
       Inr a \<Rightarrow> (Inr a, snd (emit_users_mutation U hs peer (u ''POST'') path action (as_org (on_ok a))
             (as_actor (on_ok a)) (as_actor_id (on_ok a)) (as_roles (on_ok a)) (as_target_type (on_ok a))
             (as_target_id (on_ok a)) 200 None meta w'))
     | Inl e \<Rightarrow> (Inl e, snd (emit_users_mutation U hs peer (u ''POST'') path action (as_org on_err)
             (as_actor on_err) (as_actor_id on_err) (as_roles on_err) (as_target_type on_err)
             (as_target_id on_err) (users_http_status_for_error e)
             (Some (users_truncate_reason (users_error_to_string e)))
             (meta @ [(u ''http_status'', show_nat (users_http_status_for_error e))]) w')))"
    by (cases r) (simp_all add: audited_def bind_io_apply [of "try_io inner"] try_io_apply ret_apply throw_apply)
  show "fst (audited U hs peer path action on_ok on_err meta inner w) = fst (inner w)"
    "uw_db (snd (audited U hs peer path action on_ok on_err meta inner w)) = uw_db (snd (inner w))"
    "uw_emails (snd (audited U hs peer path action on_ok on_err meta inner w)) = uw_emails (snd (inner w))"
    using run \<open>inner w = (r, w')\<close> by (simp_all split: sum.split)
qed

end
