(* ===== verification/Users_Auth.thy ===== *)
theory Users_Auth
  imports Users_Audit
begin

text \<open>
  Sessions of the users service: \<^verbatim>\<open>routes/auth.rs\<close> (login, refresh, revoke) and the extractors of
  \<^verbatim>\<open>auth.rs\<close> that authenticate the other routes by API key or access token.
\<close>

definition normalize_email :: "str \<Rightarrow> str" where
  "normalize_email email = to_lower (trim email)"

definition seconds :: "int \<Rightarrow> int" where
  "seconds n = n * 1000000"

definition hours :: "int \<Rightarrow> int" where
  "hours n = seconds (3600 * n)"

definition days :: "int \<Rightarrow> int" where
  "days n = hours (24 * n)"

text \<open>\<^verbatim>\<open>DateTime::timestamp\<close>: whole seconds.\<close>

definition timestamp :: "time \<Rightarrow> int" where
  "timestamp t = t div 1000000"

definition env_or :: "users_params \<Rightarrow> string \<Rightarrow> string \<Rightarrow> str" where
  "env_or U name otherwise = unwrap_or (up_env_var U (u name)) (u otherwise)"

section \<open>Tokens and sessions\<close>

text \<open>The access token, valid for 15 minutes: login, refresh and registration build it alike.\<close>

definition access_claims :: "users_params \<Rightarrow> uuid \<Rightarrow> uuid \<Rightarrow> uuid \<Rightarrow> str \<Rightarrow> time \<Rightarrow> jwt_claims" where
  "access_claims U user_id environment_id business_id jwt_id now =
     \<lparr>jc_sub = up_uuid_str U user_id, jc_jti = jwt_id, jc_exp = timestamp (now + seconds (15 * 60)),
      jc_iat = timestamp now, jc_env = up_uuid_str U environment_id,
      jc_business_id = up_uuid_str U business_id\<rparr>"

definition encode_access_token :: "users_params \<Rightarrow> jwt_claims \<Rightarrow> users_error + str" where
  "encode_access_token U claims =
     ok_or (up_jwt_encode U (env_or U ''JWT_SECRET'' ''dev_secret'') claims) U_Internal"

definition new_session :: "uuid \<Rightarrow> uuid \<Rightarrow> uuid \<Rightarrow> str \<Rightarrow> str \<Rightarrow> time \<Rightarrow> session_row" where
  "new_session i user_id environment_id refresh_token jwt_id now =
     \<lparr>ses_id = i, ses_user_id = user_id, ses_environment_id = environment_id,
      ses_refresh_token = refresh_token, ses_jwt_id = jwt_id, ses_status = u ''active'',
      ses_created_at = now, ses_revoked_at = None, ses_expires_at = now + days 30\<rparr>"

section \<open>Login\<close>

record login_request =
  lr_email :: str
  lr_password :: str
  lr_environment_id :: "uuid option"

record environment_info =
  ei_id :: uuid
  ei_type :: str

record login_response =
  lo_access_token :: str
  lo_refresh_token :: str
  lo_expires_in :: nat
  lo_selected_environment_id :: uuid
  lo_environments :: "environment_info list"

definition active_users_by_email :: "str \<Rightarrow> users_db \<Rightarrow> user_row list" where
  "active_users_by_email email d = filter (\<lambda>r. usr_email r = email \<and> usr_status r = u ''active'') (t_users d)"

definition active_environments :: "uuid \<Rightarrow> users_db \<Rightarrow> environment_row list" where
  "active_environments b d =
     sort_key env_type (filter (\<lambda>e. env_business_id e = b \<and> env_status e = u ''active'') (t_environments d))"

definition select_environment :: "uuid option \<Rightarrow> environment_info list \<Rightarrow> uuid" where
  "select_environment requested available_envs =
     (let sandbox_env_id = map_option ei_id (find (\<lambda>e. ei_type e = u ''sandbox'') available_envs);
          otherwise = (case sandbox_env_id of Some i \<Rightarrow> i | None \<Rightarrow> ei_id (hd available_envs))
      in case requested of
           Some i \<Rightarrow> if list_ex (\<lambda>e. ei_id e = i) available_envs then i else otherwise
         | None \<Rightarrow> otherwise)"

definition login_inner :: "users_params \<Rightarrow> login_request \<Rightarrow> (login_response \<times> uuid \<times> uuid) users" where
  "login_inner U payload =
     (let email_normalized = normalize_email (lr_email payload) in
      bind_io (or_internal (users_query U (select_all (active_users_by_email email_normalized)))) (\<lambda>user_rows.
      case user_rows of
        [] \<Rightarrow> throw U_Unauthorized
      | first # _ \<Rightarrow>
          (case up_verify U (usr_password_hash first) (lr_password payload) of
             Hash_Unreadable \<Rightarrow> throw U_Internal
           | Password_Wrong \<Rightarrow> throw U_Unauthorized
           | Password_Right \<Rightarrow>
               let business_id = usr_business_id first in
               bind_io (or_internal (users_query U (select_all (active_environments business_id)))) (\<lambda>environments.
               if environments = [] then throw U_Unauthorized else
               let available_envs = sort_key ei_type (map (\<lambda>e. \<lparr>ei_id = env_id e, ei_type = env_type e\<rparr>) environments);
                   selected = select_environment (lr_environment_id payload) available_envs in
               bind_io (lift_result (ok_or (map_option usr_id
                 (find (\<lambda>r. usr_status r = u ''active'' \<and> usr_environment_id r = selected) user_rows))
                 U_Unauthorized)) (\<lambda>user_id.
               bind_io (users_uuid U) (\<lambda>j.
               let jwt_id = up_uuid_str U j in
               bind_io (users_now U) (\<lambda>now.
               bind_io (lift_result (encode_access_token U (access_claims U user_id selected business_id jwt_id now)))
                 (\<lambda>access_token.
               bind_io (users_random U) (\<lambda>refresh_bytes.
               let refresh_token = up_base64 U refresh_bytes in
               bind_io (users_uuid U) (\<lambda>refresh_id.
               bind_io (or_internal (users_query U
                 (\<lambda>t. insert_session (new_session refresh_id user_id selected refresh_token jwt_id now)))) (\<lambda>_.
               ret (\<lparr>lo_access_token = access_token, lo_refresh_token = refresh_token, lo_expires_in = 900,
                     lo_selected_environment_id = selected, lo_environments = available_envs\<rparr>,
                    user_id, business_id))))))))))))"

definition login :: "users_params \<Rightarrow> headers \<Rightarrow> str \<Rightarrow> login_request \<Rightarrow> login_response users" where
  "login U hs peer payload =
     bind_io (audited U hs peer (u ''/api/v1/auth/login'') (u ''users.auth.login'')
       (\<lambda>(lr, uid, bid). user_subject U uid bid) (anonymous_subject ''user'') [] (login_inner U payload))
       (\<lambda>(lr, uid, bid). ret lr)"

section \<open>Refresh\<close>

record refresh_token_response =
  rt_access_token :: str
  rt_refresh_token :: str
  rt_expires_in :: nat

definition session_by_token :: "str \<Rightarrow> users_db \<Rightarrow> session_row list" where
  "session_by_token token d = filter (\<lambda>s. ses_refresh_token s = token) (t_sessions d)"

definition users_by_id :: "uuid \<Rightarrow> users_db \<Rightarrow> user_row list" where
  "users_by_id i d = filter (\<lambda>r. usr_id r = i) (t_users d)"

definition revoke_sessions :: "(session_row \<Rightarrow> bool) \<Rightarrow> time \<Rightarrow> users_db \<Rightarrow> users_db" where
  "revoke_sessions p now d =
     d\<lparr>t_sessions := map (\<lambda>s. if p s then s\<lparr>ses_status := u ''revoked'', ses_revoked_at := Some now\<rparr> else s)
        (t_sessions d)\<rparr>"

definition rotate_session :: "users_params \<Rightarrow> uuid \<Rightarrow> session_row \<Rightarrow> time \<Rightarrow> unit users" where
  "rotate_session U old new now =
     users_transaction U
       (bind_io (or_internal (users_run U (\<lambda>t d. (Inr (), revoke_sessions (\<lambda>s. ses_id s = old) now d)))) (\<lambda>_.
        or_internal (users_run U (\<lambda>t. insert_session new))))"

definition refresh_token_inner ::
  "users_params \<Rightarrow> str \<Rightarrow> (refresh_token_response \<times> uuid \<times> uuid) users" where
  "refresh_token_inner U token =
     bind_io (or_internal (users_query U (select_first (session_by_token token)))) (\<lambda>found.
     bind_io (lift_result (ok_or found U_Unauthorized)) (\<lambda>rec.
     bind_io (if ses_status rec \<noteq> u ''active'' then ret True
              else bind_io (users_now U) (\<lambda>now. ret (ses_expires_at rec < now))) (\<lambda>refused.
     if refused then throw U_Unauthorized else
     bind_io (or_internal (users_query U (select_first (users_by_id (ses_user_id rec))))) (\<lambda>owner.
     bind_io (lift_result (ok_or owner U_Internal)) (\<lambda>business_row.
     let business_id = usr_business_id business_row in
     bind_io (users_uuid U) (\<lambda>j.
     let jwt_id = up_uuid_str U j in
     bind_io (users_now U) (\<lambda>now.
     bind_io (lift_result (encode_access_token U
       (access_claims U (ses_user_id rec) (ses_environment_id rec) business_id jwt_id now))) (\<lambda>access_token.
     bind_io (users_random U) (\<lambda>refresh_bytes.
     let new_refresh_token = up_base64 U refresh_bytes in
     bind_io (users_uuid U) (\<lambda>new_refresh_id.
     bind_io (rotate_session U (ses_id rec)
       (new_session new_refresh_id (ses_user_id rec) (ses_environment_id rec) new_refresh_token jwt_id now) now) (\<lambda>_.
     ret (\<lparr>rt_access_token = access_token, rt_refresh_token = new_refresh_token, rt_expires_in = 900\<rparr>,
          ses_user_id rec, business_id))))))))))))"

definition refresh_token ::
  "users_params \<Rightarrow> headers \<Rightarrow> str \<Rightarrow> str \<Rightarrow> refresh_token_response users" where
  "refresh_token U hs peer token =
     bind_io (audited U hs peer (u ''/api/v1/auth/refresh'') (u ''users.auth.refresh'')
       (\<lambda>(body, uid, bid). user_subject U uid bid) (anonymous_subject ''session'') []
       (refresh_token_inner U token)) (\<lambda>(body, uid, bid). ret body)"

section \<open>Revoke\<close>

definition token_not_found :: users_error where
  "token_not_found = U_Bad_Request (u ''Token not found or already revoked'')"

text \<open>The join of the session with its user.\<close>

definition active_session_owner :: "str \<Rightarrow> users_db \<Rightarrow> (uuid \<times> uuid) list" where
  "active_session_owner token d =
     concat (map (\<lambda>s. map (\<lambda>r. (ses_user_id s, usr_business_id r)) (users_by_id (ses_user_id s) d))
       (filter (\<lambda>s. ses_status s = u ''active'') (session_by_token token d)))"

definition revoke_by_token :: "str \<Rightarrow> time \<Rightarrow> nat users_stmt" where
  "revoke_by_token token now = (\<lambda>t d.
     let p = (\<lambda>s. ses_refresh_token s = token \<and> ses_status s = u ''active'')
     in (Inr (length (filter p (t_sessions d))), revoke_sessions p now d))"

definition revoke_token_inner :: "users_params \<Rightarrow> str \<Rightarrow> (str \<times> uuid \<times> uuid) users" where
  "revoke_token_inner U token =
     bind_io (users_now U) (\<lambda>now.
     bind_io (or_internal (users_query U (select_first (active_session_owner token)))) (\<lambda>row.
     bind_io (lift_result (ok_or row token_not_found)) (\<lambda>(user_id, business_id).
     bind_io (or_internal (users_query U (revoke_by_token token now))) (\<lambda>affected.
     if affected = 0 then throw token_not_found
     else ret (u ''revoked'', user_id, business_id)))))"

definition revoke_token :: "users_params \<Rightarrow> headers \<Rightarrow> str \<Rightarrow> str \<Rightarrow> str users" where
  "revoke_token U hs peer token =
     bind_io (audited U hs peer (u ''/api/v1/auth/revoke'') (u ''users.auth.revoke'')
       (\<lambda>(body, uid, bid). user_subject U uid bid) (anonymous_subject ''session'') []
       (revoke_token_inner U token)) (\<lambda>(body, uid, bid). ret body)"

section \<open>Authentication of requests\<close>

record auth_context =
  ctx_user_id :: "uuid option"
  ctx_api_key_id :: "uuid option"
  ctx_business_id :: uuid
  ctx_environment_id :: uuid

record api_key_only_context =
  ako_api_key_id :: uuid
  ako_business_id :: uuid
  ako_environment_id :: uuid

definition hex_digit :: "nat \<Rightarrow> nat" where
  "hex_digit n = (if n < 10 then 48 + n else 87 + n)"

definition hex_encode :: "8 word list \<Rightarrow> str" where
  "hex_encode bytes = concat (map (\<lambda>b. [hex_digit (unat b div 16), hex_digit (unat b mod 16)]) bytes)"

definition hash_api_key :: "users_params \<Rightarrow> str \<Rightarrow> users_error + str" where
  "hash_api_key U api_key_plain =
     (case up_hmac U (env_or U ''API_KEY_HASH_SECRET'' ''dev_api_key_hash_secret'') api_key_plain of
        None \<Rightarrow> Inl U_Internal
      | Some out \<Rightarrow> Inr (hex_encode out))"

definition keys_by_hash :: "str \<Rightarrow> users_db \<Rightarrow> api_key_row list" where
  "keys_by_hash h d = filter (\<lambda>k. key_hash k = h) (t_api_keys d)"

definition environment_of_type :: "uuid \<Rightarrow> str \<Rightarrow> users_db \<Rightarrow> environment_row list" where
  "environment_of_type b ty d =
     filter (\<lambda>e. env_business_id e = b \<and> env_type e = ty \<and> env_status e = u ''active'') (t_environments d)"

definition environment_in_business :: "uuid \<Rightarrow> uuid \<Rightarrow> users_db \<Rightarrow> environment_row list" where
  "environment_in_business i b d =
     filter (\<lambda>e. env_id e = i \<and> env_business_id e = b \<and> env_status e = u ''active'') (t_environments d)"

definition touch_api_key :: "uuid \<Rightarrow> time \<Rightarrow> users_db \<Rightarrow> users_db" where
  "touch_api_key i now d =
     d\<lparr>t_api_keys := map (\<lambda>k. if key_id k = i then k\<lparr>key_last_used_at := Some now\<rparr> else k) (t_api_keys d)\<rparr>"

definition environment_id_header :: "users_params \<Rightarrow> headers \<Rightarrow> users_error + uuid option" where
  "environment_id_header U hs =
     (case trimmed_header hs (u ''X-Environment-Id'') of
        None \<Rightarrow> Inr None
      | Some raw \<Rightarrow>
          (case up_uuid_parse U raw of
             None \<Rightarrow> Inl (U_Bad_Request (u ''Invalid X-Environment-Id header''))
           | Some i \<Rightarrow> Inr (Some i)))"

definition invalid_environment_header :: users_error where
  "invalid_environment_header =
     U_Bad_Request (u ''Invalid X-Environment header: must be '' @ [39] @ u ''sandbox'' @ [39] @ u '' or ''
       @ [39] @ u ''production'' @ [39])"

text \<open>From the key on, both extractors are the same code.\<close>

definition authenticate_api_key ::
  "users_params \<Rightarrow> uuid option \<Rightarrow> str option \<Rightarrow> str \<Rightarrow> (uuid \<times> uuid \<times> uuid) users" where
  "authenticate_api_key U environment_id_from_uuid_header environment_from_string_header api_key_plain =
     bind_io (users_now U) (\<lambda>now.
     bind_io (lift_result (hash_api_key U api_key_plain)) (\<lambda>h.
     bind_io (or_internal (users_query U (select_first (keys_by_hash h)))) (\<lambda>found.
     bind_io (lift_result (ok_or found U_Unauthorized)) (\<lambda>rec.
     if key_status rec \<noteq> u ''active'' \<or> key_revoked_at rec \<noteq> None then throw U_Unauthorized else
     bind_io
       (case environment_id_from_uuid_header of
          Some env \<Rightarrow> ret env
        | None \<Rightarrow>
            bind_io (lift_result (ok_or environment_from_string_header
              (U_Bad_Request (u ''Missing X-Environment header'')))) (\<lambda>env.
            if env \<noteq> u ''sandbox'' \<and> env \<noteq> u ''production'' then throw invalid_environment_header else
            bind_io (or_internal (users_query U (select_first (environment_of_type (key_business_id rec) env))))
              (\<lambda>env_rec.
            bind_io (lift_result (ok_or env_rec U_Forbidden)) (\<lambda>e. ret (env_id e))))) (\<lambda>environment_id.
     bind_io (or_internal (users_query U
       (select_first (environment_in_business environment_id (key_business_id rec))))) (\<lambda>env_ok.
     if env_ok = None then throw U_Forbidden else
     bind_io (try_io (users_query U (\<lambda>t d. (Inr (), touch_api_key (key_id rec) now d)))) (\<lambda>_.
     ret (key_id rec, key_business_id rec, environment_id))))))))"

definition active_user_in :: "uuid \<Rightarrow> uuid \<Rightarrow> users_db \<Rightarrow> user_row list" where
  "active_user_in i e d =
     filter (\<lambda>r. usr_id r = i \<and> usr_environment_id r = e \<and> usr_status r = u ''active'') (t_users d)"

definition active_user :: "uuid \<Rightarrow> users_db \<Rightarrow> user_row list" where
  "active_user i d = filter (\<lambda>r. usr_id r = i \<and> usr_status r = u ''active'') (t_users d)"

definition bearer :: str where
  "bearer = u ''Bearer ''"

definition auth_context :: "users_params \<Rightarrow> headers \<Rightarrow> auth_context users" where
  "auth_context U hs =
     bind_io (lift_result (environment_id_header U hs)) (\<lambda>environment_id_from_uuid_header.
     case trimmed_header hs (u ''X-API-Key'') of
       Some api_key_plain \<Rightarrow>
         bind_io (authenticate_api_key U environment_id_from_uuid_header
           (trimmed_header hs (u ''X-Environment'')) api_key_plain) (\<lambda>(k, b, e).
         ret \<lparr>ctx_user_id = None, ctx_api_key_id = Some k, ctx_business_id = b, ctx_environment_id = e\<rparr>)
     | None \<Rightarrow>
         bind_io (lift_result (ok_or environment_id_from_uuid_header
           (U_Bad_Request (u ''Missing X-Environment-Id header'')))) (\<lambda>environment_id.
         bind_io (lift_result (ok_or (header_str hs (u ''authorization'')) U_Unauthorized)) (\<lambda>auth_header.
         bind_io (lift_result (ok_or (if starts_with bearer auth_header
           then Some (drop (length bearer) auth_header) else None) U_Unauthorized)) (\<lambda>token.
         bind_io (users_now U) (\<lambda>now.
         bind_io (lift_result (ok_or (up_jwt_decode U (env_or U ''JWT_SECRET'' ''dev_secret'') now token)
           U_Unauthorized)) (\<lambda>sub.
         bind_io (lift_result (ok_or (up_uuid_parse U sub) U_Unauthorized)) (\<lambda>user_id.
         bind_io (or_internal (users_query U (select_first (active_user_in user_id environment_id)))) (\<lambda>rec.
         bind_io
           (case rec of
              Some row \<Rightarrow> ret (usr_business_id row)
            | None \<Rightarrow>
                bind_io (or_internal (users_query U (select_first (active_user user_id)))) (\<lambda>any_user_rec.
                bind_io (lift_result (ok_or any_user_rec U_Forbidden)) (\<lambda>row.
                bind_io (or_internal (users_query U
                  (select_first (environment_in_business environment_id (usr_business_id row))))) (\<lambda>env_check.
                if env_check = None then throw U_Forbidden else ret (usr_business_id row))))) (\<lambda>business_id.
         ret \<lparr>ctx_user_id = Some user_id, ctx_api_key_id = None, ctx_business_id = business_id,
              ctx_environment_id = environment_id\<rparr>)))))))))"

definition api_key_only_context :: "users_params \<Rightarrow> headers \<Rightarrow> api_key_only_context users" where
  "api_key_only_context U hs =
     bind_io (lift_result (environment_id_header U hs)) (\<lambda>environment_id_from_uuid_header.
     bind_io (lift_result (ok_or (trimmed_header hs (u ''X-API-Key'')) U_Unauthorized)) (\<lambda>api_key_plain.
     bind_io (authenticate_api_key U environment_id_from_uuid_header
       (trimmed_header hs (u ''X-Environment'')) api_key_plain) (\<lambda>(k, b, e).
     ret \<lparr>ako_api_key_id = k, ako_business_id = b, ako_environment_id = e\<rparr>)))"

section \<open>Facts\<close>

lemma hex_digit_inj: "a < 16 \<Longrightarrow> b < 16 \<Longrightarrow> hex_digit a = hex_digit b \<Longrightarrow> a = b"
  by (auto simp: hex_digit_def split: if_splits)

lemma length_hex_encode: "length (hex_encode bs) = 2 * length bs"
  by (induction bs) (simp_all add: hex_encode_def)

lemma hex_encode_inj: "hex_encode a = hex_encode b \<Longrightarrow> a = b"
proof (induction a arbitrary: b)
  case Nil
  then show ?case by (cases b) (simp_all add: hex_encode_def)
next
  case (Cons x xs)
  then obtain y ys where b: "b = y # ys" by (cases b) (auto simp: hex_encode_def)
  have small: "unat (z :: 8 word) div 16 < 16" for z
    using unsigned_less [of z, where ?'a = nat] by (simp add: less_mult_imp_div_less)
  have "hex_digit (unat x div 16) = hex_digit (unat y div 16)" "hex_digit (unat x mod 16) = hex_digit (unat y mod 16)"
    "hex_encode xs = hex_encode ys"
    using Cons.prems unfolding b by (simp_all add: hex_encode_def)
  then have "unat x div 16 = unat y div 16" "unat x mod 16 = unat y mod 16" "xs = ys"
    using hex_digit_inj small Cons.IH by simp_all
  moreover have "unat x = unat y" using calculation by (metis div_mult_mod_eq)
  ultimately show ?case using b by (simp add: word_unat_eq_iff)
qed

end
