(* ===== verification/Users_Keys.thy ===== *)
theory Users_Keys
  imports Users_Auth
begin

text \<open>
  API keys: the routes of \<^verbatim>\<open>routes/apikey.rs\<close> with which an administrator creates, lists and
  revokes them, and the gRPC methods of \<^verbatim>\<open>grpc_server.rs\<close> by which the accounts and audit
  services have them checked.
\<close>

section \<open>Routes\<close>

record create_api_key_response =
  cak_id :: uuid
  cak_key :: str
  cak_status :: str

record api_key_info =
  aki_id :: uuid
  aki_business_id :: uuid
  aki_environment_id :: "uuid option"
  aki_status :: str
  aki_last_used_at :: "time option"
  aki_created_at :: time
  aki_revoked_at :: "time option"
  aki_created_by_user_id :: "uuid option"

text \<open>The check the three routes begin with: the caller is an active administrator in the environment
  of the request.\<close>

definition require_admin :: "users_params \<Rightarrow> auth_context \<Rightarrow> uuid users" where
  "require_admin U ctx =
     bind_io (lift_result (ok_or (ctx_user_id ctx) U_Forbidden)) (\<lambda>request_user_id.
     bind_io (or_internal (users_query U (select_first (active_user_in request_user_id (ctx_environment_id ctx)))))
       (\<lambda>role_row.
     bind_io (lift_result (ok_or role_row U_Forbidden)) (\<lambda>r.
     if usr_role r \<noteq> u ''admin'' then throw U_Forbidden else ret request_user_id)))"

definition new_api_key :: "uuid \<Rightarrow> uuid \<Rightarrow> uuid option \<Rightarrow> str \<Rightarrow> time \<Rightarrow> uuid \<Rightarrow> api_key_row" where
  "new_api_key i business_id environment_id h now creator =
     \<lparr>key_id = i, key_business_id = business_id, key_environment_id = environment_id, key_hash = h,
      key_status = u ''active'', key_last_used_at = None, key_created_at = now, key_revoked_at = None,
      key_created_by_user_id = Some creator\<rparr>"

definition create_api_key_inner ::
  "users_params \<Rightarrow> auth_context \<Rightarrow> uuid option \<Rightarrow> (create_api_key_response \<times> uuid \<times> uuid) users" where
  "create_api_key_inner U ctx environment_id =
     bind_io (require_admin U ctx) (\<lambda>request_user_id.
     bind_io
       (case environment_id of
          None \<Rightarrow> ret ()
        | Some e \<Rightarrow>
            bind_io (or_internal (users_query U (select_first (environment_in_business e (ctx_business_id ctx)))))
              (\<lambda>env_ok. if env_ok = None then throw (U_Bad_Request (u ''Invalid environment_id'')) else ret ()))
       (\<lambda>_.
     bind_io (users_uuid U) (\<lambda>i.
     bind_io (users_now U) (\<lambda>now.
     bind_io (users_try_random U) (\<lambda>raw.
     let api_key_plain = up_base64_url U raw in
     bind_io (lift_result (hash_api_key U api_key_plain)) (\<lambda>h.
     bind_io (or_internal (users_query U
       (\<lambda>t. insert_api_key (new_api_key i (ctx_business_id ctx) environment_id h now request_user_id)))) (\<lambda>_.
     ret (\<lparr>cak_id = i, cak_key = api_key_plain, cak_status = u ''active''\<rparr>, ctx_business_id ctx,
          request_user_id))))))))"

definition admin_key_subject :: "users_params \<Rightarrow> create_api_key_response \<times> uuid \<times> uuid \<Rightarrow> audit_subject" where
  "admin_key_subject U = (\<lambda>(body, bid, uid).
     \<lparr>as_org = bid, as_actor = Actor_User, as_actor_id = up_uuid_str U uid, as_roles = [u ''admin''],
      as_target_type = u ''api_key'', as_target_id = cak_id body\<rparr>)"

definition create_api_key ::
  "users_params \<Rightarrow> headers \<Rightarrow> str \<Rightarrow> auth_context \<Rightarrow> uuid option \<Rightarrow> create_api_key_response users" where
  "create_api_key U hs peer ctx environment_id =
     bind_io (audited U hs peer (u ''/api/v1/api-keys'') (u ''users.api_key.create'') (admin_key_subject U)
       (anonymous_subject ''api_key'') [] (create_api_key_inner U ctx environment_id)) (\<lambda>(body, bid, uid). ret body)"

definition api_key_info_from :: "api_key_row \<Rightarrow> api_key_info" where
  "api_key_info_from k =
     \<lparr>aki_id = key_id k, aki_business_id = key_business_id k, aki_environment_id = key_environment_id k,
      aki_status = key_status k, aki_last_used_at = key_last_used_at k, aki_created_at = key_created_at k,
      aki_revoked_at = key_revoked_at k, aki_created_by_user_id = key_created_by_user_id k\<rparr>"

definition list_api_keys :: "users_params \<Rightarrow> auth_context \<Rightarrow> api_key_info list users" where
  "list_api_keys U ctx =
     bind_io (require_admin U ctx) (\<lambda>_.
     bind_io (or_internal (users_query U (select_all (\<lambda>d.
       sort_desc key_created_at (filter (\<lambda>k. key_business_id k = ctx_business_id ctx) (t_api_keys d)))))) (\<lambda>rows.
     ret (map api_key_info_from rows)))"

definition revoke_api_key_stmt :: "uuid \<Rightarrow> uuid \<Rightarrow> time \<Rightarrow> nat users_stmt" where
  "revoke_api_key_stmt i business_id now = (\<lambda>t d.
     let p = (\<lambda>k. key_id k = i \<and> key_business_id k = business_id \<and> key_status k = u ''active'')
     in (Inr (length (filter p (t_api_keys d))),
         d\<lparr>t_api_keys := map (\<lambda>k. if p k then k\<lparr>key_status := u ''revoked'', key_revoked_at := Some now\<rparr> else k)
            (t_api_keys d)\<rparr>))"

definition revoke_api_key_inner ::
  "users_params \<Rightarrow> auth_context \<Rightarrow> uuid \<Rightarrow> (create_api_key_response \<times> uuid \<times> uuid) users" where
  "revoke_api_key_inner U ctx api_key_id =
     bind_io (require_admin U ctx) (\<lambda>request_user_id.
     bind_io (users_now U) (\<lambda>now.
     bind_io (or_internal (users_query U (revoke_api_key_stmt api_key_id (ctx_business_id ctx) now))) (\<lambda>affected.
     if affected = 0 then throw (U_Bad_Request (u ''API key not found or already revoked''))
     else ret (\<lparr>cak_id = api_key_id, cak_key = [], cak_status = u ''revoked''\<rparr>, ctx_business_id ctx, request_user_id))))"

definition revoke_api_key ::
  "users_params \<Rightarrow> headers \<Rightarrow> str \<Rightarrow> auth_context \<Rightarrow> uuid \<Rightarrow> create_api_key_response users" where
  "revoke_api_key U hs peer ctx api_key_id =
     bind_io (audited U hs peer (u ''/api/v1/api-keys/'' @ up_uuid_str U api_key_id @ u ''/revoke'')
       (u ''users.api_key.revoke'') (admin_key_subject U)
       ((anonymous_subject ''api_key'')\<lparr>as_target_id := api_key_id\<rparr>) []
       (revoke_api_key_inner U ctx api_key_id)) (\<lambda>(body, bid, uid). ret body)"

section \<open>gRPC\<close>

definition status_invalid :: "string \<Rightarrow> grpc_status" where
  "status_invalid m = \<lparr>gs_code = Code_Invalid_Argument, gs_message = u m\<rparr>"

definition validate_api_key_request_inputs :: "str \<Rightarrow> str \<Rightarrow> grpc_status + str \<times> str" where
  "validate_api_key_request_inputs api_key environment =
     (let api_key_plain = trim api_key; environment = to_lower (trim environment) in
      if api_key_plain = [] then Inl (status_invalid ''api_key is required'')
      else if environment \<noteq> u ''sandbox'' \<and> environment \<noteq> u ''production''
      then Inl \<lparr>gs_code = Code_Invalid_Argument, gs_message =
        u ''environment must be '' @ [39] @ u ''sandbox'' @ [39] @ u '' or '' @ [39] @ u ''production'' @ [39]\<rparr>
      else Inr (api_key_plain, environment))"

definition normalize_account_user_lookup_inputs :: "str \<Rightarrow> str \<Rightarrow> str \<Rightarrow> grpc_status + str \<times> str \<times> str" where
  "normalize_account_user_lookup_inputs email first_name last_name =
     (let email = normalize_email email; first_name = trim first_name; last_name = trim last_name in
      if email = [] then Inl (status_invalid ''email is required'')
      else if first_name = [] then Inl (status_invalid ''first_name is required'')
      else if last_name = [] then Inl (status_invalid ''last_name is required'')
      else Inr (email, first_name, last_name))"

text \<open>The text of a failed statement goes to the client; \<open>sql_error_text\<close> is its \<^verbatim>\<open>Display\<close>, of
  which the code makes no further use.\<close>

definition sql_error_text :: "sql_error \<Rightarrow> str" where
  "sql_error_text e =
     (case e of Database_Error m \<Rightarrow> u ''error returned from database: '' @ m | Other_Error m \<Rightarrow> m)"

definition grpc_internal :: "str \<Rightarrow> grpc_status" where
  "grpc_internal m = \<lparr>gs_code = Code_Internal, gs_message = m\<rparr>"

definition or_grpc_internal :: "(users_world, sql_error, 'a) io \<Rightarrow> (users_world, grpc_status, 'a) io" where
  "or_grpc_internal m = map_err_io (\<lambda>e. grpc_internal (sql_error_text e)) m"

definition validate_api_key_scope ::
  "users_params \<Rightarrow> str \<Rightarrow> str \<Rightarrow> (users_world, grpc_status, uuid \<times> uuid) io" where
  "validate_api_key_scope U api_key_plain environment =
     bind_io (lift_result (case hash_api_key U api_key_plain of
        Inl e \<Rightarrow> Inl (grpc_internal (users_error_to_string e)) | Inr h \<Rightarrow> Inr h)) (\<lambda>h.
     bind_io (or_grpc_internal (users_query U (select_first (keys_by_hash h)))) (\<lambda>found.
     bind_io (lift_result (ok_or found
       \<lparr>gs_code = Code_Unauthenticated, gs_message = u ''Invalid or revoked API key''\<rparr>)) (\<lambda>rec.
     if key_status rec \<noteq> u ''active'' \<or> key_revoked_at rec \<noteq> None
     then throw \<lparr>gs_code = Code_Unauthenticated, gs_message = u ''API key is revoked or inactive''\<rparr> else
     bind_io (or_grpc_internal (users_query U
       (select_first (environment_of_type (key_business_id rec) environment)))) (\<lambda>env_row.
     bind_io (lift_result (ok_or env_row
       \<lparr>gs_code = Code_Failed_Precondition, gs_message = u ''No such environment for business''\<rparr>)) (\<lambda>e.
     ret (key_business_id rec, env_id e))))))"

definition admins_in :: "uuid \<Rightarrow> uuid \<Rightarrow> users_db \<Rightarrow> user_row list" where
  "admins_in b e d =
     filter (\<lambda>r. usr_business_id r = b \<and> usr_environment_id r = e \<and> usr_role r = u ''admin''
       \<and> usr_status r = u ''active'') (t_users d)"

definition grpc_validate_api_key ::
  "users_params \<Rightarrow> str \<Rightarrow> str \<Rightarrow> (users_world, grpc_status, str \<times> str \<times> str) io" where
  "grpc_validate_api_key U api_key env =
     bind_io (lift_result (validate_api_key_request_inputs api_key env)) (\<lambda>(api_key_plain, environment).
     bind_io (validate_api_key_scope U api_key_plain environment) (\<lambda>(business_id, environment_id).
     bind_io (or_grpc_internal (users_query U (select_first (admins_in business_id environment_id)))) (\<lambda>row.
     bind_io (lift_result (ok_or row
       \<lparr>gs_code = Code_Failed_Precondition, gs_message = u ''No admin user in this environment''\<rparr>)) (\<lambda>admin_row.
     ret (up_uuid_str U business_id, up_uuid_str U environment_id, up_uuid_str U (usr_id admin_row))))))"

definition users_by_name :: "uuid \<Rightarrow> uuid \<Rightarrow> str \<Rightarrow> str \<Rightarrow> str \<Rightarrow> users_db \<Rightarrow> user_row list" where
  "users_by_name b e email first_name last_name d =
     filter (\<lambda>r. usr_business_id r = b \<and> usr_environment_id r = e \<and> usr_email r = email
       \<and> usr_first_name r = first_name \<and> usr_last_name r = last_name \<and> usr_status r = u ''active'') (t_users d)"

definition grpc_resolve_account_user ::
  "users_params \<Rightarrow> str \<Rightarrow> str \<Rightarrow> str \<Rightarrow> str \<Rightarrow> str \<Rightarrow> (users_world, grpc_status, str \<times> str \<times> str) io" where
  "grpc_resolve_account_user U api_key env email first_name last_name =
     bind_io (lift_result (validate_api_key_request_inputs api_key env)) (\<lambda>(api_key_plain, environment).
     bind_io (lift_result (normalize_account_user_lookup_inputs email first_name last_name))
       (\<lambda>(email, first_name, last_name).
     bind_io (validate_api_key_scope U api_key_plain environment) (\<lambda>(business_id, environment_id).
     bind_io (or_grpc_internal (users_query U
       (select_first (users_by_name business_id environment_id email first_name last_name)))) (\<lambda>row.
     bind_io (lift_result (ok_or row
       \<lparr>gs_code = Code_Not_Found,
        gs_message = u ''No active user matches the supplied account owner details''\<rparr>)) (\<lambda>user_row.
     ret (up_uuid_str U business_id, up_uuid_str U environment_id, up_uuid_str U (usr_id user_row)))))))"

end
