(* ===== verification/Users_Reset.thy ===== *)
theory Users_Reset
  imports Users_Auth
begin

text \<open>
  Password reset (\<^verbatim>\<open>routes/password_reset.rs\<close>): a request stores the hash of a fresh token and
  mails the token; presenting it within the hour, once, replaces the password and ends all sessions.
\<close>

text \<open>\<^verbatim>\<open>str::len\<close>: bytes of the UTF-8 encoding.\<close>

definition utf8_size :: "nat \<Rightarrow> nat" where
  "utf8_size c = (if c < 0x80 then 1 else if c < 0x800 then 2 else if c < 0x10000 then 3 else 4)"

definition byte_len :: "str \<Rightarrow> nat" where
  "byte_len s = sum_list (map utf8_size s)"

section \<open>Request\<close>

definition reset_request_message :: str where
  "reset_request_message =
     u ''If an account exists with that email, a password reset link has been sent.''"

datatype password_reset_request_outcome = No_Such_User | Issued uuid uuid

definition use_reset_tokens :: "(reset_token_row \<Rightarrow> bool) \<Rightarrow> time \<Rightarrow> users_db \<Rightarrow> users_db" where
  "use_reset_tokens p now d =
     d\<lparr>t_reset_tokens := map (\<lambda>r. if p r then r\<lparr>prt_used_at := Some now\<rparr> else r) (t_reset_tokens d)\<rparr>"

definition unused_of :: "uuid \<Rightarrow> reset_token_row \<Rightarrow> bool" where
  "unused_of i r \<longleftrightarrow> prt_user_id r = i \<and> prt_used_at r = None"

definition new_reset_token :: "uuid \<Rightarrow> uuid \<Rightarrow> str \<Rightarrow> time \<Rightarrow> time \<Rightarrow> reset_token_row" where
  "new_reset_token i user_id h expires_at now =
     \<lparr>prt_id = i, prt_user_id = user_id, prt_token_hash = h, prt_expires_at = expires_at,
      prt_used_at = None, prt_created_at = now\<rparr>"

definition generate_reset_token :: "users_params \<Rightarrow> str users" where
  "generate_reset_token U = bind_io (users_random U) (\<lambda>token_bytes. ret (up_base64_url U token_bytes))"

definition store_reset_token :: "users_params \<Rightarrow> uuid \<Rightarrow> uuid \<Rightarrow> str \<Rightarrow> time \<Rightarrow> unit users" where
  "store_reset_token U user_id token_id token_hash expires_at =
     users_transaction U
       (bind_io (users_now U) (\<lambda>now.
        bind_io (or_internal (users_run U (\<lambda>t d. (Inr (), use_reset_tokens (unused_of user_id) now d)))) (\<lambda>_.
        or_internal (users_run U (\<lambda>t. insert_reset_token (new_reset_token token_id user_id token_hash expires_at now))))))"

text \<open>\<^verbatim>\<open>fetch_one\<close>: no row is an error.\<close>

definition business_of :: "uuid \<Rightarrow> uuid users_stmt" where
  "business_of i = (\<lambda>t d.
     (case users_by_id i d of
        [] \<Rightarrow> (Inl (Other_Error (u ''no rows returned by a query that expected to return at least one row'')), d)
      | r # _ \<Rightarrow> (Inr (usr_business_id r), d)))"

definition send_email :: "users_params \<Rightarrow> email_msg \<Rightarrow> unit users" where
  "send_email U m =
     (if up_email U then (\<lambda>w. (Inr (), w\<lparr>uw_emails := uw_emails w @ [m], uw_tick := Suc (uw_tick w)\<rparr>)) else ret ())"

definition request_password_reset_inner ::
  "users_params \<Rightarrow> str \<Rightarrow> (str \<times> password_reset_request_outcome) users" where
  "request_password_reset_inner U email =
     (let email_normalized = normalize_email email in
      bind_io (or_internal (users_query U (select_first (active_users_by_email email_normalized)))) (\<lambda>user_row.
      case user_row of
        None \<Rightarrow> ret (reset_request_message, No_Such_User)
      | Some row \<Rightarrow>
          let user_id = usr_id row in
          bind_io (generate_reset_token U) (\<lambda>raw_token.
          let token_hash = up_sha256_hex U raw_token in
          bind_io (users_now U) (\<lambda>now.
          let expires_at = now + hours 1 in
          bind_io (users_uuid U) (\<lambda>token_id.
          bind_io (store_reset_token U user_id token_id token_hash expires_at) (\<lambda>_.
          bind_io (send_email U (Password_Reset_Email email raw_token)) (\<lambda>_.
          bind_io (or_internal (users_query U (business_of user_id))) (\<lambda>business_id.
          ret (reset_request_message, Issued user_id business_id)))))))))"

definition reset_request_subject :: "users_params \<Rightarrow> password_reset_request_outcome \<Rightarrow> audit_subject" where
  "reset_request_subject U result =
     (case result of
        No_Such_User \<Rightarrow> anonymous_subject ''user''
      | Issued uid bid \<Rightarrow> user_subject U uid bid)"

definition request_password_reset :: "users_params \<Rightarrow> headers \<Rightarrow> str \<Rightarrow> str \<Rightarrow> str users" where
  "request_password_reset U hs peer email =
     bind_io (audited U hs peer (u ''/api/v1/auth/password-reset/request'') (u ''users.password_reset.request'')
       (\<lambda>(body, result). reset_request_subject U result) (anonymous_subject ''user'') []
       (request_password_reset_inner U email)) (\<lambda>(body, result). ret body)"

section \<open>Reset\<close>

definition reset_done_message :: str where
  "reset_done_message =
     u ''Password has been reset successfully. You can now log in with your new password.''"

definition invalid_reset_token :: users_error where
  "invalid_reset_token = U_Bad_Request (u ''Invalid or expired reset token'')"

definition reset_claimable :: "str \<Rightarrow> time \<Rightarrow> reset_token_row \<Rightarrow> bool" where
  "reset_claimable h now r \<longleftrightarrow> prt_token_hash r = h \<and> prt_used_at r = None \<and> prt_expires_at r \<ge> now"

definition claim_token :: "str \<Rightarrow> time \<Rightarrow> (uuid \<times> uuid) option users_stmt" where
  "claim_token h now = (\<lambda>t d.
     (Inr (map_option (\<lambda>r. (prt_id r, prt_user_id r)) (fetch_optional (filter (reset_claimable h now) (t_reset_tokens d)))),
      use_reset_tokens (reset_claimable h now) now d))"

definition set_password :: "uuid \<Rightarrow> str \<Rightarrow> time \<Rightarrow> users_db \<Rightarrow> users_db" where
  "set_password i h now d =
     d\<lparr>t_users := map (\<lambda>r. if usr_id r = i then r\<lparr>usr_password_hash := h, usr_updated_at := now\<rparr> else r) (t_users d)\<rparr>"

definition active_session_of :: "uuid \<Rightarrow> session_row \<Rightarrow> bool" where
  "active_session_of i s \<longleftrightarrow> ses_user_id s = i \<and> ses_status s = u ''active''"

definition reset_transaction :: "users_params \<Rightarrow> str \<Rightarrow> str \<Rightarrow> (uuid \<times> uuid) users" where
  "reset_transaction U token_hash password_hash =
     users_transaction U
       (bind_io (users_now U) (\<lambda>now1.
        bind_io (or_internal (users_run U (claim_token token_hash now1))) (\<lambda>token_row.
        bind_io (lift_result (ok_or token_row invalid_reset_token)) (\<lambda>(token_id, user_id).
        bind_io (or_internal (users_run U (business_of user_id))) (\<lambda>business_id.
        bind_io (users_now U) (\<lambda>now2.
        bind_io (or_internal (users_run U (\<lambda>t d. (Inr (), set_password user_id password_hash now2 d)))) (\<lambda>_.
        bind_io (users_now U) (\<lambda>now3.
        bind_io (or_internal (users_run U (\<lambda>t d.
          (Inr (), use_reset_tokens (\<lambda>r. unused_of user_id r \<and> prt_id r \<noteq> token_id) now3 d)))) (\<lambda>_.
        bind_io (users_now U) (\<lambda>now4.
        bind_io (or_internal (users_run U (\<lambda>t d. (Inr (), revoke_sessions (active_session_of user_id) now4 d)))) (\<lambda>_.
        ret (user_id, business_id))))))))))))"

definition reset_password_inner :: "users_params \<Rightarrow> str \<Rightarrow> str \<Rightarrow> (str \<times> uuid \<times> uuid) users" where
  "reset_password_inner U token new_password =
     (let token_hash = up_sha256_hex U token in
      if byte_len new_password < 8
      then throw (U_Bad_Request (u ''Password must be at least 8 characters long'')) else
      bind_io users_tick (\<lambda>salt.
      bind_io (lift_result (ok_or (up_hash_password U salt new_password) U_Internal)) (\<lambda>password_hash.
      bind_io (reset_transaction U token_hash password_hash) (\<lambda>(user_id, business_id).
      ret (reset_done_message, user_id, business_id)))))"

definition reset_password :: "users_params \<Rightarrow> headers \<Rightarrow> str \<Rightarrow> str \<Rightarrow> str \<Rightarrow> str users" where
  "reset_password U hs peer token new_password =
     bind_io (audited U hs peer (u ''/api/v1/auth/password-reset/reset'') (u ''users.password_reset.complete'')
       (\<lambda>(body, uid, bid). user_subject U uid bid) (anonymous_subject ''user'') []
       (reset_password_inner U token new_password)) (\<lambda>(body, uid, bid). ret body)"

end
