(* ===== verification/Users_Register.thy ===== *)
theory Users_Register
  imports Users_Reset
begin

text \<open>
  The routes that create users: registration of a business with its environments and administrator
  (\<^verbatim>\<open>routes/business.rs\<close>), users created by API key and the profile of the caller
  (\<^verbatim>\<open>routes/user.rs\<close>), and applications for the beta (\<^verbatim>\<open>routes/beta.rs\<close>). The
  product analytics of \<^verbatim>\<open>create_sdk_user\<close> are left out.
\<close>

section \<open>Registration\<close>

record register_business_request =
  rb_name :: str
  rb_website :: "str option"
  rb_admin_first_name :: str
  rb_admin_last_name :: str
  rb_admin_email :: str
  rb_admin_password :: str

record register_business_response =
  rr_business_id :: uuid
  rr_admin_user_id :: uuid
  rr_environments :: "environment_info list"
  rr_access_token :: str
  rr_refresh_token :: str
  rr_expires_in :: nat
  rr_selected_environment_id :: uuid

definition email_exists :: "str \<Rightarrow> bool users_stmt" where
  "email_exists email = select_all (\<lambda>d. list_ex (\<lambda>r. usr_email r = email) (t_users d))"

definition new_business :: "uuid \<Rightarrow> register_business_request \<Rightarrow> time \<Rightarrow> business_row" where
  "new_business i payload now =
     \<lparr>biz_id = i, biz_name = rb_name payload, biz_website = rb_website payload, biz_status = u ''active'',
      biz_created_at = now, biz_updated_at = now\<rparr>"

definition new_environment :: "uuid \<Rightarrow> uuid \<Rightarrow> string \<Rightarrow> time \<Rightarrow> environment_row" where
  "new_environment i business_id ty now =
     \<lparr>env_id = i, env_business_id = business_id, env_type = u ty, env_status = u ''active'',
      env_created_at = now, env_updated_at = now\<rparr>"

definition new_admin ::
  "uuid \<Rightarrow> uuid \<Rightarrow> uuid \<Rightarrow> register_business_request \<Rightarrow> str \<Rightarrow> str \<Rightarrow> time \<Rightarrow> user_row" where
  "new_admin i business_id environment_id payload email password_hash now =
     \<lparr>usr_id = i, usr_business_id = business_id, usr_environment_id = environment_id,
      usr_first_name = rb_admin_first_name payload, usr_last_name = rb_admin_last_name payload,
      usr_email = email, usr_password_hash = password_hash, usr_role = u ''admin'', usr_status = u ''active'',
      usr_created_at = now, usr_updated_at = now, usr_created_by_user_id = None,
      usr_created_by_api_key_id = None\<rparr>"

definition create_business_body ::
  "users_params \<Rightarrow> register_business_request \<Rightarrow> str \<Rightarrow> (uuid \<times> uuid \<times> uuid \<times> uuid) users" where
  "create_business_body U payload email =
        bind_io (users_uuid U) (\<lambda>business_id.
        bind_io (users_now U) (\<lambda>now.
        bind_io (or_internal (users_run U (\<lambda>t. insert_business (new_business business_id payload now)))) (\<lambda>_.
        bind_io (users_uuid U) (\<lambda>sandbox_env_id.
        bind_io (users_uuid U) (\<lambda>prod_env_id.
        bind_io (for_each_io (\<lambda>(i, ty). or_internal (users_run U
            (\<lambda>t. insert_environment (new_environment i business_id ty now))))
          [(sandbox_env_id, ''sandbox''), (prod_env_id, ''production'')]) (\<lambda>_.
        bind_io (users_uuid U) (\<lambda>admin_user_id.
        bind_io users_tick (\<lambda>salt.
        bind_io (lift_result (ok_or (up_hash_password U salt (rb_admin_password payload)) U_Internal)) (\<lambda>password_hash.
        bind_io (map_err_io email_conflict (users_run U (\<lambda>t. insert_user
          (new_admin admin_user_id business_id sandbox_env_id payload email password_hash now)))) (\<lambda>_.
        ret (business_id, sandbox_env_id, prod_env_id, admin_user_id)))))))))))"

definition create_business_tx ::
  "users_params \<Rightarrow> register_business_request \<Rightarrow> str \<Rightarrow> (uuid \<times> uuid \<times> uuid \<times> uuid) users" where
  "create_business_tx U payload email = users_transaction U (create_business_body U payload email)"

definition register_business_inner ::
  "users_params \<Rightarrow> register_business_request \<Rightarrow> register_business_response users" where
  "register_business_inner U payload =
     (let email = normalize_email (rb_admin_email payload) in
      if email = [] then throw (U_Bad_Request (u ''Admin email is required.'')) else
      bind_io (or_internal (users_query U (email_exists email))) (\<lambda>taken.
      if taken then throw (U_Conflict DUPLICATE_EMAIL_MESSAGE) else
      bind_io (create_business_tx U payload email) (\<lambda>(business_id, sandbox_env_id, prod_env_id, admin_user_id).
      bind_io (users_uuid U) (\<lambda>j.
      let jwt_id = up_uuid_str U j in
      bind_io (users_now U) (\<lambda>now.
      bind_io (lift_result (encode_access_token U
        (access_claims U admin_user_id sandbox_env_id business_id jwt_id now))) (\<lambda>access_token.
      bind_io (users_random U) (\<lambda>refresh_bytes.
      let refresh_token = up_base64 U refresh_bytes in
      bind_io (users_uuid U) (\<lambda>refresh_id.
      bind_io (or_internal (users_query U
        (\<lambda>t. insert_session (new_session refresh_id admin_user_id sandbox_env_id refresh_token jwt_id now)))) (\<lambda>_.
      ret \<lparr>rr_business_id = business_id, rr_admin_user_id = admin_user_id,
           rr_environments = [\<lparr>ei_id = sandbox_env_id, ei_type = u ''sandbox''\<rparr>,
                              \<lparr>ei_id = prod_env_id, ei_type = u ''production''\<rparr>],
           rr_access_token = access_token, rr_refresh_token = refresh_token, rr_expires_in = 900,
           rr_selected_environment_id = sandbox_env_id\<rparr>)))))))))"

definition register_business ::
  "users_params \<Rightarrow> headers \<Rightarrow> str \<Rightarrow> register_business_request \<Rightarrow> register_business_response users" where
  "register_business U hs peer payload =
     audited U hs peer (u ''/api/v1/business/register'') (u ''users.business.register'')
       (\<lambda>j. \<lparr>as_org = rr_business_id j, as_actor = Actor_User, as_actor_id = up_uuid_str U (rr_admin_user_id j),
             as_roles = [u ''admin''], as_target_type = u ''business'', as_target_id = rr_business_id j\<rparr>)
       (anonymous_subject ''business'') [] (register_business_inner U payload)"

section \<open>Users created by API key\<close>

definition SDK_USER_MIN_PASSWORD_LEN :: nat where
  "SDK_USER_MIN_PASSWORD_LEN = 8"

definition validate_sdk_user_payload :: "str \<Rightarrow> str \<Rightarrow> str \<Rightarrow> str \<Rightarrow> users_error + str \<times> str \<times> str" where
  "validate_sdk_user_payload email first_name last_name password =
     (let email = normalize_email email; first_name = trim first_name; last_name = trim last_name in
      if email = [] then Inl (U_Bad_Request (u ''Email is required.''))
      else if first_name = [] then Inl (U_Bad_Request (u ''First name is required.''))
      else if last_name = [] then Inl (U_Bad_Request (u ''Last name is required.''))
      else if byte_len password < SDK_USER_MIN_PASSWORD_LEN
      then Inl (U_Bad_Request (u ''Password must be at least 8 characters.''))
      else Inr (email, first_name, last_name))"

record create_sdk_user_request =
  su_email :: str
  su_first_name :: str
  su_last_name :: str
  su_password :: str

definition new_sdk_user ::
  "uuid \<Rightarrow> api_key_only_context \<Rightarrow> str \<Rightarrow> str \<Rightarrow> str \<Rightarrow> str \<Rightarrow> time \<Rightarrow> user_row" where
  "new_sdk_user i ctx email first_name last_name password_hash now =
     \<lparr>usr_id = i, usr_business_id = ako_business_id ctx, usr_environment_id = ako_environment_id ctx,
      usr_first_name = first_name, usr_last_name = last_name, usr_email = email,
      usr_password_hash = password_hash, usr_role = u ''user'', usr_status = u ''active'',
      usr_created_at = now, usr_updated_at = now, usr_created_by_user_id = None,
      usr_created_by_api_key_id = Some (ako_api_key_id ctx)\<rparr>"

text \<open>The result is the status and the id of the user.\<close>

definition create_sdk_user_inner ::
  "users_params \<Rightarrow> api_key_only_context \<Rightarrow> create_sdk_user_request \<Rightarrow> (str \<times> uuid) users" where
  "create_sdk_user_inner U ctx payload =
     bind_io (lift_result (validate_sdk_user_payload (su_email payload) (su_first_name payload)
       (su_last_name payload) (su_password payload))) (\<lambda>(email, first_name, last_name).
     bind_io (or_internal (users_query U (email_exists email))) (\<lambda>taken.
     if taken then throw (U_Conflict DUPLICATE_EMAIL_MESSAGE) else
     bind_io (users_uuid U) (\<lambda>user_id.
     bind_io users_tick (\<lambda>salt.
     bind_io (lift_result (ok_or (up_hash_password U salt (su_password payload)) U_Internal)) (\<lambda>password_hash.
     bind_io (map_err_io email_conflict (users_query U (\<lambda>t. insert_user
       (new_sdk_user user_id ctx email first_name last_name password_hash (up_clock U t))))) (\<lambda>_.
     ret (u ''active'', user_id)))))))"

definition create_sdk_user ::
  "users_params \<Rightarrow> headers \<Rightarrow> str \<Rightarrow> api_key_only_context \<Rightarrow> create_sdk_user_request \<Rightarrow> (str \<times> uuid) users" where
  "create_sdk_user U hs peer ctx payload =
     (let subject = (anonymous_subject ''user'')\<lparr>as_org := ako_business_id ctx\<rparr> in
      audited U hs peer (u ''/api/v1/users'') (u ''users.sdk.user.create'')
        (\<lambda>(status, i). subject\<lparr>as_target_id := i\<rparr>) subject
        [(u ''api_key_id'', up_uuid_str U (ako_api_key_id ctx))] (create_sdk_user_inner U ctx payload))"

section \<open>The caller\<close>

record me_user =
  mu_id :: uuid
  mu_business_id :: uuid
  mu_environment_id :: uuid
  mu_first_name :: str
  mu_last_name :: str
  mu_email :: str
  mu_role :: str
  mu_status :: str

record me_business =
  mb_id :: uuid
  mb_organization_id :: uuid
  mb_name :: str
  mb_website :: "str option"
  mb_status :: str

record me_environment =
  mn_id :: uuid
  mn_business_id :: uuid
  mn_type :: str
  mn_status :: str

record me_response =
  me_user :: me_user
  me_business :: me_business
  me_environment :: me_environment

definition me_user_from :: "user_row \<Rightarrow> me_user" where
  "me_user_from r =
     \<lparr>mu_id = usr_id r, mu_business_id = usr_business_id r, mu_environment_id = usr_environment_id r,
      mu_first_name = usr_first_name r, mu_last_name = usr_last_name r, mu_email = usr_email r,
      mu_role = usr_role r, mu_status = usr_status r\<rparr>"

definition me_business_from :: "business_row \<Rightarrow> me_business" where
  "me_business_from b =
     \<lparr>mb_id = biz_id b, mb_organization_id = biz_id b, mb_name = biz_name b, mb_website = biz_website b,
      mb_status = biz_status b\<rparr>"

definition me_environment_from :: "environment_row \<Rightarrow> me_environment" where
  "me_environment_from e =
     \<lparr>mn_id = env_id e, mn_business_id = env_business_id e, mn_type = env_type e, mn_status = env_status e\<rparr>"

definition me :: "users_params \<Rightarrow> auth_context \<Rightarrow> me_response users" where
  "me U ctx =
     bind_io (lift_result (ok_or (ctx_user_id ctx) U_Forbidden)) (\<lambda>user_id.
     bind_io (or_internal (users_query U (select_first (active_user_in user_id (ctx_environment_id ctx))))) (\<lambda>found.
     bind_io
       (case found of
          Some row \<Rightarrow> ret (Some row)
        | None \<Rightarrow>
            bind_io (or_internal (users_query U (select_first (\<lambda>d.
              filter (\<lambda>r. usr_id r = user_id \<and> usr_business_id r = ctx_business_id ctx \<and> usr_status r = u ''active'')
                (t_users d))))) (\<lambda>any_user_row.
            if any_user_row = None then ret None else
            bind_io (or_internal (users_query U (select_first
              (environment_in_business (ctx_environment_id ctx) (ctx_business_id ctx))))) (\<lambda>env_check.
            if env_check = None then throw U_Forbidden else ret any_user_row))) (\<lambda>user_row.
     bind_io (lift_result (ok_or user_row U_Forbidden)) (\<lambda>user.
     bind_io (or_internal (users_query U (select_first (\<lambda>d.
       filter (\<lambda>e. env_id e = ctx_environment_id ctx \<and> env_status e = u ''active'') (t_environments d))))) (\<lambda>env_row.
     bind_io (lift_result (ok_or env_row (U_Bad_Request (u ''Invalid environment_id'')))) (\<lambda>environment.
     bind_io (or_internal (users_query U (select_first (\<lambda>d.
       filter (\<lambda>b. biz_id b = usr_business_id user \<and> biz_status b = u ''active'') (t_businesses d))))) (\<lambda>business_row.
     bind_io (lift_result (ok_or business_row (U_Bad_Request (u ''Invalid business_id'')))) (\<lambda>business.
     ret \<lparr>me_user = me_user_from user, me_business = me_business_from business,
          me_environment = me_environment_from environment\<rparr>))))))))"

section \<open>Beta applications\<close>

record beta_application =
  ba_name :: str
  ba_email :: str
  ba_company :: str
  ba_use_case :: str

definition normalize_payload :: "beta_application \<Rightarrow> users_error + beta_application" where
  "normalize_payload payload =
     (let name = trim (ba_name payload); email = trim (ba_email payload);
          company = trim (ba_company payload); use_case = trim (ba_use_case payload) in
      if name = [] \<or> email = [] \<or> company = [] \<or> use_case = []
      then Inl (U_Bad_Request (u ''All fields are required.''))
      else Inr \<lparr>ba_name = name, ba_email = email, ba_company = company, ba_use_case = use_case\<rparr>)"

definition beta_conflict :: "sql_error \<Rightarrow> users_error" where
  "beta_conflict e =
     (case e of
        Database_Error m \<Rightarrow>
          if str_contains (u ''duplicate key'') m \<or> str_contains (u ''idx_beta_applications_email_normalized'') m
            \<or> str_contains (u ''unique constraint'') m
          then U_Conflict DUPLICATE_BETA_EMAIL_MESSAGE else U_Internal
      | Other_Error _ \<Rightarrow> U_Internal)"

definition beta_email_exists :: "str \<Rightarrow> bool users_stmt" where
  "beta_email_exists email = select_all (\<lambda>d. list_ex (\<lambda>r. beta_email_key r = email) (t_beta d))"

definition apply_for_beta_inner :: "users_params \<Rightarrow> beta_application \<Rightarrow> (str \<times> uuid) users" where
  "apply_for_beta_inner U payload =
     bind_io (lift_result (normalize_payload payload)) (\<lambda>input.
     let email_normalized = normalize_email (ba_email input) in
     if email_normalized = [] then throw (U_Bad_Request (u ''Email is required.'')) else
     bind_io (or_internal (users_query U (beta_email_exists email_normalized))) (\<lambda>taken.
     if taken then throw (U_Conflict DUPLICATE_BETA_EMAIL_MESSAGE) else
     bind_io (users_uuid U) (\<lambda>application_id.
     bind_io (map_err_io beta_conflict (users_query U (\<lambda>t. insert_beta
       \<lparr>beta_id = application_id, beta_name = ba_name input, beta_email = email_normalized,
        beta_company = ba_company input, beta_use_case = ba_use_case input, beta_created_at = up_clock U t\<rparr>))) (\<lambda>_.
     bind_io (send_email U (Beta_Application_Email (ba_name input) email_normalized (ba_company input)
       (ba_use_case input))) (\<lambda>_.
     ret (u ''Application received. We'' @ [39] @ u ''ll be in touch shortly.'', application_id))))))"

definition apply_for_beta :: "users_params \<Rightarrow> headers \<Rightarrow> str \<Rightarrow> beta_application \<Rightarrow> str users" where
  "apply_for_beta U hs peer payload =
     bind_io (audited U hs peer (u ''/api/v1/beta/apply'') (u ''users.beta.apply'')
       (\<lambda>(body, i). (anonymous_subject ''beta_application'')\<lparr>as_target_id := i\<rparr>)
       (anonymous_subject ''beta_application'') [] (apply_for_beta_inner U payload)) (\<lambda>(body, i). ret body)"

end
