(* ===== verification/Users_Table.thy ===== *)
theory Users_Table
  imports Users_Keys Users_Register
begin

text \<open>
  The tables of the users service over time: what the schema and the service guarantee of them
  (\<open>users_ok\<close>), the changes the operations make (\<open>users_step\<close>), and what no change undoes
  (\<open>users_evolves\<close>): rows stay, and a credential that was revoked or used never works again.
\<close>

section \<open>Growing tables\<close>

definition extends :: "('r \<Rightarrow> 'r \<Rightarrow> bool) \<Rightarrow> 'r list \<Rightarrow> 'r list \<Rightarrow> bool" where
  "extends R rows rows' \<longleftrightarrow> length rows \<le> length rows' \<and> list_all2 R rows (take (length rows) rows')"

lemma extends_refl: "(\<And>r. R r r) \<Longrightarrow> extends R rows rows"
  by (simp add: extends_def list.rel_refl)

lemma extends_trans:
  assumes trans: "\<And>a b c. R a b \<Longrightarrow> R b c \<Longrightarrow> R a c" and ab: "extends R a b" and bc: "extends R b c"
  shows "extends R a c"
proof -
  have len: "length a \<le> length b" "length b \<le> length c" using ab bc by (auto simp: extends_def)
  have "R (a ! i) (c ! i)" if "i < length a" for i
    using that len ab bc trans [of "a ! i" "b ! i" "c ! i"] by (auto simp: extends_def list_all2_conv_all_nth)
  then show ?thesis using len by (auto simp: extends_def list_all2_conv_all_nth)
qed

lemma extends_append: "(\<And>r. R r r) \<Longrightarrow> extends R rows (rows @ new)"
  by (simp add: extends_def list.rel_refl)

lemma extends_update:
  assumes "\<And>r. R r r" "\<And>r. r \<in> set rows \<Longrightarrow> p r \<Longrightarrow> R r (f r)"
  shows "extends R rows (map (\<lambda>r. if p r then f r else r) rows)"
  using assms by (auto simp: extends_def list_all2_conv_all_nth)

lemma extends_row:
  assumes "extends R rows rows'" "r \<in> set rows"
  shows "\<exists>r' \<in> set rows'. R r r'"
proof -
  obtain i where i: "i < length rows" "r = rows ! i" using assms(2) by (metis in_set_conv_nth)
  then have "R r (rows' ! i)" "i < length rows'" using assms(1) by (auto simp: extends_def list_all2_conv_all_nth)
  then show ?thesis by auto
qed

section \<open>What is true of the tables\<close>

text \<open>Keys of the schema, and that an administrator belongs to a sandbox environment of its own
  business: no operation makes another.\<close>

definition admin_in_sandbox :: "users_db \<Rightarrow> user_row \<Rightarrow> bool" where
  "admin_in_sandbox d r \<longleftrightarrow>
     usr_role r = u ''admin'' \<longrightarrow>
     (\<exists>e \<in> set (t_environments d). env_id e = usr_environment_id r \<and> env_type e = u ''sandbox'')"

definition keys_unique :: "users_db \<Rightarrow> bool" where
  "keys_unique d \<longleftrightarrow>
     distinct (map biz_id (t_businesses d)) \<and> distinct (map env_id (t_environments d)) \<and>
     distinct (map usr_id (t_users d)) \<and> distinct (map usr_email (t_users d)) \<and>
     distinct (map ses_id (t_sessions d)) \<and>
     distinct (map key_id (t_api_keys d)) \<and> distinct (map key_hash (t_api_keys d)) \<and>
     distinct (map prt_id (t_reset_tokens d)) \<and>
     distinct (map beta_id (t_beta d)) \<and> distinct (map beta_email_key (t_beta d))"

text \<open>The foreign keys: a column whose every value is the key of a row, and one that may be null.\<close>

definition refers :: "('r \<Rightarrow> uuid) \<Rightarrow> 'r list \<Rightarrow> ('t \<Rightarrow> uuid) \<Rightarrow> 't list \<Rightarrow> bool" where
  "refers col rows key targets \<longleftrightarrow> set (map col rows) \<subseteq> set (map key targets)"

definition may_refer :: "('r \<Rightarrow> uuid option) \<Rightarrow> 'r list \<Rightarrow> ('t \<Rightarrow> uuid) \<Rightarrow> 't list \<Rightarrow> bool" where
  "may_refer col rows key targets \<longleftrightarrow> (\<forall>r \<in> set rows. set_option (col r) \<subseteq> set (map key targets))"

definition references_ok :: "users_db \<Rightarrow> bool" where
  "references_ok d \<longleftrightarrow>
     refers env_business_id (t_environments d) biz_id (t_businesses d) \<and>
     refers usr_business_id (t_users d) biz_id (t_businesses d) \<and>
     refers usr_environment_id (t_users d) env_id (t_environments d) \<and>
     may_refer usr_created_by_user_id (t_users d) usr_id (t_users d) \<and>
     may_refer usr_created_by_api_key_id (t_users d) key_id (t_api_keys d) \<and>
     refers ses_user_id (t_sessions d) usr_id (t_users d) \<and>
     refers ses_environment_id (t_sessions d) env_id (t_environments d) \<and>
     may_refer key_environment_id (t_api_keys d) env_id (t_environments d) \<and>
     may_refer key_created_by_user_id (t_api_keys d) usr_id (t_users d) \<and>
     refers prt_user_id (t_reset_tokens d) usr_id (t_users d)"

definition users_ok :: "users_db \<Rightarrow> bool" where
  "users_ok d \<longleftrightarrow> keys_unique d \<and> references_ok d \<and> (\<forall>r \<in> set (t_users d). admin_in_sandbox d r)"

section \<open>Steps\<close>

definition create_business_rows :: "business_row \<Rightarrow> environment_row \<Rightarrow> environment_row \<Rightarrow> user_row \<Rightarrow> users_db \<Rightarrow> users_db" where
  "create_business_rows b s p a d =
     d\<lparr>t_businesses := t_businesses d @ [b], t_environments := t_environments d @ [s, p],
       t_users := t_users d @ [a]\<rparr>"

inductive users_step :: "users_db \<Rightarrow> users_db \<Rightarrow> bool" where
  register: "\<lbrakk>biz_id b \<notin> biz_id ` set (t_businesses d); env_id s \<noteq> env_id p;
     {env_id s, env_id p} \<inter> env_id ` set (t_environments d) = {};
     usr_id a \<notin> usr_id ` set (t_users d); usr_email a \<notin> usr_email ` set (t_users d);
     env_business_id s = biz_id b; env_business_id p = biz_id b; env_type s = u ''sandbox'';
     usr_business_id a = biz_id b; usr_environment_id a = env_id s;
     usr_created_by_user_id a = None; usr_created_by_api_key_id a = None\<rbrakk> \<Longrightarrow>
     users_step d (create_business_rows b s p a d)"
| user: "usr_role r \<noteq> u ''admin'' \<Longrightarrow> users_step d (snd (insert_user r d))"
| password: "users_step d (set_password i h now d)"
| session: "users_step d (snd (insert_session r d))"
| end_sessions: "users_step d (revoke_sessions q now d)"
| key: "users_step d (snd (insert_api_key k d))"
| touch_key: "users_step d (touch_api_key i now d)"
| end_key: "users_step d (snd (revoke_api_key_stmt i b now t d))"
| token: "users_step d (snd (insert_reset_token r d))"
| use_tokens: "(\<And>r. q r \<Longrightarrow> prt_used_at r = None) \<Longrightarrow> users_step d (use_reset_tokens q now d)"
| beta: "users_step d (snd (insert_beta r d))"

lemma distinct_snoc: "distinct (map f xs) \<Longrightarrow> f x \<notin> f ` set xs \<Longrightarrow> distinct (map f (xs @ [x]))"
  by simp

text \<open>The updates keep every key column and every column that refers.\<close>

lemmas table_updates = set_password_def revoke_sessions_def touch_api_key_def revoke_api_key_stmt_def
  use_reset_tokens_def Let_def

lemmas table_inserts = create_business_rows_def insert_user_def insert_session_def insert_api_key_def
  insert_reset_token_def insert_beta_def

lemma refers_grows:
  "refers col rows key targets \<Longrightarrow> refers col rows key (targets @ more_targets)"
  "may_refer col' rows key targets \<Longrightarrow> may_refer col' rows key (targets @ more_targets)"
  by (auto simp: refers_def may_refer_def)

lemma refers_append [simp]:
  "refers col (rows @ new) key targets \<longleftrightarrow> refers col rows key targets \<and> refers col new key targets"
  "may_refer col' (rows @ new) key targets \<longleftrightarrow> may_refer col' rows key targets \<and> may_refer col' new key targets"
  by (auto simp: refers_def may_refer_def)

lemma refers_Cons [simp]:
  "refers col (r # rows) key targets \<longleftrightarrow> col r \<in> key ` set targets \<and> refers col rows key targets"
  "may_refer col' (r # rows) key targets \<longleftrightarrow> set_option (col' r) \<subseteq> key ` set targets \<and> may_refer col' rows key targets"
  "refers col [] key targets" "may_refer col' [] key targets"
  by (auto simp: refers_def may_refer_def)

lemma refers_update [simp]:
  "(\<And>r. col (g r) = col r) \<Longrightarrow>
     refers col (map (\<lambda>r. if q r then g r else r) rows) key targets = refers col rows key targets"
  "(\<And>r. col' (g r) = col' r) \<Longrightarrow>
     may_refer col' (map (\<lambda>r. if q r then g r else r) rows) key targets = may_refer col' rows key targets"
  by (auto simp: refers_def may_refer_def simp del: if_image_distrib split: if_splits)

lemma targets_update [simp]:
  assumes "\<And>x. key (h x) = key x"
  shows "refers col rows key (map (\<lambda>x. if q x then h x else x) targets) = refers col rows key targets"
    "may_refer col' rows key (map (\<lambda>x. if q x then h x else x) targets) = may_refer col' rows key targets"
proof -
  have "map key (map (\<lambda>x. if q x then h x else x) targets) = map key targets"
    by (rule map_update_key) (rule assms)
  then show "refers col rows key (map (\<lambda>x. if q x then h x else x) targets) = refers col rows key targets"
    "may_refer col' rows key (map (\<lambda>x. if q x then h x else x) targets) = may_refer col' rows key targets"
    unfolding refers_def may_refer_def by simp_all
qed

lemma users_step_references: "users_step d d' \<Longrightarrow> references_ok d \<Longrightarrow> references_ok d'"
  by (induction rule: users_step.induct)
    (auto simp: references_ok_def table_updates table_inserts refers_grows split: option.splits)

lemma users_step_unique: "users_step d d' \<Longrightarrow> keys_unique d \<Longrightarrow> keys_unique d'"
  by (induction rule: users_step.induct)
    (auto simp: keys_unique_def table_updates table_inserts map_update_key simp del: map_map)

lemma users_step_admins:
  "users_step d d' \<Longrightarrow> \<forall>r \<in> set (t_users d). admin_in_sandbox d r \<Longrightarrow> \<forall>r \<in> set (t_users d'). admin_in_sandbox d' r"
  by (induction rule: users_step.induct)
    (auto simp: admin_in_sandbox_def table_updates table_inserts)

lemma users_step_ok: "users_step d d' \<Longrightarrow> users_ok d \<Longrightarrow> users_ok d'"
  unfolding users_ok_def using users_step_references users_step_unique users_step_admins by blast

section \<open>What no step undoes\<close>

definition key_usable :: "api_key_row \<Rightarrow> bool" where
  "key_usable k \<longleftrightarrow> key_status k = u ''active'' \<and> key_revoked_at k = None"

definition user_evolves :: "user_row \<Rightarrow> user_row \<Rightarrow> bool" where
  "user_evolves r r' \<longleftrightarrow>
     r'\<lparr>usr_password_hash := [], usr_updated_at := 0\<rparr> = r\<lparr>usr_password_hash := [], usr_updated_at := 0\<rparr>"

definition session_evolves :: "session_row \<Rightarrow> session_row \<Rightarrow> bool" where
  "session_evolves s s' \<longleftrightarrow>
     s'\<lparr>ses_status := [], ses_revoked_at := None\<rparr> = s\<lparr>ses_status := [], ses_revoked_at := None\<rparr> \<and>
     (ses_status s' = u ''active'' \<longrightarrow> ses_status s = u ''active'')"

definition key_evolves :: "api_key_row \<Rightarrow> api_key_row \<Rightarrow> bool" where
  "key_evolves k k' \<longleftrightarrow>
     k'\<lparr>key_status := [], key_last_used_at := None, key_revoked_at := None\<rparr> =
       k\<lparr>key_status := [], key_last_used_at := None, key_revoked_at := None\<rparr> \<and>
     (key_usable k' \<longrightarrow> key_usable k)"

definition token_evolves :: "reset_token_row \<Rightarrow> reset_token_row \<Rightarrow> bool" where
  "token_evolves r r' \<longleftrightarrow>
     r'\<lparr>prt_used_at := None\<rparr> = r\<lparr>prt_used_at := None\<rparr> \<and> (prt_used_at r \<noteq> None \<longrightarrow> r' = r)"

definition users_evolves :: "users_db \<Rightarrow> users_db \<Rightarrow> bool" where
  "users_evolves d d' \<longleftrightarrow>
     extends (=) (t_businesses d) (t_businesses d') \<and> extends (=) (t_environments d) (t_environments d') \<and>
     extends user_evolves (t_users d) (t_users d') \<and> extends session_evolves (t_sessions d) (t_sessions d') \<and>
     extends key_evolves (t_api_keys d) (t_api_keys d') \<and>
     extends token_evolves (t_reset_tokens d) (t_reset_tokens d') \<and> extends (=) (t_beta d) (t_beta d')"

lemma row_evolves_refl [simp]:
  "user_evolves r r" "session_evolves s s" "key_evolves k k" "token_evolves t t"
  by (simp_all add: user_evolves_def session_evolves_def key_evolves_def token_evolves_def)

lemma row_evolves_trans:
  "user_evolves a b \<Longrightarrow> user_evolves b c \<Longrightarrow> user_evolves a c"
  "session_evolves s s' \<Longrightarrow> session_evolves s' s'' \<Longrightarrow> session_evolves s s''"
  "key_evolves k k' \<Longrightarrow> key_evolves k' k'' \<Longrightarrow> key_evolves k k''"
  "token_evolves t t' \<Longrightarrow> token_evolves t' t'' \<Longrightarrow> token_evolves t t''"
  by (auto simp: user_evolves_def session_evolves_def key_evolves_def token_evolves_def)

lemma users_evolves_refl [simp]: "users_evolves d d"
  by (simp add: users_evolves_def extends_refl)

lemma users_evolves_trans: "users_evolves a b \<Longrightarrow> users_evolves b c \<Longrightarrow> users_evolves a c"
  unfolding users_evolves_def
  by (blast intro: extends_trans [of "(=)"] extends_trans [of user_evolves] extends_trans [of session_evolves]
      extends_trans [of key_evolves] extends_trans [of token_evolves] row_evolves_trans trans)

lemma users_step_evolves: "users_step d d' \<Longrightarrow> users_evolves d d'"
proof (induction rule: users_step.induct)
  case (register b d s p a)
  then show ?case by (simp add: users_evolves_def create_business_rows_def extends_refl extends_append)
next
  case (password d i h now)
  then show ?case
    by (auto simp: users_evolves_def set_password_def extends_refl user_evolves_def intro!: extends_update)
next
  case (end_sessions d q now)
  then show ?case
    by (auto simp: users_evolves_def revoke_sessions_def extends_refl session_evolves_def intro!: extends_update)
next
  case (touch_key d i now)
  then show ?case
    by (auto simp: users_evolves_def touch_api_key_def extends_refl key_evolves_def key_usable_def intro!: extends_update)
next
  case (end_key d i b now t)
  then show ?case
    by (auto simp: users_evolves_def revoke_api_key_stmt_def Let_def extends_refl key_evolves_def key_usable_def
        intro!: extends_update)
next
  case (use_tokens q d now)
  then show ?case
    by (auto simp: users_evolves_def use_reset_tokens_def extends_refl token_evolves_def intro!: extends_update)
qed (simp_all add: users_evolves_def insert_user_def insert_session_def insert_api_key_def insert_reset_token_def
      insert_beta_def extends_refl extends_append)

definition users_safe :: "users_db \<Rightarrow> users_db \<Rightarrow> bool" where
  "users_safe d d' \<longleftrightarrow> users_evolves d d' \<and> (users_ok d \<longrightarrow> users_ok d')"

lemma users_steps_safe: "users_step\<^sup>*\<^sup>* d d' \<Longrightarrow> users_safe d d'"
  by (induction rule: rtranclp_induct)
    (auto simp: users_safe_def intro: users_evolves_trans users_step_evolves users_step_ok)

end
