(* ===== verification/Users_Runs.thy ===== *)
theory Users_Runs
  imports Users_Table
begin

text \<open>
  Every operation of the users service, whatever fails and whatever other instances of the service do
  meanwhile, changes its tables by steps of \<open>users_step\<close> only. The registration of a business is
  one step: its transaction is all or nothing.
\<close>

definition users_lawful :: "users_params \<Rightarrow> bool" where
  "users_lawful U \<longleftrightarrow> (\<forall>t d. users_step\<^sup>*\<^sup>* d (up_other U t d))"

definition users_runs :: "users_world \<Rightarrow> users_world \<Rightarrow> bool" where
  "users_runs w w' \<longleftrightarrow> users_step\<^sup>*\<^sup>* (uw_db w) (uw_db w')"

interpretation users: run_preorder users_runs
  by unfold_locales (auto simp: users_runs_def)

lemma users_lawful_undisturbed: "users_undisturbed U \<Longrightarrow> users_lawful U"
  by (simp add: users_undisturbed_def users_lawful_def)

lemma users_interleave_runs: "users_lawful U \<Longrightarrow> keeps users_runs (users_interleave U)"
  by (auto intro!: keepsI simp: users_interleave_def users_runs_def users_lawful_def)

lemma users_run_runs:
  "(\<And>t d. users_step\<^sup>*\<^sup>* d (snd (q t d))) \<Longrightarrow> keeps users_runs (users_run U q)"
  by (auto intro!: keepsI simp: users_run_def users_runs_def Let_def split: db_fault.split)

lemma users_query_runs:
  "users_lawful U \<Longrightarrow> (\<And>t d. users_step\<^sup>*\<^sup>* d (snd (q t d))) \<Longrightarrow> keeps users_runs (users_query U q)"
  unfolding users_query_def by (intro users.keeps_bind users_interleave_runs users_run_runs)

lemma or_internal_runs: "keeps users_runs m \<Longrightarrow> keeps users_runs (or_internal m)"
  "keeps users_runs m \<Longrightarrow> keeps users_runs (or_grpc_internal m)"
  unfolding or_internal_def or_grpc_internal_def by (intro users.keeps_map_err, assumption)+

lemma users_reads_run:
  "keeps users_runs users_tick" "keeps users_runs (users_now U)" "keeps users_runs (users_uuid U)"
  "keeps users_runs (users_random U)" "keeps users_runs (users_try_random U)"
  "keeps users_runs (send_email U m)" "keeps users_runs (generate_reset_token U)"
  by (auto intro!: keepsI simp: users_runs_def io_simps send_email_def generate_reset_token_def)

lemma select_runs: "users_step\<^sup>*\<^sup>* d (snd (select_first f t d))" "users_step\<^sup>*\<^sup>* d (snd (select_all g t d))"
  "users_step\<^sup>*\<^sup>* d (snd (email_exists email t d))" "users_step\<^sup>*\<^sup>* d (snd (beta_email_exists email t d))"
  "users_step\<^sup>*\<^sup>* d (snd (business_of i t d))"
  by (simp_all add: email_exists_def beta_email_exists_def business_of_def split: list.split)

text \<open>A transaction is judged by its successful runs only.\<close>

lemma users_transaction_runs:
  assumes "users_lawful U" "\<And>w a w'. body w = (Inr a, w') \<Longrightarrow> users_runs w w'"
  shows "keeps users_runs (users_transaction U body)"
  unfolding users_transaction_def
proof (intro users.keeps_bind users_interleave_runs [OF assms(1)] keepsI)
  fix w0 :: users_world
  define begun where "begun = bind_io (map_err_io (\<lambda>_. U_Internal) (users_run U (\<lambda>t d. (Inr (), d)))) (\<lambda>_. body)"
  obtain r w where run: "begun w0 = (r, w)" by (cases "begun w0") auto
  show "users_runs w0 (snd (case begun w0 of
      (Inl e, w) \<Rightarrow> (Inl e, w\<lparr>uw_db := uw_db w0\<rparr>)
    | (Inr a, w) \<Rightarrow>
        (case up_fault U (uw_tick w) of
           No_Fault \<Rightarrow> (Inr a, w\<lparr>uw_tick := Suc (uw_tick w)\<rparr>)
         | Fault_Before e \<Rightarrow> (Inl U_Internal, w\<lparr>uw_db := uw_db w0, uw_tick := Suc (uw_tick w)\<rparr>)
         | Fault_After e \<Rightarrow> (Inl U_Internal, w\<lparr>uw_tick := Suc (uw_tick w)\<rparr>))))"
  proof (cases r)
    case (Inl e)
    then show ?thesis using run by (simp add: users_runs_def)
  next
    case (Inr a)
    then have "body (w0\<lparr>uw_tick := Suc (uw_tick w0)\<rparr>) = (Inr a, w)"
      using run by (simp add: begun_def io_simps users_run_def Let_def split: db_fault.splits)
    from assms(2) [OF this] have "users_runs w0 w" by (simp add: users_runs_def)
    then show ?thesis using run Inr by (simp add: users_runs_def split: db_fault.split)
  qed
qed

lemma users_transaction_keeps:
  assumes "users_lawful U" "keeps users_runs body"
  shows "keeps users_runs (users_transaction U body)"
proof (rule users_transaction_runs [OF assms(1)])
  fix w a w'
  assume "body w = (Inr a, w')"
  then show "users_runs w w'" using keepsD [OF assms(2), of w] by simp
qed

section \<open>Successful runs\<close>

lemma bind_io_Inr: "bind_io m f w = (Inr b, w2) \<longleftrightarrow> (\<exists>a w1. m w = (Inr a, w1) \<and> f a w1 = (Inr b, w2))"
  by (auto simp: io_simps split: prod.splits sum.splits)

lemma map_err_io_Inr: "map_err_io g m w = (Inr a, w') \<longleftrightarrow> m w = (Inr a, w')"
  by (auto simp: io_simps split: prod.splits sum.splits)

lemma or_internal_Inr: "or_internal m w = (Inr a, w') \<longleftrightarrow> m w = (Inr a, w')"
  by (simp add: or_internal_def map_err_io_Inr)

lemma users_run_Inr:
  "users_run U q w = (Inr a, w') \<longleftrightarrow>
     up_fault U (uw_tick w) = No_Fault \<and> fst (q (uw_tick w) (uw_db w)) = Inr a \<and>
     w' = w\<lparr>uw_db := snd (q (uw_tick w) (uw_db w)), uw_tick := Suc (uw_tick w)\<rparr>"
  by (auto simp: users_run_def Let_def split: db_fault.splits)

lemma insert_Inr:
  "fst (insert_business b d) = Inr x \<longleftrightarrow> biz_id b \<notin> biz_id ` set (t_businesses d)"
  "fst (insert_environment e d) = Inr x \<longleftrightarrow>
     env_id e \<notin> env_id ` set (t_environments d) \<and> env_business_id e \<in> biz_id ` set (t_businesses d)"
  "fst (insert_session s d) = Inr x \<longleftrightarrow>
     ses_id s \<notin> ses_id ` set (t_sessions d) \<and> ses_user_id s \<in> usr_id ` set (t_users d) \<and>
     ses_environment_id s \<in> env_id ` set (t_environments d)"
  by (auto simp: insert_business_def insert_environment_def insert_session_def)

lemma insert_user_Inr:
  "fst (insert_user r d) = Inr x \<Longrightarrow>
     usr_id r \<notin> usr_id ` set (t_users d) \<and> usr_email r \<notin> usr_email ` set (t_users d) \<and>
     snd (insert_user r d) = d\<lparr>t_users := t_users d @ [r]\<rparr>"
  by (auto simp: insert_user_def split: if_splits)

lemma insert_effect:
  "biz_id b \<notin> biz_id ` set (t_businesses d) \<Longrightarrow> snd (insert_business b d) = d\<lparr>t_businesses := t_businesses d @ [b]\<rparr>"
  "env_id e \<notin> env_id ` set (t_environments d) \<Longrightarrow> env_business_id e \<in> biz_id ` set (t_businesses d) \<Longrightarrow>
   snd (insert_environment e d) = d\<lparr>t_environments := t_environments d @ [e]\<rparr>"
  by (auto simp: insert_business_def insert_environment_def)

lemma create_business_body_Inr:
  assumes "create_business_body U payload email w = (Inr (b, s, p, a), w')"
  obtains now h where
    "uw_db w' = create_business_rows (new_business b payload now) (new_environment s b ''sandbox'' now)
       (new_environment p b ''production'' now) (new_admin a b s payload email h now) (uw_db w)"
    "b \<notin> biz_id ` set (t_businesses (uw_db w))" "s \<noteq> p"
    "{s, p} \<inter> env_id ` set (t_environments (uw_db w)) = {}"
    "a \<notin> usr_id ` set (t_users (uw_db w))" "email \<notin> usr_email ` set (t_users (uw_db w))"
    "uw_emails w' = uw_emails w"
proof -
  let ?w = "\<lambda>n d. w\<lparr>uw_db := d, uw_tick := n\<rparr>"
  let ?now = "up_clock U (Suc (uw_tick w))"
  let ?b = "new_business b payload ?now" and ?s = "new_environment s b ''sandbox'' ?now"
    and ?p = "new_environment p b ''production'' ?now"
  let ?d1 = "snd (insert_business ?b (uw_db w))"
  let ?d2 = "snd (insert_environment ?s ?d1)"
  let ?d3 = "snd (insert_environment ?p ?d2)"
  obtain h where steps:
    "fst (insert_business ?b (uw_db w)) = Inr ()" "fst (insert_environment ?s ?d1) = Inr ()"
    "fst (insert_environment ?p ?d2) = Inr ()"
    "fst (insert_user (new_admin a b s payload email h ?now) ?d3) = Inr ()"
    "uw_db w' = snd (insert_user (new_admin a b s payload email h ?now) ?d3)" "uw_emails w' = uw_emails w"
    using assms
    by (auto simp: create_business_body_def bind_io_Inr or_internal_Inr map_err_io_Inr users_run_Inr
        users_reads_apply users_tick_apply lift_result_apply ret_apply ok_or_Inr)
  have b: "b \<notin> biz_id ` set (t_businesses (uw_db w))"
    using steps(1) by (simp add: insert_Inr new_business_def)
  then have d1: "?d1 = (uw_db w)\<lparr>t_businesses := t_businesses (uw_db w) @ [?b]\<rparr>"
    by (simp add: insert_effect new_business_def)
  have s: "s \<notin> env_id ` set (t_environments (uw_db w))"
    using steps(2) by (simp add: insert_Inr d1 new_environment_def)
  then have d2: "?d2 = (uw_db w)\<lparr>t_businesses := t_businesses (uw_db w) @ [?b],
      t_environments := t_environments (uw_db w) @ [?s]\<rparr>"
    unfolding d1 by (simp add: insert_effect new_environment_def new_business_def)
  have p: "p \<notin> env_id ` set (t_environments (uw_db w))" "s \<noteq> p"
    using steps(3) unfolding d2 by (auto simp: insert_Inr new_environment_def)
  then have d3: "?d3 = (uw_db w)\<lparr>t_businesses := t_businesses (uw_db w) @ [?b],
      t_environments := t_environments (uw_db w) @ [?s, ?p]\<rparr>"
    unfolding d2 by (simp add: insert_effect new_environment_def new_business_def)
  show thesis
  proof (rule that)
    show "uw_db w' = create_business_rows ?b ?s ?p (new_admin a b s payload email h ?now) (uw_db w)"
      using insert_user_Inr [OF steps(4)] steps(5) unfolding d3 by (simp add: create_business_rows_def)
    show "a \<notin> usr_id ` set (t_users (uw_db w))" "email \<notin> usr_email ` set (t_users (uw_db w))"
      using insert_user_Inr [OF steps(4)] unfolding d3 by (simp_all add: new_admin_def)
  qed (use b s p steps in auto)
qed

section \<open>The operations\<close>

lemmas users_structure =
  users.keeps_bind users.keeps_try users.keeps_if users.keeps_option users.keeps_sum users.keeps_for_each
  users.keeps_ret users.keeps_throw users.keeps_lift users.keeps_map_err or_internal_runs users_reads_run

lemma audited_runs: "keeps users_runs inner \<Longrightarrow> keeps users_runs (audited U hs peer path action on_ok on_err meta inner)"
  by (auto simp: keeps_def users_runs_def audited_run)

lemma register_runs: "users_lawful U \<Longrightarrow> keeps users_runs (create_business_tx U payload email)"
  unfolding create_business_tx_def
proof (rule users_transaction_runs)
  fix w x w'
  assume "create_business_body U payload email w = (Inr x, w')"
  then obtain b s p a where "create_business_body U payload email w = (Inr (b, s, p, a), w')" by (cases x) auto
  then obtain now h where
    "uw_db w' = create_business_rows (new_business b payload now) (new_environment s b ''sandbox'' now)
       (new_environment p b ''production'' now) (new_admin a b s payload email h now) (uw_db w)"
    "b \<notin> biz_id ` set (t_businesses (uw_db w))" "s \<noteq> p"
    "{s, p} \<inter> env_id ` set (t_environments (uw_db w)) = {}"
    "a \<notin> usr_id ` set (t_users (uw_db w))" "email \<notin> usr_email ` set (t_users (uw_db w))"
    by (rule create_business_body_Inr)
  then show "users_runs w w'"
    unfolding users_runs_def
    by (auto intro!: r_into_rtranclp users_step.register
        simp: new_business_def new_environment_def new_admin_def)
qed

lemma step_runs:
  "users_step\<^sup>*\<^sup>* d (snd (insert_session r d))" "users_step\<^sup>*\<^sup>* d (snd (insert_api_key k d))"
  "users_step\<^sup>*\<^sup>* d (snd (insert_reset_token p d))" "users_step\<^sup>*\<^sup>* d (snd (insert_beta q d))"
  "users_step\<^sup>*\<^sup>* d (snd (insert_user (new_sdk_user i ctx e f l h now) d))"
  "users_step\<^sup>*\<^sup>* d (snd (revoke_api_key_stmt i b now t d))" "users_step\<^sup>*\<^sup>* d (snd (revoke_by_token tok now t d))"
  "users_step\<^sup>*\<^sup>* d (snd (claim_token tok now t d))"
  "users_step\<^sup>*\<^sup>* d (revoke_sessions rs now d)" "users_step\<^sup>*\<^sup>* d (touch_api_key i now d)"
  "users_step\<^sup>*\<^sup>* d (set_password i h now d)" "users_step\<^sup>*\<^sup>* d (use_reset_tokens (unused_of i) now d)"
  "users_step\<^sup>*\<^sup>* d (use_reset_tokens (\<lambda>r. unused_of i r \<and> prt_id r \<noteq> j) now d)"
  by (auto simp: revoke_by_token_def claim_token_def unused_of_def reset_claimable_def Let_def new_sdk_user_def
      intro!: r_into_rtranclp users_step.intros)

lemma auth_runs:
  assumes "users_lawful U"
  shows "keeps users_runs (login U hs peer req)" "keeps users_runs (refresh_token U hs peer tok)"
    "keeps users_runs (revoke_token U hs peer tok)"
    "keeps users_runs (authenticate_api_key U x y k)"
    "keeps users_runs (auth_context U hs)" "keeps users_runs (api_key_only_context U hs)"
proof -
  note query = users_query_runs [OF assms]
  have "keeps users_runs (login_inner U req)"
    unfolding login_inner_def Let_def
    by (auto split: list.split password_check.split prod.split intro!: users_structure query select_runs step_runs)
  then show "keeps users_runs (login U hs peer req)"
    unfolding login_def by (auto split: prod.split intro!: users_structure audited_runs)
  have "keeps users_runs (rotate_session U i s now)" for i s now
    unfolding rotate_session_def
    by (rule users_transaction_keeps [OF assms]) (auto intro!: users_structure users_run_runs step_runs)
  then have "keeps users_runs (refresh_token_inner U tok)"
    unfolding refresh_token_inner_def Let_def
    by (auto intro!: users_structure query select_runs)
  then show "keeps users_runs (refresh_token U hs peer tok)"
    unfolding refresh_token_def by (auto split: prod.split intro!: users_structure audited_runs)
  have "keeps users_runs (revoke_token_inner U tok)"
    unfolding revoke_token_inner_def
    by (auto split: prod.split intro!: users_structure query select_runs step_runs)
  then show "keeps users_runs (revoke_token U hs peer tok)"
    unfolding revoke_token_def by (auto split: prod.split intro!: users_structure audited_runs)
  show key: "keeps users_runs (authenticate_api_key U x y k)" for x y k
    unfolding authenticate_api_key_def by (auto intro!: users_structure query select_runs step_runs)
  then show "keeps users_runs (auth_context U hs)"
    unfolding auth_context_def by (auto split: prod.split intro!: users_structure query select_runs)
  show "keeps users_runs (api_key_only_context U hs)"
    unfolding api_key_only_context_def using key by (auto split: prod.split intro!: users_structure)
qed

lemma key_runs:
  assumes "users_lawful U"
  shows "keeps users_runs (create_api_key U hs peer ctx env)" "keeps users_runs (list_api_keys U ctx)"
    "keeps users_runs (revoke_api_key U hs peer ctx i)"
    "keeps users_runs (grpc_validate_api_key U k e)" "keeps users_runs (grpc_resolve_account_user U k e m f l)"
proof -
  note query = users_query_runs [OF assms]
  have admin: "keeps users_runs (require_admin U ctx)" for ctx
    unfolding require_admin_def by (auto intro!: users_structure query select_runs)
  have "keeps users_runs (create_api_key_inner U ctx env)"
    unfolding create_api_key_inner_def Let_def
    by (auto intro!: users_structure query select_runs step_runs admin)
  then show "keeps users_runs (create_api_key U hs peer ctx env)"
    unfolding create_api_key_def by (auto split: prod.split intro!: users_structure audited_runs)
  show "keeps users_runs (list_api_keys U ctx)"
    unfolding list_api_keys_def by (auto intro!: users_structure query select_runs admin)
  have "keeps users_runs (revoke_api_key_inner U ctx i)"
    unfolding revoke_api_key_inner_def by (auto intro!: users_structure query step_runs admin)
  then show "keeps users_runs (revoke_api_key U hs peer ctx i)"
    unfolding revoke_api_key_def by (auto split: prod.split intro!: users_structure audited_runs)
  have scope: "keeps users_runs (validate_api_key_scope U k e)" for k e
    unfolding validate_api_key_scope_def by (auto intro!: users_structure query select_runs)
  show "keeps users_runs (grpc_validate_api_key U k e)"
    unfolding grpc_validate_api_key_def by (auto split: prod.split intro!: users_structure query select_runs scope)
  show "keeps users_runs (grpc_resolve_account_user U k e m f l)"
    unfolding grpc_resolve_account_user_def
    by (auto split: prod.split intro!: users_structure query select_runs scope)
qed

lemma account_runs:
  assumes "users_lawful U"
  shows "keeps users_runs (request_password_reset U hs peer email)"
    "keeps users_runs (reset_password U hs peer tok pw)"
    "keeps users_runs (register_business U hs peer reg)"
    "keeps users_runs (create_sdk_user U hs peer ako su)" "keeps users_runs (me U ctx)"
    "keeps users_runs (apply_for_beta U hs peer app)"
proof -
  note query = users_query_runs [OF assms]
  have "keeps users_runs (store_reset_token U i j h x)" for i j h x
    unfolding store_reset_token_def
    by (rule users_transaction_keeps [OF assms]) (auto intro!: users_structure users_run_runs step_runs)
  then have "keeps users_runs (request_password_reset_inner U email)"
    unfolding request_password_reset_inner_def Let_def
    by (auto intro!: users_structure query select_runs)
  then show "keeps users_runs (request_password_reset U hs peer email)"
    unfolding request_password_reset_def by (auto split: prod.split intro!: users_structure audited_runs)
  have "keeps users_runs (reset_transaction U h ph)" for h ph
    unfolding reset_transaction_def
    by (rule users_transaction_keeps [OF assms]) (auto split: prod.split intro!: users_structure users_run_runs step_runs select_runs)
  then have "keeps users_runs (reset_password_inner U tok pw)"
    unfolding reset_password_inner_def Let_def by (auto split: prod.split intro!: users_structure)
  then show "keeps users_runs (reset_password U hs peer tok pw)"
    unfolding reset_password_def by (auto split: prod.split intro!: users_structure audited_runs)
  have "keeps users_runs (register_business_inner U reg)"
    unfolding register_business_inner_def Let_def
    by (auto split: prod.split intro!: users_structure query select_runs step_runs register_runs [OF assms])
  then show "keeps users_runs (register_business U hs peer reg)"
    unfolding register_business_def by (rule audited_runs)
  have "keeps users_runs (create_sdk_user_inner U ako su)"
    unfolding create_sdk_user_inner_def
    by (auto split: prod.split intro!: users_structure query select_runs step_runs)
  then show "keeps users_runs (create_sdk_user U hs peer ako su)"
    unfolding create_sdk_user_def Let_def by (rule audited_runs)
  show "keeps users_runs (me U ctx)"
    unfolding me_def by (auto intro!: users_structure query select_runs)
  have "keeps users_runs (apply_for_beta_inner U app)"
    unfolding apply_for_beta_inner_def Let_def
    by (auto intro!: users_structure query select_runs step_runs)
  then show "keeps users_runs (apply_for_beta U hs peer app)"
    unfolding apply_for_beta_def by (auto split: prod.split intro!: users_structure audited_runs)
qed

end
