(* ===== verification/Users_Spec.thy ===== *)
theory Users_Spec
  imports Users_Runs
begin

text \<open>
  Properties of the users service as a whole and of its API keys: what every operation keeps of the
  tables, what a key grants, that a revoked key is dead, and where keys are accepted.
\<close>

section \<open>Successful statements\<close>

text \<open>The tables a statement on the pool meets.\<close>

definition met :: "users_params \<Rightarrow> users_world \<Rightarrow> users_db" where
  "met U w = up_other U (uw_tick w) (uw_db w)"

lemma users_query_Inr:
  "users_query U q w = (Inr a, w') \<longleftrightarrow>
     up_fault U (uw_tick w) = No_Fault \<and> fst (q (uw_tick w) (met U w)) = Inr a \<and>
     w' = w\<lparr>uw_db := snd (q (uw_tick w) (met U w)), uw_tick := Suc (uw_tick w)\<rparr>"
  by (auto simp: users_query_def users_interleave_def io_simps users_run_def Let_def met_def split: db_fault.splits)

lemma met_runs: "users_lawful U \<Longrightarrow> users_step\<^sup>*\<^sup>* (uw_db w) (met U w)"
  by (simp add: met_def users_lawful_def)

lemma fetch_optional_Some: "fetch_optional xs = Some x \<Longrightarrow> x \<in> set xs"
  by (cases xs) (auto simp: fetch_optional_def)

lemma fetch_optional_filter: "fetch_optional (filter p xs) = Some x \<Longrightarrow> x \<in> set xs \<and> p x"
  using fetch_optional_Some [of "filter p xs" x] by auto

lemma or_grpc_internal_Inr: "or_grpc_internal m w = (Inr a, w') \<longleftrightarrow> m w = (Inr a, w')"
  by (simp add: or_grpc_internal_def map_err_io_Inr)

lemma select_first_Inr:
  "users_query U (select_first f) w = (Inr r, w') \<longleftrightarrow>
     up_fault U (uw_tick w) = No_Fault \<and> r = fetch_optional (f (met U w)) \<and>
     w' = w\<lparr>uw_db := met U w, uw_tick := Suc (uw_tick w)\<rparr>"
  by (auto simp: users_query_Inr)

lemmas success_simps =
  bind_io_Inr or_internal_Inr or_grpc_internal_Inr map_err_io_Inr select_first_Inr
  users_reads_apply users_tick_apply lift_result_apply ret_apply throw_apply ok_or_Inr

lemma audited_Inr:
  assumes "audited U hs peer path action on_ok on_err meta inner w = (Inr x, w')"
  obtains v where "inner w = (Inr x, v)" "uw_db w' = uw_db v" "uw_emails w' = uw_emails v"
  using audited_run [of U hs peer path action on_ok on_err meta inner w] assms
  by (metis fst_conv prod.collapse snd_conv)

section \<open>Successful runs, step by step\<close>

text \<open>What holds of the world after a successful run: \<open>succeeds P m Q\<close> is the partial
  correctness triple over the result monad. A condition on the past of the tables (\<open>stable\<close>)
  survives every operation.\<close>

definition succeeds :: "(users_world \<Rightarrow> bool) \<Rightarrow> (users_world, 'e, 'a) io \<Rightarrow> ('a \<Rightarrow> users_world \<Rightarrow> bool) \<Rightarrow> bool" where
  "succeeds P m Q \<longleftrightarrow> (\<forall>w a w'. P w \<longrightarrow> m w = (Inr a, w') \<longrightarrow> Q a w')"

definition stable :: "(users_world \<Rightarrow> bool) \<Rightarrow> bool" where
  "stable P \<longleftrightarrow> (\<forall>w w'. P w \<longrightarrow> users_runs w w' \<longrightarrow> P w')"

lemma succeedsD: "succeeds P m Q \<Longrightarrow> m w = (Inr a, w') \<Longrightarrow> P w \<Longrightarrow> Q a w'"
  by (simp add: succeeds_def)

lemma succeeds_bind:
  "succeeds P m R \<Longrightarrow> (\<And>a. succeeds (R a) (f a) Q) \<Longrightarrow> succeeds P (bind_io m f) Q"
  unfolding succeeds_def bind_io_Inr by blast

lemma succeeds_keeps: "keeps users_runs m \<Longrightarrow> stable P \<Longrightarrow> succeeds P m (\<lambda>_. P)"
  unfolding succeeds_def stable_def by (metis keepsD snd_conv)

lemma succeeds_lift: "(\<And>a w. r = Inr a \<Longrightarrow> P w \<Longrightarrow> Q a w) \<Longrightarrow> succeeds P (lift_result r) Q"
  by (simp add: succeeds_def lift_result_apply)

lemma succeeds_ret: "(\<And>w. P w \<Longrightarrow> Q a w) \<Longrightarrow> succeeds P (ret a) Q"
  by (simp add: succeeds_def ret_apply)

lemma succeeds_if:
  "(b \<Longrightarrow> succeeds P m Q) \<Longrightarrow> (\<not> b \<Longrightarrow> succeeds P n Q) \<Longrightarrow> succeeds P (if b then m else n) Q"
  by simp

lemma succeeds_throw [simp]: "succeeds P (throw e) Q"
  by (simp add: succeeds_def throw_apply)

text \<open>After \<open>P\<close>, at some point of the run, the tables satisfied \<open>C\<close>.\<close>

definition since :: "(users_world \<Rightarrow> bool) \<Rightarrow> (users_db \<Rightarrow> bool) \<Rightarrow> users_world \<Rightarrow> bool" where
  "since P C w \<longleftrightarrow>
     (\<exists>w0 d. P w0 \<and> users_step\<^sup>*\<^sup>* (uw_db w0) d \<and> C d \<and> users_step\<^sup>*\<^sup>* d (uw_db w))"

definition from_tables :: "users_db \<Rightarrow> users_world \<Rightarrow> bool" where
  "from_tables d0 w \<longleftrightarrow> users_step\<^sup>*\<^sup>* d0 (uw_db w)"

lemma stable_since [simp]: "stable (since P C)" "stable (from_tables d)"
  unfolding stable_def since_def users_runs_def from_tables_def by (blast intro: rtranclp_trans)+

lemma succeeds_select:
  assumes "users_lawful U"
  shows "succeeds P (users_query U (select_first f)) (\<lambda>r. since P (\<lambda>d. fetch_optional (f d) = r))"
  unfolding succeeds_def select_first_Inr since_def using met_runs [OF assms] by fastforce

lemma succeeds_or_internal:
  "succeeds P m Q \<Longrightarrow> succeeds P (or_internal m) Q" "succeeds P n R \<Longrightarrow> succeeds P (or_grpc_internal n) R"
  unfolding succeeds_def or_internal_Inr or_grpc_internal_Inr by blast+

lemma succeeds_case_option:
  "(x = None \<Longrightarrow> succeeds P m Q) \<Longrightarrow> (\<And>a. x = Some a \<Longrightarrow> succeeds P (f a) Q) \<Longrightarrow>
   succeeds P (case x of None \<Rightarrow> m | Some a \<Rightarrow> f a) Q"
  by (cases x) simp_all

lemma succeeds_weaken: "succeeds P m R \<Longrightarrow> (\<And>a w. R a w \<Longrightarrow> Q a w) \<Longrightarrow> succeeds P m Q"
  unfolding succeeds_def by blast

lemma bind_lift: "(\<And>a. r = Inr a \<Longrightarrow> succeeds P (f a) Q) \<Longrightarrow> succeeds P (bind_io (lift_result r) f) Q"
  unfolding succeeds_def by (auto simp: bind_io_Inr lift_result_apply)

lemma bind_ok_or: "(\<And>a. x = Some a \<Longrightarrow> succeeds P (f a) Q) \<Longrightarrow> succeeds P (bind_io (lift_result (ok_or x e)) f) Q"
  by (rule bind_lift) (simp add: ok_or_Inr)

lemma bind_keeps:
  "keeps users_runs m \<Longrightarrow> stable P \<Longrightarrow> (\<And>a. succeeds P (f a) Q) \<Longrightarrow> succeeds P (bind_io m f) Q"
  by (rule succeeds_bind [OF succeeds_keeps])

lemma bind_select:
  assumes "users_lawful U" "\<And>r. succeeds (since P (\<lambda>d. fetch_optional (g d) = r)) (f r) Q"
  shows "succeeds P (bind_io (or_internal (users_query U (select_first g))) f) Q"
  using assms(2) by (rule succeeds_bind [OF succeeds_or_internal(1) [OF succeeds_select [OF assms(1)]]])

lemma bind_select_grpc:
  assumes "users_lawful U" "\<And>r. succeeds (since P (\<lambda>d. fetch_optional (g d) = r)) (f r) Q"
  shows "succeeds P (bind_io (or_grpc_internal (users_query U (select_first g))) f) Q"
  using assms(2) by (rule succeeds_bind [OF succeeds_or_internal(2) [OF succeeds_select [OF assms(1)]]])

lemma since_mono:
  "since P C w \<Longrightarrow> (\<And>v. P v \<Longrightarrow> P' v) \<Longrightarrow> (\<And>d. C d \<Longrightarrow> C' d) \<Longrightarrow> since P' C' w"
  unfolding since_def by blast

section \<open>What a key grants\<close>

text \<open>A key lets its holder act for a business while it is active and not revoked.\<close>

definition key_grants :: "users_params \<Rightarrow> str \<Rightarrow> users_db \<Rightarrow> uuid \<Rightarrow> bool" where
  "key_grants U plain d b \<longleftrightarrow>
     (\<exists>k \<in> set (t_api_keys d). hash_api_key U plain = Inr (key_hash k) \<and> key_usable k \<and> key_business_id k = b)"

definition environment_of :: "users_db \<Rightarrow> uuid \<Rightarrow> uuid \<Rightarrow> environment_row \<Rightarrow> bool" where
  "environment_of d e b r \<longleftrightarrow>
     r \<in> set (t_environments d) \<and> env_id r = e \<and> env_business_id r = b \<and> env_status r = u ''active''"


lemma authenticate_succeeds:
  assumes "users_lawful U" and P: "stable P"
  shows "succeeds P (authenticate_api_key U x y plain)
    (\<lambda>(k, b, e). since (since P (\<lambda>d. key_grants U plain d b)) (\<lambda>d. \<exists>r. environment_of d e b r))"
proof -
  note query = users_query_runs [OF assms(1)]
  have env: "keeps users_runs
       (case x of Some env \<Rightarrow> ret env
        | None \<Rightarrow>
            bind_io (lift_result (ok_or y e1)) (\<lambda>env.
            if env \<noteq> u ''sandbox'' \<and> env \<noteq> u ''production'' then throw e2 else
            bind_io (or_internal (users_query U (select_first (environment_of_type b env))))
              (\<lambda>env_rec. bind_io (lift_result (ok_or env_rec e3)) (\<lambda>e. ret (env_id e)))))" for b e1 e2 e3
    by (auto intro!: users_structure query select_runs)
  show ?thesis
    unfolding authenticate_api_key_def
    by (intro bind_keeps [OF users_reads_run(2) P] bind_lift bind_select [OF assms(1)] bind_ok_or succeeds_if
        succeeds_throw bind_keeps [OF env stable_since(1)]
        bind_keeps [OF users.keeps_try [OF query] stable_since(1)] succeeds_ret)
      (auto intro!: r_into_rtranclp users_step.touch_key elim!: since_mono
        dest!: fetch_optional_filter simp: keys_by_hash_def environment_in_business_def key_grants_def
          environment_of_def key_usable_def)
qed

lemma scope_succeeds:
  assumes "users_lawful U"
  shows "succeeds P (validate_api_key_scope U plain environment)
    (\<lambda>(b, e). since (since P (\<lambda>d. key_grants U plain d b))
       (\<lambda>d. \<exists>r. environment_of d e b r \<and> env_type r = environment))"
  unfolding validate_api_key_scope_def
  by (intro bind_lift bind_select_grpc [OF assms] bind_ok_or succeeds_if succeeds_throw succeeds_ret)
    (auto elim!: since_mono dest!: fetch_optional_filter split: sum.splits
      simp: keys_by_hash_def environment_of_type_def key_grants_def environment_of_def key_usable_def)

text \<open>The answer of the two gRPC methods: first a key that grants the business, then the active
  environment of the requested type, then an active user there.\<close>

definition acting ::
  "users_params \<Rightarrow> (users_world \<Rightarrow> bool) \<Rightarrow> str \<Rightarrow> str \<Rightarrow> (user_row \<Rightarrow> bool) \<Rightarrow> str \<times> str \<times> str \<Rightarrow> users_world \<Rightarrow> bool" where
  "acting U P key env C ids w \<longleftrightarrow>
     (\<exists>b e i. ids = (up_uuid_str U b, up_uuid_str U e, up_uuid_str U i) \<and>
       since (since (since P (\<lambda>d. key_grants U (trim key) d b))
         (\<lambda>d. \<exists>r. environment_of d e b r \<and> env_type r = to_lower (trim env)))
         (\<lambda>d. \<exists>r \<in> set (t_users d). usr_id r = i \<and> usr_business_id r = b \<and> usr_environment_id r = e \<and>
            usr_status r = u ''active'' \<and> C r) w)"

lemma actingI:
  "since (since (since P (\<lambda>d. key_grants U (trim key) d b))
     (\<lambda>d. \<exists>r. environment_of d e b r \<and> env_type r = to_lower (trim env)))
     (\<lambda>d. \<exists>r \<in> set (t_users d). usr_id r = i \<and> usr_business_id r = b \<and> usr_environment_id r = e \<and>
        usr_status r = u ''active'' \<and> C r) w \<Longrightarrow>
   acting U P key env C (up_uuid_str U b, up_uuid_str U e, up_uuid_str U i) w"
  unfolding acting_def by blast

lemma bind_scope:
  assumes "users_lawful U"
    and "\<And>b e. succeeds (since (since P (\<lambda>d. key_grants U plain d b))
       (\<lambda>d. \<exists>r. environment_of d e b r \<and> env_type r = environment)) (f (b, e)) Q"
  shows "succeeds P (bind_io (validate_api_key_scope U plain environment) f) Q"
  by (rule succeeds_bind [OF scope_succeeds [OF assms(1)]]) (use assms(2) in auto)

lemma grpc_inputs:
  "validate_api_key_request_inputs key env = Inr (k, v) \<Longrightarrow> k = trim key \<and> v = to_lower (trim env)"
  "normalize_account_user_lookup_inputs email first_name last_name = Inr (a, b, c) \<Longrightarrow>
     a = normalize_email email \<and> b = trim first_name \<and> c = trim last_name"
  by (auto simp: validate_api_key_request_inputs_def normalize_account_user_lookup_inputs_def Let_def split: if_splits)

lemma validate_key_succeeds:
  assumes "users_lawful U"
  shows "succeeds P (grpc_validate_api_key U key env) (acting U P key env (\<lambda>r. usr_role r = u ''admin''))"
  unfolding grpc_validate_api_key_def
  by (rule bind_lift, clarify dest!: grpc_inputs(1), rule bind_scope [OF assms], simp,
      intro bind_select_grpc [OF assms] bind_ok_or succeeds_ret actingI)
    (auto simp: admins_in_def dest!: fetch_optional_filter elim!: since_mono)

lemma resolve_user_succeeds:
  assumes "users_lawful U"
  shows "succeeds P (grpc_resolve_account_user U key env email first_name last_name)
       (acting U P key env (\<lambda>r. usr_email r = normalize_email email \<and> usr_first_name r = trim first_name \<and>
          usr_last_name r = trim last_name))"
  unfolding grpc_resolve_account_user_def
  by (rule bind_lift, clarify dest!: grpc_inputs(1), rule bind_lift, clarify dest!: grpc_inputs(2),
      rule bind_scope [OF assms], simp, intro bind_select_grpc [OF assms] bind_ok_or succeeds_ret actingI)
    (auto simp: users_by_name_def dest!: fetch_optional_filter elim!: since_mono)

lemmas grpc_succeeds = validate_key_succeeds resolve_user_succeeds

section \<open>Dead keys\<close>

lemma key_evolvesD:
  assumes "key_evolves k k'"
  shows "key_id k' = key_id k" "key_hash k' = key_hash k" "key_business_id k' = key_business_id k"
    "key_usable k' \<Longrightarrow> key_usable k"
proof -
  have same: "f (k'\<lparr>key_status := [], key_last_used_at := None, key_revoked_at := None\<rparr>) =
      f (k\<lparr>key_status := [], key_last_used_at := None, key_revoked_at := None\<rparr>)" for f :: "api_key_row \<Rightarrow> 'z"
    using assms by (simp add: key_evolves_def)
  show "key_id k' = key_id k" using same [of key_id] by simp
  show "key_hash k' = key_hash k" using same [of key_hash] by simp
  show "key_business_id k' = key_business_id k" using same [of key_business_id] by simp
  show "key_usable k' \<Longrightarrow> key_usable k" using assms by (simp add: key_evolves_def)
qed

lemma dead_key:
  assumes "users_ok d0" "users_step\<^sup>*\<^sup>* d0 d" "k \<in> set (t_api_keys d0)" "\<not> key_usable k"
    and "hash_api_key U plain = Inr (key_hash k)"
  shows "\<not> key_grants U plain d b"
proof
  assume "key_grants U plain d b"
  then obtain k2 where k2: "k2 \<in> set (t_api_keys d)" "key_hash k2 = key_hash k" "key_usable k2"
    using assms(5) by (auto simp: key_grants_def)
  have safe: "users_ok d" "users_evolves d0 d"
    using users_steps_safe [OF assms(2)] assms(1) by (auto simp: users_safe_def)
  from safe(2) have "extends key_evolves (t_api_keys d0) (t_api_keys d)" by (simp add: users_evolves_def)
  from extends_row [OF this assms(3)] obtain k1 where k1: "k1 \<in> set (t_api_keys d)" "key_evolves k k1" by blast
  have "key_hash k1 = key_hash k" "\<not> key_usable k1" using key_evolvesD [OF k1(2)] assms(4) by auto
  moreover have "inj_on key_hash (set (t_api_keys d))" using safe(1) by (simp add: users_ok_def keys_unique_def distinct_map)
  ultimately have "k1 = k2" using k1(1) k2(1,2) by (metis inj_onD)
  then show False using k2(3) \<open>\<not> key_usable k1\<close> by simp
qed

lemma dead_key_refused:
  assumes "users_lawful U" "users_ok (uw_db w)" "k \<in> set (t_api_keys (uw_db w))" "\<not> key_usable k"
    and plain: "hash_api_key U plain = Inr (key_hash k)"
  shows "fst (authenticate_api_key U x y plain w) \<noteq> Inr r"
    "trim key = plain \<Longrightarrow> fst (grpc_validate_api_key U key env w) \<noteq> Inr ids"
    "trim key = plain \<Longrightarrow> fst (grpc_resolve_account_user U key env email f l w) \<noteq> Inr ids"
proof -
  let ?P = "from_tables (uw_db w)"
  have start: "?P w" by (simp add: from_tables_def)
  have never: "\<not> since ?P (\<lambda>d. key_grants U plain d b) v" for b v
  proof
    assume "since ?P (\<lambda>d. key_grants U plain d b) v"
    then obtain d where "users_step\<^sup>*\<^sup>* (uw_db w) d" "key_grants U plain d b"
      unfolding since_def from_tables_def by (blast intro: rtranclp_trans)
    with dead_key [OF assms(2) _ assms(3-5)] show False by blast
  qed
  then have never2: "\<not> since (since ?P (\<lambda>d. key_grants U plain d b)) C v" for b C v
    by (simp add: since_def)
  then have never3: "\<not> since (since (since ?P (\<lambda>d. key_grants U plain d b)) C) C' v" for b C C' v
    by (simp add: since_def [of "since (since _ _) _"])
  show "fst (authenticate_api_key U x y plain w) \<noteq> Inr r"
  proof
    assume "fst (authenticate_api_key U x y plain w) = Inr r"
    moreover obtain a b e where "r = (a, b, e)" by (cases r) auto
    ultimately have "authenticate_api_key U x y plain w = (Inr (a, b, e), snd (authenticate_api_key U x y plain w))"
      by (metis prod.collapse)
    from succeedsD [OF authenticate_succeeds [OF assms(1) stable_since(2)] this start] never2
    show False by simp
  qed
  assume key: "trim key = plain"
  have refused: "\<not> acting U ?P key env C ids v" for C v
    unfolding acting_def using never3 key by blast
  show "fst (grpc_validate_api_key U key env w) \<noteq> Inr ids"
  proof
    assume "fst (grpc_validate_api_key U key env w) = Inr ids"
    then have "grpc_validate_api_key U key env w = (Inr ids, snd (grpc_validate_api_key U key env w))"
      by (metis prod.collapse)
    from succeedsD [OF grpc_succeeds(1) [where P = ?P, OF assms(1)] this start] refused show False by blast
  qed
  show "fst (grpc_resolve_account_user U key env email f l w) \<noteq> Inr ids"
  proof
    assume "fst (grpc_resolve_account_user U key env email f l w) = Inr ids"
    then have "grpc_resolve_account_user U key env email f l w =
      (Inr ids, snd (grpc_resolve_account_user U key env email f l w))" by (metis prod.collapse)
    from succeedsD [OF grpc_succeeds(2) [where P = ?P, OF assms(1)] this start] refused show False by blast
  qed
qed

text \<open>An administrator acts in a sandbox environment.\<close>

lemma admin_acts_in_sandbox:
  assumes "acting U (\<lambda>v. v = w) key env (\<lambda>r. usr_role r = u ''admin'') ids w'" "users_ok (uw_db w)"
  shows "to_lower (trim env) = u ''sandbox''"
proof -
  from assms(1) obtain b e d2 d3 r a where
    d2: "users_step\<^sup>*\<^sup>* (uw_db w) d2" "environment_of d2 e b r" "env_type r = to_lower (trim env)"
    and d3: "users_step\<^sup>*\<^sup>* d2 d3" "a \<in> set (t_users d3)" "usr_environment_id a = e" "usr_role a = u ''admin''"
    unfolding acting_def since_def by (blast intro: rtranclp_trans)
  have safe: "users_ok d3" "extends (=) (t_environments d2) (t_environments d3)"
    using users_steps_safe [OF d3(1)] users_steps_safe [OF d2(1)] assms(2)
    by (auto simp: users_safe_def users_evolves_def)
  have r: "r \<in> set (t_environments d3)" "env_id r = e"
    using extends_row [OF safe(2)] d2(2) by (auto simp: environment_of_def)
  obtain s where s: "s \<in> set (t_environments d3)" "env_id s = e" "env_type s = u ''sandbox''"
    using safe(1) d3(2-4) by (auto simp: users_ok_def keys_unique_def admin_in_sandbox_def)
  have "inj_on env_id (set (t_environments d3))" using safe(1) by (simp add: users_ok_def keys_unique_def distinct_map)
  then have "r = s" using r s(1,2) by (metis inj_onD)
  then show ?thesis using d2(3) s(3) by simp
qed

text \<open>A successful revocation kills the key.\<close>

definition revocable :: "auth_context \<Rightarrow> uuid \<Rightarrow> api_key_row \<Rightarrow> bool" where
  "revocable ctx i r \<longleftrightarrow> key_id r = i \<and> key_business_id r = ctx_business_id ctx \<and> key_status r = u ''active''"

lemma require_admin_keeps: "users_lawful U \<Longrightarrow> keeps users_runs (require_admin U ctx)"
  unfolding require_admin_def by (auto intro!: users_structure users_query_runs select_runs)

text \<open>A revocation that succeeds ran its statement on tables that had a key to revoke.\<close>

lemma revoke_inner_succeeds:
  assumes "users_lawful U"
  shows "succeeds (from_tables (uw_db w)) (revoke_api_key_inner U ctx i)
      (\<lambda>_ v. \<exists>d now t. users_step\<^sup>*\<^sup>* (uw_db w) d \<and> (\<exists>r \<in> set (t_api_keys d). revocable ctx i r) \<and>
         uw_db v = snd (revoke_api_key_stmt i (ctx_business_id ctx) now t d))"
  unfolding revoke_api_key_inner_def
proof (intro bind_keeps [OF require_admin_keeps [OF assms] stable_since(2)] bind_keeps [OF users_reads_run(2) stable_since(2)])
  fix now uid
  show "succeeds (from_tables (uw_db w))
    (bind_io (or_internal (users_query U (revoke_api_key_stmt i (ctx_business_id ctx) now))) (\<lambda>affected.
     if affected = 0 then throw (U_Bad_Request (u ''API key not found or already revoked''))
     else ret (\<lparr>cak_id = i, cak_key = [], cak_status = u ''revoked''\<rparr>, ctx_business_id ctx, uid)))
    (\<lambda>_ v. \<exists>d now t. users_step\<^sup>*\<^sup>* (uw_db w) d \<and> (\<exists>r \<in> set (t_api_keys d). revocable ctx i r) \<and>
     uw_db v = snd (revoke_api_key_stmt i (ctx_business_id ctx) now t d))"
  proof (unfold succeeds_def, intro allI impI)
    fix v x v'
    assume v: "from_tables (uw_db w) v"
      and run: "bind_io (or_internal (users_query U (revoke_api_key_stmt i (ctx_business_id ctx) now))) (\<lambda>affected.
        if affected = 0 then throw (U_Bad_Request (u ''API key not found or already revoked''))
        else ret (\<lparr>cak_id = i, cak_key = [], cak_status = u ''revoked''\<rparr>, ctx_business_id ctx, uid)) v = (Inr x, v')"
    let ?stmt = "revoke_api_key_stmt i (ctx_business_id ctx) now (uw_tick v) (met U v)"
    have ran: "fst ?stmt \<noteq> Inr 0" "uw_db v' = snd ?stmt"
      using run by (auto simp: success_simps users_query_Inr split: if_splits)
    have "\<exists>r \<in> set (t_api_keys (met U v)). revocable ctx i r"
      using ran(1) by (auto simp: revoke_api_key_stmt_def revocable_def Let_def filter_empty_conv)
    moreover have "users_step\<^sup>*\<^sup>* (uw_db w) (met U v)"
      using v met_runs [OF assms, of v] unfolding from_tables_def by (rule rtranclp_trans)
    ultimately show "\<exists>d now t. users_step\<^sup>*\<^sup>* (uw_db w) d \<and> (\<exists>r \<in> set (t_api_keys d). revocable ctx i r) \<and>
       uw_db v' = snd (revoke_api_key_stmt i (ctx_business_id ctx) now t d)"
      using ran(2) by blast
  qed
qed

lemma revoke_key_effect:
  assumes "users_lawful U" "users_ok (uw_db w)" "revoke_api_key U hs peer ctx i w = (Inr body, w')"
    and "k \<in> set (t_api_keys (uw_db w'))" "key_id k = i"
  shows "\<not> key_usable k"
proof -
  obtain x v where inner: "revoke_api_key_inner U ctx i w = (Inr x, v)" "uw_db w' = uw_db v"
    using assms(3) by (auto simp: revoke_api_key_def bind_io_Inr ret_apply elim: audited_Inr)
  then obtain d now t where d: "users_step\<^sup>*\<^sup>* (uw_db w) d" "\<exists>r \<in> set (t_api_keys d). revocable ctx i r"
    "uw_db w' = snd (revoke_api_key_stmt i (ctx_business_id ctx) now t d)"
    using succeedsD [OF revoke_inner_succeeds [OF assms(1), of w ctx i], of w] by (fastforce simp: from_tables_def)
  then obtain r where r: "r \<in> set (t_api_keys d)" "revocable ctx i r" by blast
  have "inj_on key_id (set (t_api_keys d))"
    using users_steps_safe [OF d(1)] assms(2) by (simp add: users_safe_def users_ok_def keys_unique_def distinct_map)
  moreover obtain r0 where r0: "r0 \<in> set (t_api_keys d)"
    "k = (if revocable ctx i r0 then r0\<lparr>key_status := u ''revoked'', key_revoked_at := Some now\<rparr> else r0)"
    using assms(4) unfolding d(3) by (auto simp: revoke_api_key_stmt_def revocable_def Let_def)
  moreover have "key_id r0 = key_id r" using r0(2) r(2) assms(5) by (auto simp: revocable_def split: if_splits)
  ultimately have "r0 = r" using r(1) by (meson inj_onD)
  then show ?thesis using r0(2) r(2) by (simp add: key_usable_def)
qed

section \<open>A concrete service\<close>

definition demo_users :: users_params where
  "demo_users =
     \<lparr>up_other = \<lambda>t d. d, up_fault = \<lambda>_. No_Fault, up_clock = int, up_uuid = \<lambda>t. of_nat (1000 + t),
      up_random = \<lambda>t. [of_nat t], up_random_fails = \<lambda>_. False, up_env_var = \<lambda>_. None, up_uuid_str = \<lambda>i. show_nat (unat i),
      up_uuid_parse = \<lambda>s. map_option of_nat (parse_digits s), up_rfc3339 = \<lambda>_. [],
      up_base64 = map unat, up_base64_url = map unat, up_hash_password = \<lambda>t p. Some p,
      up_verify = \<lambda>h p. if h = p then Password_Right else Password_Wrong, up_sha256_hex = \<lambda>s. s,
      up_hmac = \<lambda>_ m. Some (map of_nat m), up_jwt_encode = \<lambda>_ c. Some (jc_sub c),
      up_jwt_decode = \<lambda>_ _ t. Some t, up_audit_client = False, up_email = True\<rparr>"

definition demo_key :: api_key_row where
  "demo_key =
     \<lparr>key_id = 5, key_business_id = 1, key_environment_id = None, key_hash = hex_encode (map of_nat (u ''k'')),
      key_status = u ''active'', key_last_used_at = None, key_created_at = 0, key_revoked_at = None,
      key_created_by_user_id = Some 4\<rparr>"

definition demo_admin :: user_row where
  "demo_admin =
     \<lparr>usr_id = 4, usr_business_id = 1, usr_environment_id = 2, usr_first_name = u ''A'', usr_last_name = u ''B'',
      usr_email = u ''a@b'', usr_password_hash = u ''password1'', usr_role = u ''admin'',
      usr_status = u ''active'', usr_created_at = 0, usr_updated_at = 0, usr_created_by_user_id = None,
      usr_created_by_api_key_id = None\<rparr>"

definition demo_session :: session_row where
  "demo_session = new_session 6 4 2 (u ''tok'') (u ''j'') 0"

definition demo_reset :: reset_token_row where
  "demo_reset = new_reset_token 7 4 (u ''rst'') (hours 1) 0"

definition demo_tables :: users_db where
  "demo_tables =
     \<lparr>t_businesses = [\<lparr>biz_id = 1, biz_name = u ''Biz'', biz_website = None, biz_status = u ''active'',
        biz_created_at = 0, biz_updated_at = 0\<rparr>],
      t_environments = [new_environment 2 1 ''sandbox'' 0, new_environment 3 1 ''production'' 0],
      t_users = [demo_admin], t_sessions = [demo_session], t_api_keys = [demo_key],
      t_reset_tokens = [demo_reset], t_beta = []\<rparr>"

definition demo_users_world :: users_world where
  "demo_users_world = \<lparr>uw_db = demo_tables, uw_audit = [], uw_emails = [], uw_tick = 0\<rparr>"

lemma demo_users_simps [simp]:
  "up_clock demo_users = int" "up_uuid demo_users = (\<lambda>t. of_nat (1000 + t))" "up_random demo_users = (\<lambda>t. [of_nat t])"
  "up_env_var demo_users = (\<lambda>_. None)" "up_uuid_str demo_users = (\<lambda>i. show_nat (unat i))"
  "up_base64 demo_users = map unat" "up_base64_url demo_users = map unat"
  "up_hash_password demo_users = (\<lambda>t p. Some p)" "up_sha256_hex demo_users = (\<lambda>s. s)"
  "up_verify demo_users = (\<lambda>h p. if h = p then Password_Right else Password_Wrong)"
  "up_hmac demo_users = (\<lambda>_ m. Some (map of_nat m))" "up_jwt_encode demo_users = (\<lambda>_ c. Some (jc_sub c))"
  "up_fault demo_users = (\<lambda>_. No_Fault)" "up_other demo_users = (\<lambda>t d. d)"
  "up_audit_client demo_users = False" "up_email demo_users = True"
  by (simp_all add: demo_users_def)

lemmas demo_users_defs =
  demo_tables_def demo_users_world_def demo_key_def demo_admin_def demo_session_def demo_reset_def
  new_environment_def new_session_def new_reset_token_def

lemma demo_users_undisturbed [simp]: "users_undisturbed demo_users"
  by (simp add: users_undisturbed_def id_def)

lemma demo_users_lawful [simp]: "users_lawful demo_users"
  by (simp add: users_lawful_undisturbed)

lemma demo_tables_ok [simp]: "users_ok demo_tables"
  by (simp add: users_ok_def keys_unique_def references_ok_def demo_users_defs admin_in_sandbox_def)

section \<open>Revocation lasts\<close>

text \<open>\<open>holds_dead_key U plain d\<close>: the key with this plain text is in the tables and no longer usable.\<close>

definition holds_dead_key :: "users_params \<Rightarrow> str \<Rightarrow> users_db \<Rightarrow> bool" where
  "holds_dead_key U plain d \<longleftrightarrow>
     users_ok d \<and> (\<exists>k \<in> set (t_api_keys d). \<not> key_usable k \<and> hash_api_key U plain = Inr (key_hash k))"

lemma revoked_stays_dead:
  assumes "users_lawful U" "users_ok (uw_db w)" "revoke_api_key U hs peer ctx i w = (Inr body, w1)"
    and "users_step\<^sup>*\<^sup>* (uw_db w1) d"
    and "k \<in> set (t_api_keys (uw_db w1))" "key_id k = i" "hash_api_key U plain = Inr (key_hash k)"
  shows "holds_dead_key U plain d"
proof -
  have "\<not> key_usable k" by (rule revoke_key_effect [OF assms(1-3,5,6)])
  have "users_step\<^sup>*\<^sup>* (uw_db w) (uw_db w1)"
    using key_runs(3) [OF assms(1), of hs peer ctx i] assms(3) unfolding users_runs_def keeps_def by (metis snd_conv)
  then have ok1: "users_ok (uw_db w1)" using users_steps_safe assms(2) by (auto simp: users_safe_def)
  have safe: "users_ok d" "extends key_evolves (t_api_keys (uw_db w1)) (t_api_keys d)"
    using users_steps_safe [OF assms(4)] ok1 by (auto simp: users_safe_def users_evolves_def)
  from extends_row [OF safe(2) assms(5)] obtain k2 where
    k2: "k2 \<in> set (t_api_keys d)" "key_evolves k k2" by blast
  have "\<not> key_usable k2" "hash_api_key U plain = Inr (key_hash k2)"
    using key_evolvesD [OF k2(2)] \<open>\<not> key_usable k\<close> assms(7) by auto
  with k2(1) safe(1) show ?thesis unfolding holds_dead_key_def by blast
qed

section \<open>Properties\<close>

text \<open>
  C28. Every operation of the users service, whatever fails on the way and while further instances do the
  same, keeps the tables safe: rows stay and keep their identity; a revoked session or key and a used
  reset token stay so; identifiers, e-mail addresses, key hashes and beta applications stay unique; every
  reference of one table to another, or to itself, names a row; and every administrator stays in a
  sandbox environment.
\<close>

theorem users_tables_safe:
  assumes "users_lawful U"
  shows "users_safe (uw_db w) (uw_db (snd (login U hs peer req w))) \<and>
    users_safe (uw_db w) (uw_db (snd (refresh_token U hs peer tok w))) \<and>
    users_safe (uw_db w) (uw_db (snd (revoke_token U hs peer tok w))) \<and>
    users_safe (uw_db w) (uw_db (snd (auth_context U hs w))) \<and>
    users_safe (uw_db w) (uw_db (snd (api_key_only_context U hs w))) \<and>
    users_safe (uw_db w) (uw_db (snd (create_api_key U hs peer ctx e w))) \<and>
    users_safe (uw_db w) (uw_db (snd (list_api_keys U ctx w))) \<and>
    users_safe (uw_db w) (uw_db (snd (revoke_api_key U hs peer ctx i w))) \<and>
    users_safe (uw_db w) (uw_db (snd (grpc_validate_api_key U k env w))) \<and>
    users_safe (uw_db w) (uw_db (snd (grpc_resolve_account_user U k env m f l w))) \<and>
    users_safe (uw_db w) (uw_db (snd (request_password_reset U hs peer m w))) \<and>
    users_safe (uw_db w) (uw_db (snd (reset_password U hs peer tok pw w))) \<and>
    users_safe (uw_db w) (uw_db (snd (register_business U hs peer reg w))) \<and>
    users_safe (uw_db w) (uw_db (snd (create_sdk_user U hs peer ako su w))) \<and>
    users_safe (uw_db w) (uw_db (snd (me U ctx w))) \<and>
    users_safe (uw_db w) (uw_db (snd (apply_for_beta U hs peer app w)))"
  using auth_runs [OF assms] key_runs [OF assms] account_runs [OF assms]
  by (intro conjI) (auto intro!: users_steps_safe simp: keeps_def users_runs_def)

theorem users_tables_safe_witness:
  "users_safe demo_tables (uw_db (snd (reset_password demo_users [] [] (u ''rst'') (u ''password2'') demo_users_world))) \<and>
   users_ok (uw_db (snd (reset_password demo_users [] [] (u ''rst'') (u ''password2'') demo_users_world)))"
  using users_tables_safe [of demo_users demo_users_world, THEN conjunct2, THEN conjunct2, THEN conjunct2,
      THEN conjunct2, THEN conjunct2, THEN conjunct2, THEN conjunct2, THEN conjunct2, THEN conjunct2,
      THEN conjunct2, THEN conjunct2, THEN conjunct1, of "[]" "[]" "u ''rst''" "u ''password2''"]
  by (simp add: demo_users_world_def users_safe_def)

text \<open>
  A revoked key is dead: once \<open>revoke_api_key\<close> has succeeded, from any later state of the tables
  and whatever else happens, neither the HTTP extractors nor the two gRPC methods accept the key again.
\<close>

theorem revoked_key_dead:
  assumes "users_lawful U" "users_ok (uw_db w)" "revoke_api_key U hs peer ctx i w = (Inr body, w1)"
    and "users_step\<^sup>*\<^sup>* (uw_db w1) (uw_db w2)"
    and "k \<in> set (t_api_keys (uw_db w1))" "key_id k = i" "hash_api_key U plain = Inr (key_hash k)"
    and "trimmed_header hs2 (u ''X-API-Key'') = Some plain" "trim key = plain"
  shows "is_err (fst (auth_context U hs2 w2)) \<and> is_err (fst (api_key_only_context U hs2 w2)) \<and>
    is_err (fst (grpc_validate_api_key U key env w2)) \<and>
    is_err (fst (grpc_resolve_account_user U key env email f l w2))"
proof -
  from revoked_stays_dead [OF assms(1-7)] obtain k2 where
    safe: "users_ok (uw_db w2)" and k2: "k2 \<in> set (t_api_keys (uw_db w2))"
    and dead: "\<not> key_usable k2" "hash_api_key U plain = Inr (key_hash k2)"
    unfolding holds_dead_key_def by blast
  note refused = dead_key_refused [OF assms(1) safe k2 dead]
  have key: "\<exists>e. fst (authenticate_api_key U x y plain v) = Inl e" if "v = w2" for x y v
    using refused(1) that by (metis sum.exhaust_sel)
  have "is_err (fst (auth_context U hs2 w2))" "is_err (fst (api_key_only_context U hs2 w2))"
    using assms(8) key [OF refl]
    by (auto simp: auth_context_def api_key_only_context_def io_simps is_err_def split: sum.split prod.split) (metis fst_conv sum.distinct(1))+
  moreover have "is_err (fst (grpc_validate_api_key U key env w2))"
    "is_err (fst (grpc_resolve_account_user U key env email f l w2))"
    using refused(2,3) [OF assms(9)] by (auto simp: is_err_def split: sum.split)
  ultimately show ?thesis by blast
qed

definition demo_ctx :: auth_context where
  "demo_ctx = \<lparr>ctx_user_id = Some 4, ctx_api_key_id = None, ctx_business_id = 1, ctx_environment_id = 2\<rparr>"

lemmas demo_run_simps =
  users_query_undisturbed users_run_undisturbed io_simps select_apply fetch_optional_def Let_def

lemma demo_revoke:
  "\<exists>body w1. revoke_api_key demo_users [] [] demo_ctx 5 demo_users_world = (Inr body, w1) \<and>
     t_api_keys (uw_db w1) = [demo_key\<lparr>key_status := u ''revoked'', key_revoked_at := Some 1\<rparr>]"
proof -
  have "revoke_api_key_inner demo_users demo_ctx 5 demo_users_world =
    (Inr (\<lparr>cak_id = 5, cak_key = [], cak_status = u ''revoked''\<rparr>, 1, 4),
     demo_users_world\<lparr>uw_db := demo_tables\<lparr>t_api_keys := [demo_key\<lparr>key_status := u ''revoked'', key_revoked_at := Some 1\<rparr>]\<rparr>,
       uw_tick := 3\<rparr>)"
    by (simp add: revoke_api_key_inner_def require_admin_def demo_run_simps demo_ctx_def active_user_in_def
        revoke_api_key_stmt_def demo_users_defs)
  then show ?thesis
    unfolding revoke_api_key_def
    by (auto simp: bind_io_Inr ret_apply audited_def try_io_apply emit_users_mutation_def)
qed

theorem revoked_key_dead_witness:
  "\<exists>w1. is_err (fst (grpc_validate_api_key demo_users (u ''k'') (u ''sandbox'') w1)) \<and>
    w1 = snd (revoke_api_key demo_users [] [] demo_ctx 5 demo_users_world)"
proof -
  obtain body w1 where run: "revoke_api_key demo_users [] [] demo_ctx 5 demo_users_world = (Inr body, w1)"
    and keys: "t_api_keys (uw_db w1) = [demo_key\<lparr>key_status := u ''revoked'', key_revoked_at := Some 1\<rparr>]"
    using demo_revoke by blast
  let ?k = "demo_key\<lparr>key_status := u ''revoked'', key_revoked_at := Some 1\<rparr>"
  have "is_err (fst (auth_context demo_users [(u ''x-api-key'', u ''k'')] w1)) \<and>
    is_err (fst (api_key_only_context demo_users [(u ''x-api-key'', u ''k'')] w1)) \<and>
    is_err (fst (grpc_validate_api_key demo_users (u ''k'') (u ''sandbox'') w1)) \<and>
    is_err (fst (grpc_resolve_account_user demo_users (u ''k'') (u ''sandbox'') [] [] [] w1))"
  proof (rule revoked_key_dead [OF demo_users_lawful _ run rtranclp.rtrancl_refl, of ?k])
    show "users_ok (uw_db demo_users_world)" by (simp add: demo_users_world_def)
    show "?k \<in> set (t_api_keys (uw_db w1))" using keys by simp
    show "key_id ?k = 5" by (simp add: demo_key_def)
    show "hash_api_key demo_users (u ''k'') = Inr (key_hash ?k)"
      by (simp add: hash_api_key_def demo_key_def)
    show "trimmed_header [(u ''x-api-key'', u ''k'')] (u ''X-API-Key'') = Some (u ''k'')"
      by (simp add: trimmed_header_def header_str_def to_lower_def lower_cp_def u_def header_byte_ok_def
          trim_def trim_start_def trim_end_def is_ws_def)
    show "trim (u ''k'') = u ''k''" by (simp add: u_def trim_def trim_start_def trim_end_def is_ws_def)
  qed
  with run show ?thesis by auto
qed

text \<open>
  A key that \<^verbatim>\<open>ValidateApiKey\<close> accepts was active, not revoked and of the returned business; the
  returned environment was an active one of that business and of the requested type; the returned user
  was an active administrator there. And the requested type is always sandbox: registration creates the
  administrator there only and e-mail addresses are unique, so production keys are never accepted.
\<close>

theorem validated_key_sound:
  assumes "users_lawful U" "users_ok (uw_db w)" "grpc_validate_api_key U key env w = (Inr ids, w')"
  shows "acting U (\<lambda>v. v = w) key env (\<lambda>r. usr_role r = u ''admin'') ids w' \<and>
    to_lower (trim env) = u ''sandbox''"
  using succeedsD [OF grpc_succeeds(1) [where P = "\<lambda>v. v = w", OF assms(1)] assms(3) refl]
    admin_acts_in_sandbox [OF _ assms(2)] by blast

theorem validated_key_sound_witness:
  "\<exists>ids w'. grpc_validate_api_key demo_users (u ''k'') (u ''sandbox'') demo_users_world = (Inr ids, w') \<and>
     acting demo_users (\<lambda>v. v = demo_users_world) (u ''k'') (u ''sandbox'') (\<lambda>r. usr_role r = u ''admin'') ids w'"
proof -
  have "trim (u ''k'') = u ''k''" "to_lower (trim (u ''sandbox'')) = u ''sandbox''"
    by (simp_all add: u_def trim_def trim_start_def trim_end_def is_ws_def to_lower_def lower_cp_def)
  then have "validate_api_key_request_inputs (u ''k'') (u ''sandbox'') = Inr (u ''k'', u ''sandbox'')"
    by (simp add: validate_api_key_request_inputs_def)
  then have "\<exists>ids w'. grpc_validate_api_key demo_users (u ''k'') (u ''sandbox'') demo_users_world = (Inr ids, w')"
    by (simp add: grpc_validate_api_key_def validate_api_key_scope_def or_grpc_internal_def demo_run_simps
        keys_by_hash_def environment_of_type_def admins_in_def hash_api_key_def demo_users_defs)
  then obtain ids w' where run:
    "grpc_validate_api_key demo_users (u ''k'') (u ''sandbox'') demo_users_world = (Inr ids, w')" by blast
  have "users_ok (uw_db demo_users_world)" by (simp add: demo_users_world_def)
  from validated_key_sound [OF demo_users_lawful this run] run show ?thesis by blast
qed

end
