(* ===== verification/Users_Session_Spec.thy ===== *)
theory Users_Session_Spec
  imports Users_Spec
begin

text \<open>
  Properties of sessions, passwords and registration: login, rotation of refresh tokens, the single use
  of reset tokens, the registration of a business, and that a refused operation changes nothing.
\<close>

section \<open>Password reset\<close>

lemma users_transaction_Inr:
  assumes "users_transaction U body w = (Inr a, w')"
  obtains v where "body (w\<lparr>uw_db := met U w, uw_tick := Suc (uw_tick w)\<rparr>) = (Inr a, v)" "uw_db w' = uw_db v"
proof -
  define begun where "begun = bind_io (map_err_io (\<lambda>_. U_Internal) (users_run U (\<lambda>t d. (Inr (), d)))) (\<lambda>_. body)"
  let ?w0 = "w\<lparr>uw_db := met U w\<rparr>"
  have run: "(case begun ?w0 of
      (Inl e, w) \<Rightarrow> (Inl e, w\<lparr>uw_db := uw_db ?w0\<rparr>)
    | (Inr a, w) \<Rightarrow>
        (case up_fault U (uw_tick w) of
           No_Fault \<Rightarrow> (Inr a, w\<lparr>uw_tick := Suc (uw_tick w)\<rparr>)
         | Fault_Before e \<Rightarrow> (Inl U_Internal, w\<lparr>uw_db := uw_db ?w0, uw_tick := Suc (uw_tick w)\<rparr>)
         | Fault_After e \<Rightarrow> (Inl U_Internal, w\<lparr>uw_tick := Suc (uw_tick w)\<rparr>))) = (Inr a, w')"
    using assms unfolding users_transaction_def begun_def [symmetric] bind_io_apply [of "users_interleave U"]
    by (simp only: users_interleave_def met_def prod.case sum.case)
  obtain r v where v: "begun ?w0 = (r, v)" by (cases "begun ?w0") auto
  with run have "r = Inr a" "uw_db w' = uw_db v" by (auto split: sum.splits db_fault.splits)
  with v have "begun ?w0 = (Inr a, v)" by simp
  then have "body (w\<lparr>uw_db := met U w, uw_tick := Suc (uw_tick w)\<rparr>) = (Inr a, v)"
    by (auto simp: begun_def bind_io_Inr map_err_io_Inr users_run_Inr)
  with \<open>uw_db w' = uw_db v\<close> show thesis by (blast intro: that)
qed










section \<open>A refusal changes nothing\<close>

text \<open>Neither the tables nor the mails sent have changed.\<close>

definition untouched :: "users_world \<Rightarrow> users_world \<Rightarrow> bool" where
  "untouched w w' \<longleftrightarrow> uw_db w' = uw_db w \<and> uw_emails w' = uw_emails w"

definition same_mail :: "users_world \<Rightarrow> users_world \<Rightarrow> bool" where
  "same_mail w w' \<longleftrightarrow> uw_emails w' = uw_emails w"

abbreviation readonly :: "(users_world, 'e, 'a) io \<Rightarrow> bool" where
  "readonly \<equiv> keeps untouched"

definition clean :: "(users_world, 'e, 'a) io \<Rightarrow> bool" where
  "clean m \<longleftrightarrow> (\<forall>w. is_err (fst (m w)) \<longrightarrow> untouched w (snd (m w)))"

interpretation same_db: run_preorder untouched
  by unfold_locales (auto simp: untouched_def)

interpretation mail: run_preorder same_mail
  by unfold_locales (auto simp: same_mail_def)

lemma untouched_refl [simp]: "untouched w w"
  by (simp add: untouched_def)

lemma untouched_simps [simp]:
  "untouched w (w'\<lparr>uw_tick := n\<rparr>) = untouched w w'" "untouched w (w\<lparr>uw_db := d\<rparr>) \<longleftrightarrow> d = uw_db w"
  by (simp_all add: untouched_def)

lemma clean_readonly: "readonly m \<Longrightarrow> clean m"
  by (simp add: clean_def keeps_def)

lemma clean_basic [simp]: "clean (ret a)" "clean (throw e)" "clean (lift_result r)"
  by (simp_all add: clean_def io_simps)

lemma clean_bind:
  assumes "readonly m" "\<And>a. clean (f a)"
  shows "clean (bind_io m f)"
  unfolding clean_def
proof (intro allI impI)
  fix w
  obtain r v where run: "m w = (r, v)" by (cases "m w") auto
  have same: "untouched w v" using keepsD [OF assms(1), of w] run by simp
  assume "is_err (fst (bind_io m f w))"
  then show "untouched w (snd (bind_io m f w))"
    using run same assms(2) [unfolded clean_def, rule_format, of _ v]
    by (cases r) (auto simp: io_simps untouched_def)
qed

text \<open>What follows a change must not fail.\<close>

lemma clean_last:
  assumes "clean m" "\<And>a w. \<not> is_err (fst (f a w))"
  shows "clean (bind_io m f)"
  unfolding clean_def
proof (intro allI impI)
  fix w
  obtain r v where run: "m w = (r, v)" by (cases "m w") auto
  assume "is_err (fst (bind_io m f w))"
  then show "untouched w (snd (bind_io m f w))"
    using run assms(1) [unfolded clean_def, rule_format, of w] assms(2) by (cases r) (auto simp: io_simps)
qed

lemma clean_map_err: "clean m \<Longrightarrow> clean (map_err_io g m)" "clean m \<Longrightarrow> clean (or_internal m)"
  by (auto simp: clean_def or_internal_def io_simps is_err_def split: prod.splits sum.splits) (metis fst_conv snd_conv sum.simps(5))+

lemma clean_structure:
  "(b \<Longrightarrow> clean m) \<Longrightarrow> (\<not> b \<Longrightarrow> clean n) \<Longrightarrow> clean (if b then m else n)"
  "(x = None \<Longrightarrow> clean m) \<Longrightarrow> (\<And>a. x = Some a \<Longrightarrow> clean (g a)) \<Longrightarrow> clean (case x of None \<Rightarrow> m | Some a \<Rightarrow> g a)"
  by (auto split: option.split)

lemma clean_query:
  assumes "users_undisturbed U" "\<And>t d. is_err (fst (q t d)) \<Longrightarrow> snd (q t d) = d"
  shows "clean (users_query U q)"
  using assms by (simp add: clean_def)

lemma readonly_query:
  assumes "users_undisturbed U" "\<And>t d. snd (q t d) = d"
  shows "readonly (users_query U q)" "readonly (or_internal (users_query U q))"
  using assms by (auto simp: keeps_def or_internal_def io_simps split: prod.splits sum.splits)

text \<open>A transaction that fails is rolled back; its body must not have mailed.\<close>

lemma clean_transaction:
  assumes "users_undisturbed U" "keeps same_mail body"
  shows "clean (users_transaction U body)"
  unfolding clean_def
proof (intro allI impI)
  fix w
  have "same_mail (w\<lparr>uw_tick := Suc (uw_tick w)\<rparr>) (snd (body (w\<lparr>uw_tick := Suc (uw_tick w)\<rparr>)))"
    using assms(2) by (rule keepsD)
  moreover assume "is_err (fst (users_transaction U body w))"
  ultimately show "untouched w (snd (users_transaction U body w))"
    by (auto simp: users_transaction_undisturbed [OF assms(1)] same_mail_def untouched_def split: prod.splits sum.splits)
qed

lemma mail_run: "keeps same_mail (users_run U q)" "keeps same_mail (users_now U)"
  by (auto intro!: keepsI simp: same_mail_def users_run_def io_simps Let_def split: db_fault.split)

lemma mail_internal: "keeps same_mail m \<Longrightarrow> keeps same_mail (or_internal m)"
  unfolding or_internal_def by (rule mail.keeps_map_err)

lemmas mail_structure =
  mail.keeps_bind mail.keeps_ret mail.keeps_lift mail_run mail_internal

lemma clean_audited: "clean m \<Longrightarrow> clean (audited U hs peer path action on_ok on_err meta m)"
  by (simp add: clean_def audited_run untouched_def)

lemma readonly_reads:
  "readonly users_tick" "readonly (users_now U)" "readonly (users_uuid U)" "readonly (users_random U)"
  "readonly (users_try_random U)"
  by (simp_all add: keeps_def io_simps)

lemma select_same: "snd (select_first f t d) = d" "snd (select_all g t d) = d" "snd (email_exists m t d) = d"
  "snd (beta_email_exists m t d) = d"
  by (simp_all add: email_exists_def beta_email_exists_def)

lemma insert_same:
  "is_err (fst (insert_session s d)) \<Longrightarrow> snd (insert_session s d) = d"
  "is_err (fst (insert_api_key k d)) \<Longrightarrow> snd (insert_api_key k d) = d"
  "is_err (fst (insert_user r d)) \<Longrightarrow> snd (insert_user r d) = d"
  "is_err (fst (insert_beta b d)) \<Longrightarrow> snd (insert_beta b d) = d"
  by (auto simp: insert_session_def insert_api_key_def insert_user_def insert_beta_def split: if_splits)

text \<open>An update that reports no row changed no row.\<close>

lemma clean_counted:
  assumes "users_undisturbed U" "\<And>t d. fst (q t d) = Inr 0 \<Longrightarrow> snd (q t d) = d" "\<And>t d. \<not> is_err (fst (q t d))"
  shows "clean (bind_io (or_internal (users_query U q)) (\<lambda>affected. if affected = (0 :: nat) then throw e else ret x))"
  unfolding clean_def
proof (intro allI impI)
  fix w :: users_world
  let ?q = "q (uw_tick w) (uw_db w)"
  obtain n where n: "fst ?q = Inr n" using assms(3) [of "uw_tick w" "uw_db w"] by (cases "fst ?q") auto
  assume "is_err (fst (bind_io (or_internal (users_query U q)) (\<lambda>affected. if affected = (0 :: nat) then throw e else ret x) w))"
  then show "untouched w (snd (bind_io (or_internal (users_query U q))
      (\<lambda>affected. if affected = (0 :: nat) then throw e else ret x) w))"
    using n assms(1) assms(2) [of "uw_tick w" "uw_db w"] by (auto simp: io_simps split: if_splits)
qed

lemma counted_stmts:
  "fst (revoke_by_token tok now t d) = Inr 0 \<Longrightarrow> snd (revoke_by_token tok now t d) = d"
  "fst (revoke_api_key_stmt i b now t d) = Inr 0 \<Longrightarrow> snd (revoke_api_key_stmt i b now t d) = d"
  "\<not> is_err (fst (revoke_by_token tok now t d))" "\<not> is_err (fst (revoke_api_key_stmt i b now t d))"
  by (auto simp: revoke_by_token_def revoke_api_key_stmt_def revoke_sessions_def Let_def filter_empty_conv
      map_update_id)

text \<open>A handler answers with the body of the inner result.\<close>

lemma clean_answer:
  "clean m \<Longrightarrow> clean (bind_io m (\<lambda>(a, b, c). ret (f a)))" "clean n \<Longrightarrow> clean (bind_io n (\<lambda>(a, b). ret (g a)))"
  by (auto intro!: clean_last simp: io_simps split: prod.split)

lemma clean_cases:
  "(xs = [] \<Longrightarrow> clean m) \<Longrightarrow> (\<And>y ys. xs = y # ys \<Longrightarrow> clean (f y ys)) \<Longrightarrow>
   clean (case xs of [] \<Rightarrow> m | y # ys \<Rightarrow> f y ys)"
  "clean k \<Longrightarrow> clean l \<Longrightarrow> clean r \<Longrightarrow>
   clean (case c of Hash_Unreadable \<Rightarrow> k | Password_Wrong \<Rightarrow> l | Password_Right \<Rightarrow> r)"
  "(\<And>a b. clean (g a b)) \<Longrightarrow> clean (case p of (a, b) \<Rightarrow> g a b)"
  by (auto split: list.split password_check.split prod.split)

text \<open>The last change of an operation, and the answer built from it.\<close>

lemma clean_final:
  "clean m \<Longrightarrow> clean (bind_io m (\<lambda>_. ret x))" "clean n \<Longrightarrow> clean (bind_io n (\<lambda>(a, b). ret (g a b)))"
  "clean m \<Longrightarrow> clean (bind_io m (\<lambda>_. bind_io (send_email U e) (\<lambda>_. ret x)))"
  by (auto intro!: clean_last simp: io_simps send_email_def split: prod.split)

lemmas readonly_structure =
  same_db.keeps_bind same_db.keeps_try same_db.keeps_if same_db.keeps_option same_db.keeps_ret
  same_db.keeps_throw same_db.keeps_lift readonly_reads

lemma clean_operations:
  assumes "users_undisturbed U"
  shows "clean (login U hs peer req)" "clean (refresh_token U hs peer tok)" "clean (revoke_token U hs peer tok)"
    "clean (create_api_key U hs peer ctx e)" "clean (revoke_api_key U hs peer ctx i)"
    "clean (reset_password U hs peer tok pw)" "clean (create_sdk_user U hs peer ako su)"
    "clean (apply_for_beta U hs peer app)"
proof -
  note read = readonly_query [OF assms] and query = clean_query [OF assms]
  note steps = clean_counted [OF assms] clean_final clean_map_err(1,2) query clean_bind clean_structure clean_cases
    clean_basic readonly_structure read
  have admin: "readonly (require_admin U ctx)" for ctx
    unfolding require_admin_def by (intro readonly_structure read select_same)
  have "clean (login_inner U req)"
    unfolding login_inner_def Let_def by (intro steps select_same insert_same)
  then show "clean (login U hs peer req)" unfolding login_def by (intro clean_answer clean_audited)
  have "clean (rotate_session U i s now)" for i s now
    unfolding rotate_session_def by (intro clean_transaction assms mail_structure)
  then have "clean (refresh_token_inner U tok)"
    unfolding refresh_token_inner_def Let_def by (intro steps select_same)
  then show "clean (refresh_token U hs peer tok)" unfolding refresh_token_def by (intro clean_answer clean_audited)
  have "clean (revoke_token_inner U tok)"
    unfolding revoke_token_inner_def by (intro steps select_same counted_stmts)
  then show "clean (revoke_token U hs peer tok)" unfolding revoke_token_def by (intro clean_answer clean_audited)
  have "clean (create_api_key_inner U ctx e)"
    unfolding create_api_key_inner_def Let_def by (intro admin steps select_same insert_same)
  then show "clean (create_api_key U hs peer ctx e)" unfolding create_api_key_def by (intro clean_answer clean_audited)
  have "clean (revoke_api_key_inner U ctx i)"
    unfolding revoke_api_key_inner_def by (intro admin steps counted_stmts)
  then show "clean (revoke_api_key U hs peer ctx i)" unfolding revoke_api_key_def by (intro clean_answer clean_audited)
  have "clean (reset_transaction U h ph)" for h ph
    unfolding reset_transaction_def prod.case_eq_if by (intro clean_transaction assms mail_structure)
  then have "clean (reset_password_inner U tok pw)"
    unfolding reset_password_inner_def Let_def by (intro steps)
  then show "clean (reset_password U hs peer tok pw)" unfolding reset_password_def by (intro clean_answer clean_audited)
  have "clean (create_sdk_user_inner U ako su)"
    unfolding create_sdk_user_inner_def by (intro steps select_same insert_same)
  then show "clean (create_sdk_user U hs peer ako su)" unfolding create_sdk_user_def Let_def by (rule clean_audited)
  have "clean (apply_for_beta_inner U app)"
    unfolding apply_for_beta_inner_def Let_def by (intro steps select_same insert_same)
  then show "clean (apply_for_beta U hs peer app)" unfolding apply_for_beta_def by (intro clean_answer clean_audited)
qed

text \<open>
  C30. A refusal changes nothing: if login, refresh, revocation, the creation or revocation of a key, a
  password reset, the creation of a user by key or a beta application answers an error, and neither
  faults nor other processes interfere, the tables are as before and no mail has been sent.
\<close>

theorem refused_changes_nothing:
  assumes "users_undisturbed U"
  shows "(is_err (fst (login U hs peer req w)) \<longrightarrow> untouched w (snd (login U hs peer req w))) \<and>
    (is_err (fst (refresh_token U hs peer tok w)) \<longrightarrow> untouched w (snd (refresh_token U hs peer tok w))) \<and>
    (is_err (fst (revoke_token U hs peer tok w)) \<longrightarrow> untouched w (snd (revoke_token U hs peer tok w))) \<and>
    (is_err (fst (create_api_key U hs peer ctx e w)) \<longrightarrow> untouched w (snd (create_api_key U hs peer ctx e w))) \<and>
    (is_err (fst (revoke_api_key U hs peer ctx i w)) \<longrightarrow> untouched w (snd (revoke_api_key U hs peer ctx i w))) \<and>
    (is_err (fst (reset_password U hs peer tok pw w)) \<longrightarrow> untouched w (snd (reset_password U hs peer tok pw w))) \<and>
    (is_err (fst (create_sdk_user U hs peer ako su w)) \<longrightarrow> untouched w (snd (create_sdk_user U hs peer ako su w))) \<and>
    (is_err (fst (apply_for_beta U hs peer app w)) \<longrightarrow> untouched w (snd (apply_for_beta U hs peer app w)))"
  using clean_operations [OF assms] by (simp add: clean_def)

theorem refused_changes_nothing_witness:
  "is_err (fst (login demo_users [] [] \<lparr>lr_email = u ''a@b'', lr_password = u ''wrong'', lr_environment_id = None\<rparr> demo_users_world)) \<and>
   untouched demo_users_world
     (snd (login demo_users [] [] \<lparr>lr_email = u ''a@b'', lr_password = u ''wrong'', lr_environment_id = None\<rparr>
       demo_users_world))"
proof -
  let ?req = "\<lparr>lr_email = u ''a@b'', lr_password = u ''wrong'', lr_environment_id = None\<rparr>"
  have email: "normalize_email (u ''a@b'') = u ''a@b''"
    by (simp add: normalize_email_def to_lower_def lower_cp_def u_def trim_def trim_start_def trim_end_def is_ws_def)
  have "is_err (fst (login_inner demo_users ?req demo_users_world))"
    by (simp add: login_inner_def email demo_run_simps active_users_by_email_def demo_users_defs)
  then have "is_err (fst (login demo_users [] [] ?req demo_users_world))"
    by (auto simp: login_def io_simps audited_run is_err_def split: sum.splits prod.splits) (metis audited_run(1) fst_conv sum.distinct(1))
  with refused_changes_nothing [OF demo_users_undisturbed, THEN conjunct1, rule_format] show ?thesis
    by blast
qed

section \<open>Refresh\<close>








section \<open>Login\<close>

text \<open>The environments offered at login, in the order of their type.\<close>

definition offered :: "uuid \<Rightarrow> users_db \<Rightarrow> environment_info list" where
  "offered b d = sort_key ei_type (map (\<lambda>e. \<lparr>ei_id = env_id e, ei_type = env_type e\<rparr>) (active_environments b d))"

text \<open>What must hold besides the check of the user: the token library encodes, and the identifier drawn
  for the session is free.\<close>

definition tokens_work :: "users_params \<Rightarrow> users_db \<Rightarrow> bool" where
  "tokens_work U d \<longleftrightarrow> (\<forall>s c. up_jwt_encode U s c \<noteq> None) \<and> (\<forall>t. up_uuid U t \<notin> ses_id ` set (t_sessions d))"

lemma login_inner_decides:
  assumes "users_undisturbed U" "users_ok (uw_db w)" "tokens_work U (uw_db w)"
    and r: "r \<in> set (t_users (uw_db w))" "usr_email r = normalize_email (lr_email req)" "usr_status r = u ''active''"
    and env: "usr_environment_id r \<in> env_id ` set (t_environments (uw_db w))"
  shows "(case login_inner U req w of
      (Inr (lr, uid, bid), w') \<Rightarrow>
        up_verify U (usr_password_hash r) (lr_password req) = Password_Right \<and>
        active_environments (usr_business_id r) (uw_db w) \<noteq> [] \<and>
        select_environment (lr_environment_id req) (offered (usr_business_id r) (uw_db w)) = usr_environment_id r \<and>
        uid = usr_id r \<and> bid = usr_business_id r \<and>
        (\<exists>i j now. uw_db w' = (uw_db w)\<lparr>t_sessions := t_sessions (uw_db w) @
          [new_session i (usr_id r) (usr_environment_id r) (lo_refresh_token lr) j now]\<rparr>)
    | (Inl e, w') \<Rightarrow>
        e \<in> {U_Unauthorized, U_Internal} \<and>
        (up_verify U (usr_password_hash r) (lr_password req) \<noteq> Password_Right \<or>
         active_environments (usr_business_id r) (uw_db w) = [] \<or>
         select_environment (lr_environment_id req) (offered (usr_business_id r) (uw_db w)) \<noteq> usr_environment_id r))"
proof -
  have rows: "active_users_by_email (normalize_email (lr_email req)) (uw_db w) = [r]"
    unfolding active_users_by_email_def
    by (rule filter_unique [where k = usr_email]) (use assms(2) r in \<open>auto simp: users_ok_def keys_unique_def\<close>)
  have user: "usr_id r \<in> usr_id ` set (t_users (uw_db w))" using r(1) by blast
  have fresh: "up_uuid U t \<notin> ses_id ` set (t_sessions (uw_db w))" and encodes: "up_jwt_encode U s c \<noteq> None" for s c t
    using assms(3) by (auto simp: tokens_work_def)
  show ?thesis
  proof (cases "up_verify U (usr_password_hash r) (lr_password req) = Password_Right \<and>
      active_environments (usr_business_id r) (uw_db w) \<noteq> [] \<and>
      select_environment (lr_environment_id req) (offered (usr_business_id r) (uw_db w)) = usr_environment_id r")
    case False
    then show ?thesis
      using assms(1) r(3)
      by (auto simp: login_inner_def rows Let_def io_simps offered_def split: password_check.split)
  next
    case True
    have jwt: "\<exists>t. up_jwt_encode U s c = Some t" for s c using encodes [of s c] by blast
    obtain t where t: "up_jwt_encode U (env_or U ''JWT_SECRET'' ''dev_secret'')
      (access_claims U (usr_id r) (usr_environment_id r) (usr_business_id r)
        (up_uuid_str U (up_uuid U (Suc (Suc (uw_tick w))))) (up_clock U (Suc (Suc (Suc (uw_tick w)))))) = Some t"
      using jwt by blast
    show ?thesis
      using True assms(1) r(3) user env fresh t
      by (simp add: login_inner_def rows Let_def io_simps offered_def [symmetric] encode_access_token_def
          insert_session_def new_session_def) blast
  qed
qed

definition login_allowed :: "users_params \<Rightarrow> login_request \<Rightarrow> user_row \<Rightarrow> users_db \<Rightarrow> bool" where
  "login_allowed U req r d \<longleftrightarrow>
     up_verify U (usr_password_hash r) (lr_password req) = Password_Right \<and>
     active_environments (usr_business_id r) d \<noteq> [] \<and>
     select_environment (lr_environment_id req) (offered (usr_business_id r) d) = usr_environment_id r"

lemma select_offered:
  assumes "e \<in> set (active_environments b d)"
  shows "select_environment (Some (env_id e)) (offered b d) = env_id e"
  using assms by (force simp: select_environment_def offered_def list_ex_iff Let_def)

text \<open>
  C32. Login decides by three things: for the one active user of the address, it succeeds exactly if the
  password is right, the business has an active environment, and the selected environment is the one the
  user belongs to. Success adds one active session of that user, for 30 days, and nothing else; failure
  is 401 (or 500 for an unreadable hash) and changes nothing. In particular a user cannot log in to
  another environment of the business, though login offers it.
\<close>

theorem login_decides:
  assumes "users_undisturbed U" "users_ok (uw_db w)" "tokens_work U (uw_db w)"
    and "r \<in> set (t_users (uw_db w))" "usr_email r = normalize_email (lr_email req)" "usr_status r = u ''active''"
    and "usr_environment_id r \<in> env_id ` set (t_environments (uw_db w))"
  shows "(if login_allowed U req r (uw_db w)
      then \<exists>lr w' i j now. login U hs peer req w = (Inr lr, w') \<and>
        uw_db w' = (uw_db w)\<lparr>t_sessions := t_sessions (uw_db w) @
          [new_session i (usr_id r) (usr_environment_id r) (lo_refresh_token lr) j now]\<rparr>
      else \<exists>e w'. login U hs peer req w = (Inl e, w') \<and> e \<in> {U_Unauthorized, U_Internal} \<and> uw_db w' = uw_db w) \<and>
    (e \<in> set (active_environments (usr_business_id r) (uw_db w)) \<and> env_id e \<noteq> usr_environment_id r \<and>
       lr_environment_id req = Some (env_id e) \<longrightarrow> \<not> login_allowed U req r (uw_db w))"
proof
  obtain res v where inner: "login_inner U req w = (res, v)" by (cases "login_inner U req w") auto
  note decides = login_inner_decides [OF assms, unfolded inner]
  let ?m = "audited U hs peer (u ''/api/v1/auth/login'') (u ''users.auth.login'')
       (\<lambda>(lr, uid, bid). user_subject U uid bid) (anonymous_subject ''user'') [] (login_inner U req)"
  have run: "fst (?m w) = res" "uw_db (snd (?m w)) = uw_db v" using inner by (simp_all add: audited_run)
  show "if login_allowed U req r (uw_db w)
      then \<exists>lr w' i j now. login U hs peer req w = (Inr lr, w') \<and>
        uw_db w' = (uw_db w)\<lparr>t_sessions := t_sessions (uw_db w) @
          [new_session i (usr_id r) (usr_environment_id r) (lo_refresh_token lr) j now]\<rparr>
      else \<exists>e w'. login U hs peer req w = (Inl e, w') \<and> e \<in> {U_Unauthorized, U_Internal} \<and> uw_db w' = uw_db w"
  proof (cases res)
    case (Inl x)
    then have login: "login U hs peer req w = (Inl x, snd (?m w))"
      using run(1) by (cases "?m w") (simp add: login_def io_simps)
    then have "uw_db (snd (?m w)) = uw_db w"
      using clean_operations(1) [OF assms(1), of hs peer req, unfolded clean_def, rule_format, of w]
      by (simp add: untouched_def)
    with login show ?thesis using decides Inl by (auto simp: login_allowed_def)
  next
    case (Inr x)
    obtain lr uid bid where x: "x = (lr, uid, bid)" by (cases x) auto
    then have login: "login U hs peer req w = (Inr lr, snd (?m w))"
      using run(1) Inr by (cases "?m w") (simp add: login_def io_simps)
    then show ?thesis using decides Inr x run(2) by (auto simp: login_allowed_def)
  qed
  show "e \<in> set (active_environments (usr_business_id r) (uw_db w)) \<and> env_id e \<noteq> usr_environment_id r \<and>
       lr_environment_id req = Some (env_id e) \<longrightarrow> \<not> login_allowed U req r (uw_db w)"
    using select_offered by (auto simp: login_allowed_def)
qed

lemma demo_email: "normalize_email (u ''a@b'') = u ''a@b''"
  by (simp add: normalize_email_def to_lower_def lower_cp_def u_def trim_def trim_start_def trim_end_def is_ws_def)

text \<open>Login to production by the administrator of the demo business.\<close>

theorem login_decides_witness:
  "\<not> login_allowed (demo_users\<lparr>up_uuid := \<lambda>_. 9\<rparr>)
     \<lparr>lr_email = u ''a@b'', lr_password = u ''password1'', lr_environment_id = Some 3\<rparr> demo_admin demo_tables"
proof -
  let ?U = "demo_users\<lparr>up_uuid := \<lambda>_. 9\<rparr>"
  let ?req = "\<lparr>lr_email = u ''a@b'', lr_password = u ''password1'', lr_environment_id = Some 3\<rparr>"
  let ?e = "new_environment 3 1 ''production'' 0"
  have "users_undisturbed ?U" by (simp add: users_undisturbed_def id_def)
  moreover have "users_ok (uw_db demo_users_world)" by (simp add: demo_users_world_def)
  moreover have "tokens_work ?U (uw_db demo_users_world)" by (simp add: tokens_work_def demo_users_defs)
  moreover have "demo_admin \<in> set (t_users (uw_db demo_users_world))"
    "usr_environment_id demo_admin \<in> env_id ` set (t_environments (uw_db demo_users_world))"
    "usr_status demo_admin = u ''active''" "usr_email demo_admin = normalize_email (lr_email ?req)"
    by (simp_all add: demo_users_defs demo_email)
  moreover have "?e \<in> set (active_environments (usr_business_id demo_admin) (uw_db demo_users_world))"
    by (simp add: active_environments_def demo_users_defs)
  moreover have "env_id ?e \<noteq> usr_environment_id demo_admin" "lr_environment_id ?req = Some (env_id ?e)"
    by (simp_all add: demo_admin_def new_environment_def)
  ultimately have "\<not> login_allowed ?U ?req demo_admin (uw_db demo_users_world)"
    using login_decides [of ?U demo_users_world demo_admin ?req "[]" "[]" ?e] by blast
  then show ?thesis by (simp add: demo_users_world_def)
qed

section \<open>Registration\<close>

lemma met_undisturbed [simp]: "users_undisturbed U \<Longrightarrow> met U w = uw_db w"
  by (simp add: met_def users_undisturbed_def)

definition registered ::
  "register_business_request \<Rightarrow> register_business_response \<Rightarrow> users_db \<Rightarrow> users_db \<Rightarrow> bool" where
  "registered req r d d' \<longleftrightarrow>
     (\<exists>p now h i j later.
        d' = (create_business_rows (new_business (rr_business_id r) req now)
            (new_environment (rr_selected_environment_id r) (rr_business_id r) ''sandbox'' now)
            (new_environment p (rr_business_id r) ''production'' now)
            (new_admin (rr_admin_user_id r) (rr_business_id r) (rr_selected_environment_id r) req
              (normalize_email (rb_admin_email req)) h now) d)
          \<lparr>t_sessions := t_sessions d @
            [new_session i (rr_admin_user_id r) (rr_selected_environment_id r) (rr_refresh_token r) j later]\<rparr> \<and>
        rr_environments r = [\<lparr>ei_id = rr_selected_environment_id r, ei_type = u ''sandbox''\<rparr>,
          \<lparr>ei_id = p, ei_type = u ''production''\<rparr>])"

lemma register_inner_Inr:
  assumes "users_undisturbed U" "register_business_inner U req w = (Inr r, w')"
  shows "registered req r (uw_db w) (uw_db w') \<and> normalize_email (rb_admin_email req) \<noteq> [] \<and>
    normalize_email (rb_admin_email req) \<notin> usr_email ` set (t_users (uw_db w))"
proof -
  let ?email = "normalize_email (rb_admin_email req)"
  let ?w = "w\<lparr>uw_tick := Suc (uw_tick w)\<rparr>"
  have nonempty: "?email \<noteq> []"
    using assms(2) by (auto simp: register_business_inner_def Let_def throw_apply)
  have free: "?email \<notin> usr_email ` set (t_users (uw_db w))"
    using assms nonempty
    by (auto simp: register_business_inner_def Let_def success_simps users_query_Inr email_exists_def list_ex_iff
        split: if_splits)
  obtain b s p a v where tx: "create_business_tx U req ?email ?w = (Inr (b, s, p, a), v)"
    and r: "rr_business_id r = b" "rr_selected_environment_id r = s" "rr_admin_user_id r = a"
      "rr_environments r = [\<lparr>ei_id = s, ei_type = u ''sandbox''\<rparr>, \<lparr>ei_id = p, ei_type = u ''production''\<rparr>]"
    and session: "\<exists>i j later. uw_db w' = snd (insert_session (new_session i a s (rr_refresh_token r) j later) (uw_db v)) \<and>
      fst (insert_session (new_session i a s (rr_refresh_token r) j later) (uw_db v)) = Inr ()"
    using assms nonempty free
    by (auto simp: register_business_inner_def Let_def success_simps users_query_Inr email_exists_def list_ex_iff
        split: if_splits) blast
  obtain z where body: "create_business_body U req ?email (?w\<lparr>uw_db := met U ?w, uw_tick := Suc (uw_tick ?w)\<rparr>) = (Inr (b, s, p, a), z)"
    "uw_db v = uw_db z"
    using tx unfolding create_business_tx_def by (rule users_transaction_Inr)
  obtain now h where rows: "uw_db z = create_business_rows (new_business b req now) (new_environment s b ''sandbox'' now)
       (new_environment p b ''production'' now) (new_admin a b s req ?email h now) (uw_db w)"
    using body(1) assms(1) by (auto elim!: create_business_body_Inr)
  obtain i j later where "uw_db w' = snd (insert_session (new_session i a s (rr_refresh_token r) j later) (uw_db v))"
      "fst (insert_session (new_session i a s (rr_refresh_token r) j later) (uw_db v)) = Inr ()"
    using session by blast
  then have "uw_db w' = (uw_db v)\<lparr>t_sessions := t_sessions (uw_db v) @ [new_session i a s (rr_refresh_token r) j later]\<rparr>"
    by (auto simp: insert_session_def split: if_splits)
  then have "registered req r (uw_db w) (uw_db w')"
    unfolding registered_def using rows body(2) r
    by (intro exI [of _ p] exI [of _ now] exI [of _ h] exI [of _ i] exI [of _ j] exI [of _ later])
      (simp add: create_business_rows_def)
  with nonempty free show ?thesis by blast
qed

text \<open>
  C33. Registration creates one business per address: a success adds exactly one business, its sandbox and
  production environments, its administrator (in the sandbox only) and a session, under an address nobody
  had; an address that is taken, in whatever case or padding, is a conflict and changes nothing.
\<close>

theorem registration:
  assumes "users_undisturbed U"
  shows "(register_business U hs peer req w = (Inr r, w') \<longrightarrow>
      registered req r (uw_db w) (uw_db w') \<and>
      normalize_email (rb_admin_email req) \<notin> usr_email ` set (t_users (uw_db w)) \<and>
      normalize_email (rb_admin_email req) \<in> usr_email ` set (t_users (uw_db w'))) \<and>
    (normalize_email (rb_admin_email req) \<noteq> [] \<and>
     normalize_email (rb_admin_email req) \<in> usr_email ` set (t_users (uw_db w)) \<longrightarrow>
      fst (register_business U hs peer req w) = Inl (U_Conflict DUPLICATE_EMAIL_MESSAGE) \<and>
      uw_db (snd (register_business U hs peer req w)) = uw_db w)"
proof (intro conjI impI)
  assume "register_business U hs peer req w = (Inr r, w')"
  then obtain v where inner: "register_business_inner U req w = (Inr r, v)" "uw_db w' = uw_db v"
    unfolding register_business_def by (rule audited_Inr)
  note effect = register_inner_Inr [OF assms inner(1)]
  show "registered req r (uw_db w) (uw_db w')" using effect inner(2) by simp
  then show "normalize_email (rb_admin_email req) \<in> usr_email ` set (t_users (uw_db w'))"
    by (auto simp: registered_def create_business_rows_def new_admin_def)
  show "normalize_email (rb_admin_email req) \<notin> usr_email ` set (t_users (uw_db w))" using effect by blast
next
  assume taken: "normalize_email (rb_admin_email req) \<noteq> [] \<and>
     normalize_email (rb_admin_email req) \<in> usr_email ` set (t_users (uw_db w))"
  then have "register_business_inner U req w = (Inl (U_Conflict DUPLICATE_EMAIL_MESSAGE), w\<lparr>uw_tick := Suc (uw_tick w)\<rparr>)"
    using assms by (auto simp: register_business_inner_def Let_def io_simps email_exists_def list_ex_iff)
  then show "fst (register_business U hs peer req w) = Inl (U_Conflict DUPLICATE_EMAIL_MESSAGE)"
    "uw_db (snd (register_business U hs peer req w)) = uw_db w"
    by (simp_all add: register_business_def audited_run)
qed

definition demo_registration :: register_business_request where
  "demo_registration = \<lparr>rb_name = u ''Two'', rb_website = None, rb_admin_first_name = u ''C'', rb_admin_last_name = u ''D'',
     rb_admin_email = u ''c@d'', rb_admin_password = u ''password3''\<rparr>"

lemma demo_register_run: "\<exists>r w'. register_business demo_users [] [] demo_registration demo_users_world = (Inr r, w')"
proof -
  have email: "normalize_email (u ''c@d'') = u ''c@d''"
    by (simp add: normalize_email_def to_lower_def lower_cp_def u_def trim_def trim_start_def trim_end_def is_ws_def)
  have "\<exists>r w'. register_business_inner demo_users demo_registration demo_users_world = (Inr r, w')"
    by (simp add: register_business_inner_def create_business_tx_def create_business_body_def
        users_transaction_undisturbed demo_run_simps email email_exists_def demo_registration_def insert_business_def
        insert_environment_def insert_user_def insert_session_def encode_access_token_def access_claims_def
        new_business_def new_admin_def demo_users_defs)
  then show ?thesis
    by (auto simp: register_business_def audited_def bind_io_Inr try_io_apply emit_users_mutation_def ret_apply)
qed

theorem registration_witness:
  "\<exists>r w'. register_business demo_users [] [] demo_registration demo_users_world = (Inr r, w') \<and>
     registered demo_registration r demo_tables (uw_db w')"
proof -
  obtain r w' where run: "register_business demo_users [] [] demo_registration demo_users_world = (Inr r, w')"
    using demo_register_run by blast
  from registration [OF demo_users_undisturbed, THEN conjunct1, rule_format, OF run] run
  show ?thesis by (auto simp: demo_users_world_def)
qed

end
