(* ===== verification/System.thy ===== *)
theory System
  imports Handler_Spec Users_Session_Spec Audit_Spec
begin

text \<open>
  The services together: accounts and audit ask the users service who is behind an API key
  (\<^verbatim>\<open>proto/users.proto\<close>). The remote users service, a parameter of the accounts and of the
  audit model, becomes the model of the users service; what the three do together follows from what each
  of them guarantees. The other half of the surroundings (the ledger) stays a parameter.
\<close>

section \<open>The wiring\<close>

text \<open>A call by gRPC: the surroundings are the world of the users service and the rest.\<close>

definition users_rpc ::
  "(users_world \<Rightarrow> (grpc_status + 'r) \<times> users_world) \<Rightarrow> users_world \<times> 'l \<Rightarrow> (grpc_status + 'r) \<times> (users_world \<times> 'l)" where
  "users_rpc m x = (fst (m (fst x)), (snd (m (fst x)), snd x))"

definition accounts_on :: "users_params \<Rightarrow> (users_world \<times> 'l) params \<Rightarrow> (users_world \<times> 'l) params" where
  "accounts_on U P = P\<lparr>
     p_validate_key := \<lambda>key env. users_rpc (grpc_validate_api_key U key env),
     p_resolve_user := \<lambda>key env email first_name last_name.
       users_rpc (grpc_resolve_account_user U key env email first_name last_name)\<rparr>"

definition audit_on :: "users_params \<Rightarrow> (users_world \<times> 'l) audit_params \<Rightarrow> (users_world \<times> 'l) audit_params" where
  "audit_on U Q = Q\<lparr>q_validate_key := \<lambda>key env. users_rpc (grpc_validate_api_key U key env)\<rparr>"

lemma accounts_on_simps [simp]:
  "undisturbed (accounts_on U P) = undisturbed P" "p_uuid_parse (accounts_on U P) = p_uuid_parse P"
  "p_resolve_user (accounts_on U P) = (\<lambda>key env email first_name last_name.
     users_rpc (grpc_resolve_account_user U key env email first_name last_name))"
  by (simp_all add: accounts_on_def undisturbed_def)

lemma audit_on_simps [simp]:
  "q_codec (audit_on U Q) = q_codec Q" "q_internal_token (audit_on U Q) = q_internal_token Q"
  "q_validate_key (audit_on U Q) = (\<lambda>key env. users_rpc (grpc_validate_api_key U key env))"
  by (simp_all add: audit_on_def)

text \<open>What one service writes as a UUID the others read.\<close>

definition reads_uuids :: "(str \<Rightarrow> uuid option) \<Rightarrow> users_params \<Rightarrow> bool" where
  "reads_uuids parse U \<longleftrightarrow> (\<forall>i. parse (up_uuid_str U i) = Some i)"

abbreviation users_side :: "(users_world \<times> 'l) world \<Rightarrow> users_world" where
  "users_side w \<equiv> fst (w_ext w)"

section \<open>The calls\<close>

definition named_user :: "str \<Rightarrow> str \<Rightarrow> str \<Rightarrow> user_row \<Rightarrow> bool" where
  "named_user email first_name last_name r \<longleftrightarrow> usr_email r = normalize_email email \<and>
     usr_first_name r = trim first_name \<and> usr_last_name r = trim last_name"

lemma resolve_user_call:
  assumes "users_lawful U" "reads_uuids (p_uuid_parse P) U"
    and "resolve_account_user_for_api_key (accounts_on U P) key env email first_name last_name w = (Inr r, w')"
  shows "acting U (\<lambda>v. v = users_side w) key env (named_user email first_name last_name)
      (up_uuid_str U (rau_business_id r), up_uuid_str U (rau_environment_id r), up_uuid_str U (rau_user_id r))
      (users_side w') \<and> w_db w' = w_db w"
proof -
  let ?m = "grpc_resolve_account_user U key env email first_name last_name"
  from assms(3) obtain b e i where ids: "fst (?m (users_side w)) = Inr (b, e, i)"
    and w': "w' = w\<lparr>w_ext := (snd (?m (users_side w)), snd (w_ext w)), w_tick := Suc (w_tick w)\<rparr>"
    and parsed: "p_uuid_parse P b = Some (rau_business_id r)" "p_uuid_parse P e = Some (rau_environment_id r)"
      "p_uuid_parse P i = Some (rau_user_id r)"
    by (auto simp: resolve_account_user_for_api_key_def bind_io_Inr users_call_def Let_def users_rpc_def
        lift_result_apply ret_apply parse_uuid_field_def ok_or_Inr split: sum.splits)
  have "?m (users_side w) = (Inr (b, e, i), users_side w')" using ids w' by (simp add: prod_eq_iff)
  from succeedsD [OF grpc_succeeds(2) [where P = "\<lambda>v. v = users_side w", OF assms(1)] this refl]
  have act: "acting U (\<lambda>v. v = users_side w) key env (named_user email first_name last_name) (b, e, i) (users_side w')"
    unfolding named_user_def .
  then obtain b' e' i' where written: "(b, e, i) = (up_uuid_str U b', up_uuid_str U e', up_uuid_str U i')"
    unfolding acting_def by blast
  then have "b' = rau_business_id r" "e' = rau_environment_id r" "i' = rau_user_id r"
    using parsed assms(2) by (auto simp: reads_uuids_def)
  then show ?thesis using act written w' by simp
qed

lemma resolve_user_db: "w_db (snd (resolve_account_user_for_api_key P key env email first_name last_name w)) = w_db w"
  by (auto simp: resolve_account_user_for_api_key_def io_simps users_call_def Let_def split: sum.split prod.split)

lemma audit_key_call:
  assumes "users_lawful U" "reads_uuids (c_uuid_parse (q_codec Q)) U"
    and "audit_validate_api_key (audit_on U Q) key env w = (Inr (b, e, a), w')"
  shows "acting U (\<lambda>v. v = fst (aw_ext w)) key env (\<lambda>r. usr_role r = u ''admin'')
      (up_uuid_str U b, up_uuid_str U e, up_uuid_str U a) (fst (aw_ext w'))"
proof -
  let ?m = "grpc_validate_api_key U key env"
  from assms(3) obtain x y z where ids: "fst (?m (fst (aw_ext w))) = Inr (x, y, z)"
    and w': "fst (aw_ext w') = snd (?m (fst (aw_ext w)))"
    and parsed: "c_uuid_parse (q_codec Q) x = Some b" "c_uuid_parse (q_codec Q) y = Some e"
      "c_uuid_parse (q_codec Q) z = Some a"
    by (auto simp: audit_validate_api_key_def bind_io_Inr users_rpc_def lift_result_apply ret_apply ok_or_Inr
        split: sum.splits)
  have "?m (fst (aw_ext w)) = (Inr (x, y, z), fst (aw_ext w'))" using ids w' by (simp add: prod_eq_iff)
  from succeedsD [OF grpc_succeeds(1) [where P = "\<lambda>v. v = fst (aw_ext w)", OF assms(1)] this refl]
  have act: "acting U (\<lambda>v. v = fst (aw_ext w)) key env (\<lambda>r. usr_role r = u ''admin'') (x, y, z) (fst (aw_ext w'))" .
  then obtain b' e' a' where written: "(x, y, z) = (up_uuid_str U b', up_uuid_str U e', up_uuid_str U a')"
    unfolding acting_def by blast
  then have "b' = b" "e' = e" "a' = a" using parsed assms(2) by (auto simp: reads_uuids_def)
  then show ?thesis using act written by simp
qed

lemma scope_by_key:
  assumes "resolve_list_scope Q hs query w = (Inr (org, env), w')"
    and "trimmed_header hs (u ''x-internal-service-token'') = None"
  obtains key e a where "trimmed_header hs (u ''x-api-key'') = Some key"
    "audit_validate_api_key Q key env w = (Inr (org, e, a), w')"
  using assms
  by (auto simp: resolve_list_scope_def bind_io_Inr lift_result_apply ret_apply map_err_io_Inr ok_or_Inr Let_def)

section \<open>Accounts for key holders\<close>

text \<open>Account creation itself leaves the other services alone.\<close>

definition same_ext :: "'x world \<Rightarrow> 'x world \<Rightarrow> bool" where
  "same_ext w w' \<longleftrightarrow> w_ext w' = w_ext w"

interpretation apart: run_preorder same_ext
  by unfold_locales (simp_all add: same_ext_def)

lemma statements_apart: "keeps same_ext (db_query P q)" "keeps same_ext tick"
  by (simp_all add: keeps_def same_ext_def db_query_frame tick_def)

lemma creation_apart: "keeps same_ext (create_account_for_existing_user P req org env us)"
proof -
  have "keeps same_ext (generate_attempts P n k)" for n k
    by (induction k) (auto simp: random_account_number_with_luhn_def account_number_exists_def Let_def
        intro!: apart.keeps_bind apart.keeps_if apart.keeps_option statements_apart)
  then show ?thesis
    by (auto simp: create_account_for_existing_user_def count_by_user_and_type_def generate_account_number_def
        create_account_row_def Let_def
        intro!: apart.keeps_bind apart.keeps_if apart.keeps_option apart.keeps_sum apart.keeps_try statements_apart)
qed

lemma create_account_parts:
  assumes "create_account P hs peer request w = (Inr (code, resp), w')"
  obtains env key r w1 account w2 where
    "extract_environment hs = Inr env" "extract_api_key hs = Some key"
    "resolve_account_user_for_api_key P key env (car_email request) (car_first_name request) (car_last_name request) w
       = (Inr r, w1)"
    "create_account_for_existing_user P request (rau_business_id r) env (rau_user_id r) w1 = (Inr account, w2)"
    "code = 201" "resp = account_response_from account" "w_db w' = w_db w2" "w_ext w' = w_ext w2"
proof -
  obtain env where env: "extract_environment hs = Inr env"
    using assms by (auto simp: create_account_def Let_def bind_io_Inr lift_result_apply)
  obtain key where key: "extract_api_key hs = Some key"
    using assms by (auto simp: create_account_def Let_def bind_io_Inr lift_result_apply ok_or_Inr)
  obtain res w1 where resolve: "resolve_account_user_for_api_key P key env (car_email request)
      (car_first_name request) (car_last_name request) w = (res, w1)" by fastforce
  show thesis
  proof (cases res)
    case (Inl e)
    then show thesis
      using assms env key resolve
      by (auto simp: create_account_def Let_def bind_io_Inr lift_result_apply ok_or_Inr try_io_apply ret_apply
          throw_apply split: if_splits)
  next
    case (Inr r)
    obtain made w2 where create:
      "create_account_for_existing_user P request (rau_business_id r) env (rau_user_id r) w1 = (made, w2)" by fastforce
    have "\<exists>account. made = Inr account \<and> code = 201 \<and> resp = account_response_from account \<and>
        w_db w' = w_db w2 \<and> w_ext w' = w_ext w2"
      using assms env key resolve Inr create
      by (auto simp: create_account_def Let_def bind_io_Inr lift_result_apply ok_or_Inr try_io_apply ret_apply
          throw_apply spawn_audit_emit_def split: if_splits sum.splits option.splits)
        (metis emit_frame snd_conv)+
    with env key resolve Inr create that show thesis by blast
  qed
qed

text \<open>
  C34. An account belongs to who the users service says. When the accounts service, alone on its
  database, opens an account on a request with an API key, then that key was active, not revoked and of
  the business that owns the account, the environment was an active one of that business and of the
  requested type, and the owner was an active user there with the requested address and names;
  and exactly this account is new in the table.
\<close>

theorem account_for_key_holder:
  assumes "undisturbed P" "users_lawful U" "reads_uuids (p_uuid_parse P) U"
    and "create_account (accounts_on U P) hs peer request w = (Inr (code, resp), w')"
  shows "\<exists>key env b e i row. extract_api_key hs = Some key \<and> extract_environment hs = Inr env \<and> code = 201 \<and>
    acting U (\<lambda>v. v = users_side w) key env
      (named_user (car_email request) (car_first_name request) (car_last_name request))
      (up_uuid_str U b, up_uuid_str U e, up_uuid_str U i) (users_side w') \<and>
    ar_organization_id resp = Some b \<and> ar_user_id resp = Some i \<and> ar_environment resp = env \<and>
    ar_status resp = Active \<and>
    db_accounts (w_db w') = db_accounts (w_db w) @ [row] \<and> a_organization_id row = Some b \<and>
    a_user_id row = Some i \<and> a_environment row = env \<and> a_account_number row = ar_account_number resp"
proof -
  from assms(4) obtain env key r w1 account w2 where
    hs: "extract_environment hs = Inr env" "extract_api_key hs = Some key" and
    resolve: "resolve_account_user_for_api_key (accounts_on U P) key env (car_email request) (car_first_name request)
      (car_last_name request) w = (Inr r, w1)" and
    create: "create_account_for_existing_user (accounts_on U P) request (rau_business_id r) env (rau_user_id r) w1
      = (Inr account, w2)" and
    out: "code = 201" "resp = account_response_from account" "w_db w' = w_db w2" "w_ext w' = w_ext w2"
    by (rule create_account_parts)
  note who = resolve_user_call [OF assms(2,3) resolve]
  have "w_ext w2 = w_ext w1"
    using keepsD [OF creation_apart, of w1 "accounts_on U P" request "rau_business_id r" env "rau_user_id r"] create
    by (simp add: same_ext_def)
  moreover have P: "undisturbed (accounts_on U P)" using assms(1) by simp
  obtain n k where made: "acc_user_id account = Some (rau_user_id r)" "acc_status account = Some Active"
    "acc_organization_id account = Some (rau_business_id r)" "acc_environment account = Some env"
    "db_accounts (w_db w2) = db_accounts (w_db w1) @ [new_account_row n k (acc_account_number account)
       (car_account_type request) (Some (rau_business_id r)) env (rau_user_id r) (car_currency request)]"
    using create_account_eval [OF P create] by (auto simp: is_err_def)
  ultimately show ?thesis
    using hs out who
    by (intro exI [of _ key] exI [of _ env] exI [of _ "rau_business_id r"] exI [of _ "rau_environment_id r"]
        exI [of _ "rau_user_id r"]) (simp add: account_response_from_def new_account_row_def)
qed

text \<open>The demo business opens an account for its administrator.\<close>

definition demo_surroundings :: "'x params" where
  "demo_surroundings =
     \<lparr>p_other = (\<lambda>_. id), p_fault = (\<lambda>_. No_Fault), p_clock = int, p_uuid = (\<lambda>t. of_nat (100 + t)),
      p_locked = (\<lambda>_ _. False), p_constraint_error = [], p_uuid_str = (\<lambda>i. show_nat (unat i)),
      p_uuid_parse = (\<lambda>s. map_option of_nat (parse_digits s)), p_rfc3339 = (\<lambda>_. []),
      p_digits = (\<lambda>t k. t + k), p_luhn = (\<lambda>_. Some 48), p_env_var = (\<lambda>_. None), p_connect = (\<lambda>_. Connected),
      p_post = Pair \<circ> (\<lambda>_. Timed_Out), p_balance = Pair \<circ> (\<lambda>_. Timed_Out), p_balances = Pair \<circ> (\<lambda>_. Timed_Out),
      p_validate_key = (\<lambda>_ _ x. (Inr ([], [], []), x)), p_resolve_user = (\<lambda>_ _ _ _ _ x. (Inr ([], [], []), x)),
      p_audit_client = False\<rparr>"

definition demo_system :: "(users_world \<times> unit) world" where
  "demo_system = \<lparr>w_db = \<lparr>db_accounts = [], db_transactions = []\<rparr>, w_ext = (demo_users_world, ()),
     w_channel = False, w_posts = [], w_audit = [], w_tick = 0\<rparr>"

definition demo_headers :: headers where
  "demo_headers = [(u ''x-environment'', u ''sandbox''), (u ''x-api-key'', u ''k'')]"

lemma demo_surroundings_ok:
  "undisturbed demo_surroundings" "reads_uuids (p_uuid_parse demo_surroundings) demo_users"
  by (simp_all add: undisturbed_def demo_surroundings_def reads_uuids_def)

lemma demo_headers_simps:
  "extract_environment demo_headers = Inr (u ''sandbox'')" "extract_api_key demo_headers = Some (u ''k'')"
  by (simp_all add: demo_headers_def extract_environment_def extract_api_key_def trimmed_header_def header_str_def
      header_byte_ok_def to_lower_def lower_cp_def u_def trim_def trim_start_def trim_end_def is_ws_def)

lemma demo_user_resolved:
  "\<exists>v. grpc_resolve_account_user demo_users (u ''k'') (u ''sandbox'') (u ''a@b'') (u ''A'') (u ''B'') demo_users_world
     = (Inr (show_nat 1, show_nat 2, show_nat 4), v)"
proof -
  have names: "trim (u ''k'') = u ''k''" "to_lower (trim (u ''sandbox'')) = u ''sandbox''" "trim (u ''A'') = u ''A''"
    "trim (u ''B'') = u ''B''" "normalize_email (u ''a@b'') = u ''a@b''"
    by (simp_all add: u_def trim_def trim_start_def trim_end_def is_ws_def to_lower_def lower_cp_def normalize_email_def)
  then have "validate_api_key_request_inputs (u ''k'') (u ''sandbox'') = Inr (u ''k'', u ''sandbox'')"
    "normalize_account_user_lookup_inputs (u ''a@b'') (u ''A'') (u ''B'') = Inr (u ''a@b'', u ''A'', u ''B'')"
    by (simp_all add: validate_api_key_request_inputs_def normalize_account_user_lookup_inputs_def)
  then show ?thesis
    by (simp add: grpc_resolve_account_user_def validate_api_key_scope_def or_grpc_internal_def demo_run_simps
        keys_by_hash_def environment_of_type_def users_by_name_def hash_api_key_def demo_users_defs)
qed

lemma demo_opening:
  fixes w :: "(users_world \<times> unit) world"
  assumes w: "w_db w = \<lparr>db_accounts = [], db_transactions = []\<rparr>"
  shows "\<exists>a v. create_account_for_existing_user (accounts_on U demo_surroundings) demo_request b (u ''sandbox'') i w = (Inr a, v)"
proof -
  let ?P = "accounts_on U demo_surroundings :: (users_world \<times> unit) params"
  let ?w1 = "w\<lparr>w_tick := Suc (w_tick w)\<rparr>" and ?n = "Suc (w_tick w)"
  let ?s = "base_number (p_digits ?P ?n) 11 @ [48]"
  have pars: "p_fault ?P t = No_Fault" "p_luhn ?P x = Some 48" "p_other ?P t = id" for t x
    by (simp_all add: demo_surroundings_def accounts_on_def)
  have rand: "random_account_number_with_luhn ?P 12 ?w1 = (Inr ?s, ?w1\<lparr>w_tick := Suc ?n\<rparr>)"
    by (simp add: random_account_number_with_luhn_def io_simps Let_def clamp_account_number_length_def pars)
  have exists: "account_number_exists ?P ?s (?w1\<lparr>w_tick := Suc ?n\<rparr>) = (Inr False, ?w1\<lparr>w_tick := Suc (Suc ?n)\<rparr>)"
    by (simp add: account_number_exists_def pars demo_surroundings_ok acc_read_def w number_exists_stmt_def)
  have gen: "generate_account_number ?P 12 ?w1 = (Inr ?s, ?w1\<lparr>w_tick := Suc (Suc ?n)\<rparr>)"
    unfolding generate_account_number_def
    by (subst numeral_10_eq) (simp only: generate_attempts.simps bind_io_apply rand exists prod.case sum.case
        simp_thms if_True ret_apply)
  have count: "count_by_user_and_type ?P i Saving (u ''sandbox'') w = (Inr 0, ?w1)"
    by (simp add: count_by_user_and_type_def pars demo_surroundings_ok acc_read_def w count_by_user_and_type_stmt_def)
  let ?w3 = "?w1\<lparr>w_tick := Suc (Suc ?n)\<rparr>"
  let ?row = "new_account_row (p_clock ?P (Suc (Suc ?n))) (p_uuid ?P (Suc (Suc ?n))) ?s Saving (Some b) (u ''sandbox'') i (u ''USD'')"
  have "length ?s = 12" using base_number_digits [of 11 "p_digits ?P ?n"] by simp
  then have "account_row_ok ?row" by (simp add: new_account_row_def account_row_ok_def)
  then have ins: "insert_account_stmt e ?row [] = (Inr [?row], [?row])" for e by (simp add: insert_account_stmt_def)
  obtain a where conv: "row_to_account ?row = Inr a"
    by (simp add: row_to_account_def new_account_row_def parse_account_type_def parse_account_status_def)
  have "create_account_row ?P ?s Saving (Some b) (u ''sandbox'') i (u ''USD'') ?w3 =
      (Inr a, ?w3\<lparr>w_db := \<lparr>db_accounts = [?row], db_transactions = []\<rparr>, w_tick := Suc (w_tick ?w3)\<rparr>)"
    by (subst create_account_row_def)
      (simp add: io_simps demo_surroundings_ok acc_try_update_def w ins one_account_def fetch_one_def conv del: new_account_row_def)
  then show ?thesis
    using gen count by (simp add: create_account_for_existing_user_def io_simps demo_request_def)
qed

theorem account_for_key_holder_witness:
  "\<exists>code resp w'. create_account (accounts_on demo_users demo_surroundings) demo_headers [] demo_request demo_system
     = (Inr (code, resp), w') \<and> ar_organization_id resp \<noteq> None \<and> length (db_accounts (w_db w')) = 1"
proof -
  let ?P = "accounts_on demo_users demo_surroundings :: (users_world \<times> unit) params"
  obtain v where v: "grpc_resolve_account_user demo_users (u ''k'') (u ''sandbox'') (u ''a@b'') (u ''A'') (u ''B'')
      demo_users_world = (Inr (show_nat 1, show_nat 2, show_nat 4), v)" using demo_user_resolved by blast
  let ?w1 = "demo_system\<lparr>w_ext := (v, ()), w_tick := Suc 0\<rparr>"
  have resolve: "resolve_account_user_for_api_key ?P (u ''k'') (u ''sandbox'') (u ''a@b'') (u ''A'') (u ''B'') demo_system
      = (Inr \<lparr>rau_business_id = 1, rau_environment_id = 2, rau_user_id = 4\<rparr>, ?w1)"
    using v by (simp add: resolve_account_user_for_api_key_def io_simps users_call_def users_rpc_def demo_system_def
        parse_uuid_field_def ok_or_def demo_surroundings_def)
  have "w_db ?w1 = \<lparr>db_accounts = [], db_transactions = []\<rparr>" by (simp add: demo_system_def)
  from demo_opening [OF this] obtain a w2 where
    create: "create_account_for_existing_user ?P demo_request 1 (u ''sandbox'') 4 ?w1 = (Inr a, w2)" by blast
  have names: "car_email demo_request = u ''a@b''" "car_first_name demo_request = u ''A''"
    "car_last_name demo_request = u ''B''" by (simp_all add: demo_request_def)
  have filled: "trim (u ''a@b'') \<noteq> []" "trim (u ''A'') \<noteq> []" "trim (u ''B'') \<noteq> []"
    by (simp_all add: u_def trim_def trim_start_def trim_end_def is_ws_def)
  have quiet: "spawn_audit_emit ?P hs peer verb path action org at ai roles tt ti status reason metadata w = (Inr (), w)"
    for hs peer verb path action org at ai roles tt ti status reason metadata w
    by (simp add: spawn_audit_emit_def emit_accounts_mutation_def io_simps accounts_on_def demo_surroundings_def)
  have "create_account ?P demo_headers [] demo_request demo_system = (Inr (201, account_response_from a), w2)"
    by (cases "acc_organization_id a"; cases "acc_admin_user_id a"; cases "acc_user_id a")
      (simp_all add: create_account_def Let_def io_simps demo_headers_simps names ok_or_def quiet resolve create filled)
  then obtain resp w' where run: "create_account ?P demo_headers [] demo_request demo_system = (Inr (201, resp), w')" by blast
  from account_for_key_holder [OF demo_surroundings_ok(1) demo_users_lawful demo_surroundings_ok(2) run] run
  show ?thesis by (auto simp: demo_system_def)
qed

section \<open>The audit trail for key holders\<close>

lemma lower_production: "to_lower (trim (u ''production'')) \<noteq> u ''sandbox''"
  by (simp add: u_def trim_def trim_start_def trim_end_def is_ws_def to_lower_def lower_cp_def)

text \<open>
  C35. The listing by API key, end to end: it shows only sandbox events, of the one business for which the
  users service found the key active and not revoked. For production no key is ever enough: there is
  no administrator to act for.
\<close>

theorem key_listing_end_to_end:
  assumes "users_lawful U" "users_ok (uw_db (fst (aw_ext w)))" "reads_uuids (c_uuid_parse (q_codec Q)) U"
    and "list_audit_events (audit_on U Q) hs query w = (Inr (code, events, meta), w')"
    and "trimmed_header hs (u ''x-internal-service-token'') = None"
  shows "\<exists>key b d. trimmed_header hs (u ''x-api-key'') = Some key \<and>
    users_step\<^sup>*\<^sup>* (uw_db (fst (aw_ext w))) d \<and> key_grants U (trim key) d b \<and>
    list_all (\<lambda>ev. aer_organization_id ev = c_uuid_str (q_codec Q) b \<and> aer_environment ev = u ''sandbox'') events"
proof -
  from assms(4) obtain org env w1 where scope: "resolve_list_scope (audit_on U Q) hs query w = (Inr (org, env), w1)"
    and shown: "list_all (\<lambda>ev. aer_organization_id ev = c_uuid_str (q_codec Q) org \<and> aer_environment ev = env) events"
    by (rule listing_content) simp
  from scope assms(5) obtain key e a where key: "trimmed_header hs (u ''x-api-key'') = Some key"
    and call: "audit_validate_api_key (audit_on U Q) key env w = (Inr (org, e, a), w1)" by (rule scope_by_key)
  note act = audit_key_call [OF assms(1,3) call]
  have "env \<in> {u ''sandbox'', u ''production''}" using resolve_scope_Inr [OF scope] by blast
  then have env: "env = u ''sandbox''" using admin_acts_in_sandbox [OF act assms(2)] lower_production by blast
  from act obtain b d where "up_uuid_str U org = up_uuid_str U b"
    "users_step\<^sup>*\<^sup>* (uw_db (fst (aw_ext w))) d" "key_grants U (trim key) d b"
    unfolding acting_def since_def by auto
  moreover from this(1) assms(3) have "b = org" unfolding reads_uuids_def by (metis option.inject)
  ultimately show ?thesis using key shown unfolding env by blast
qed

text \<open>The demo business lists its events.\<close>

lemma demo_key_validated:
  "\<exists>v. grpc_validate_api_key demo_users (u ''k'') (u ''sandbox'') demo_users_world
     = (Inr (show_nat 1, show_nat 2, show_nat 4), v)"
proof -
  have "trim (u ''k'') = u ''k''" "to_lower (trim (u ''sandbox'')) = u ''sandbox''"
    by (simp_all add: u_def trim_def trim_start_def trim_end_def is_ws_def to_lower_def lower_cp_def)
  then have "validate_api_key_request_inputs (u ''k'') (u ''sandbox'') = Inr (u ''k'', u ''sandbox'')"
    by (simp add: validate_api_key_request_inputs_def)
  then show ?thesis
    by (simp add: grpc_validate_api_key_def validate_api_key_scope_def or_grpc_internal_def demo_run_simps
        keys_by_hash_def environment_of_type_def admins_in_def hash_api_key_def demo_users_defs)
qed

definition demo_audit_side :: "(users_world \<times> unit) audit_params" where
  "demo_audit_side = \<lparr>q_codec = demo_codec, q_other = (\<lambda>_. id), q_fault = (\<lambda>_. No_Fault), q_clock = int,
     q_uuid = (\<lambda>t. of_nat (100 + t)), q_constraint_error = [],
     q_validate_key = (\<lambda>_ _ x. (Inr ([], [], []), x)), q_internal_token = None\<rparr>"

definition demo_events :: "(users_world \<times> unit) audit_world" where
  "demo_events = \<lparr>aw_rows = [\<lparr>er_id = 1, er_data = demo_insert 1 ''sandbox'', er_created_at = 0\<rparr>,
     \<lparr>er_id = 2, er_data = demo_insert 8 ''sandbox'', er_created_at = 0\<rparr>],
     aw_ext = (demo_users_world, ()), aw_tick = 0\<rparr>"

lemma demo_audit_side_ok:
  "audit_undisturbed (audit_on U demo_audit_side)" "q_codec demo_audit_side = demo_codec"
  "reads_uuids (c_uuid_parse demo_codec) demo_users"
  by (simp_all add: audit_undisturbed_def demo_audit_side_def audit_on_def reads_uuids_def demo_codec_def)

lemma demo_events_listed:
  "\<exists>meta w'. list_audit_events (audit_on demo_users demo_audit_side) key_headers any_query demo_events
     = (Inr (200, [audit_event_response_from demo_codec \<lparr>er_id = 1, er_data = demo_insert 1 ''sandbox'', er_created_at = 0\<rparr>], meta), w')"
proof -
  let ?Q = "audit_on demo_users demo_audit_side"
  let ?f = "\<lparr>af_organization_id = 1, af_environment = u ''sandbox'', af_action = None, af_target_type = None,
      af_target_id = None, af_outcome = None, af_from = None, af_to = None, af_page = 1, af_per_page = 25\<rparr>"
  obtain v where "grpc_validate_api_key demo_users (u ''k'') (u ''sandbox'') demo_users_world
     = (Inr (show_nat 1, show_nat 2, show_nat 4), v)" using demo_key_validated by blast
  then have "audit_validate_api_key ?Q (u ''k'') (u ''sandbox'') demo_events
      = (Inr (1, 2, 4), demo_events\<lparr>aw_ext := (v, ()), aw_tick := Suc 0\<rparr>)"
    by (simp add: audit_validate_api_key_def io_simps users_rpc_def demo_events_def demo_audit_side_ok
        demo_codec_def ok_or_def)
  then have scope: "resolve_list_scope ?Q key_headers any_query demo_events
      = (Inr (1, u ''sandbox''), demo_events\<lparr>aw_ext := (v, ()), aw_tick := Suc 0\<rparr>)"
    by (simp add: resolve_list_scope_def key_headers_simps any_query_def transpose_map_def io_simps Let_def ok_or_def)
  have listing: "event_listing ?f (aw_rows demo_events) = [\<lparr>er_id = 1, er_data = demo_insert 1 ''sandbox'', er_created_at = 0\<rparr>]"
    by (simp add: event_listing_def sort_desc_def filter_clause_def opt_all_def demo_events_def demo_insert_def)
  have filters: "build_list_filters demo_codec 1 (u ''sandbox'') any_query = Inr ?f"
    by (simp add: build_list_filters_def any_query_def transpose_map_def optional_trimmed_def)
  show ?thesis
    by (simp add: list_audit_events_def io_simps scope filters list_audit_events_db_def count_audit_events_def
        demo_audit_side_ok Let_def listing limit_offset_def page_offset_def)
qed

theorem key_listing_end_to_end_witness:
  "\<exists>code events meta w'. list_audit_events (audit_on demo_users demo_audit_side) key_headers any_query demo_events
     = (Inr (code, events, meta), w') \<and> length events = 1 \<and>
     (\<exists>b. list_all (\<lambda>ev. aer_organization_id ev = c_uuid_str demo_codec b) events)"
proof -
  obtain meta w' where run: "list_audit_events (audit_on demo_users demo_audit_side) key_headers any_query demo_events
     = (Inr (200, [audit_event_response_from demo_codec \<lparr>er_id = 1, er_data = demo_insert 1 ''sandbox'', er_created_at = 0\<rparr>], meta), w')"
    using demo_events_listed by blast
  have "users_ok (uw_db (fst (aw_ext demo_events)))" by (simp add: demo_events_def demo_users_world_def)
  moreover have "reads_uuids (c_uuid_parse (q_codec demo_audit_side)) demo_users" by (simp add: demo_audit_side_ok)
  ultimately show ?thesis
    using key_listing_end_to_end [OF demo_users_lawful _ _ run key_headers_simps(2)] run
    by (auto simp: demo_audit_side_ok)
qed

section \<open>Revoked keys\<close>

lemma trimmed_header_trimmed: "trimmed_header hs name = Some s \<Longrightarrow> trim s = s"
  by (auto simp: trimmed_header_def split: option.splits if_splits)

lemma create_account_refused:
  assumes "extract_api_key hs = Some key"
    and refused: "\<And>env email f l. is_err (fst (resolve_account_user_for_api_key P key env email f l w))"
  shows "is_err (fst (create_account P hs peer request w)) \<and> w_db (snd (create_account P hs peer request w)) = w_db w"
proof (cases "extract_environment hs")
  case (Inl e)
  then show ?thesis by (simp add: create_account_def Let_def io_simps)
next
  case (Inr env)
  obtain e v where call: "resolve_account_user_for_api_key P key env (car_email request) (car_first_name request)
      (car_last_name request) w = (Inl e, v)"
    using refused by (metis is_err_simps(2) prod.collapse sum.exhaust_sel)
  then have "w_db v = w_db w" using resolve_user_db by (metis snd_conv)
  then show ?thesis
    using assms(1) Inr call by (simp add: create_account_def Let_def io_simps ok_or_def)
qed

text \<open>
  C36. Revoking a key closes the whole system to it: from any later state of the users tables the accounts
  service opens no account on it, its tables untouched, and the audit service lists nothing for it.
\<close>

theorem revoked_key_shut_out:
  assumes "users_lawful U" "users_ok (uw_db v)" "revoke_api_key U hs peer ctx i v = (Inr body, v1)"
    and "k \<in> set (t_api_keys (uw_db v1))" "key_id k = i" "hash_api_key U plain = Inr (key_hash k)"
    and "users_step\<^sup>*\<^sup>* (uw_db v1) (uw_db (users_side w))" "extract_api_key hs_w = Some plain"
    and "users_step\<^sup>*\<^sup>* (uw_db v1) (uw_db (fst (aw_ext x)))" "trimmed_header hs_x (u ''x-api-key'') = Some plain"
    and "trimmed_header hs_x (u ''x-internal-service-token'') = None"
  shows "is_err (fst (create_account (accounts_on U P) hs_w peer_w request w)) \<and>
    w_db (snd (create_account (accounts_on U P) hs_w peer_w request w)) = w_db w \<and>
    is_err (fst (list_audit_events (audit_on U Q) hs_x query x))"
proof -
  have plain: "trim plain = plain" using assms(10) by (rule trimmed_header_trimmed)
  have no_user: "is_err (fst (resolve_account_user_for_api_key (accounts_on U P) plain env email f l w))" for env email f l
  proof -
    obtain k2 where k2: "users_ok (uw_db (users_side w))" "k2 \<in> set (t_api_keys (uw_db (users_side w)))"
      "\<not> key_usable k2" "hash_api_key U plain = Inr (key_hash k2)"
      using revoked_stays_dead [OF assms(1-3,7,4-6)] unfolding holds_dead_key_def by blast
    from dead_key_refused(3) [OF assms(1) k2 plain] show ?thesis
      by (auto simp: resolve_account_user_for_api_key_def io_simps users_call_def users_rpc_def Let_def is_err_def
          split: sum.splits)
  qed
  have "is_err (fst (audit_validate_api_key (audit_on U Q) plain env x))" for env
  proof -
    obtain k2 where k2: "users_ok (uw_db (fst (aw_ext x)))" "k2 \<in> set (t_api_keys (uw_db (fst (aw_ext x))))"
      "\<not> key_usable k2" "hash_api_key U plain = Inr (key_hash k2)"
      using revoked_stays_dead [OF assms(1-3,9,4-6)] unfolding holds_dead_key_def by blast
    from dead_key_refused(2) [OF assms(1) k2 plain] show ?thesis
      by (auto simp: audit_validate_api_key_def io_simps users_rpc_def is_err_def split: sum.splits)
  qed
  then have unlisted: "\<not> (\<exists>r x'. audit_validate_api_key (audit_on U Q) plain env x = (Inr r, x'))" for env
    by (metis fst_conv is_err_simps(2))
  have "is_err (fst (list_audit_events (audit_on U Q) hs_x query x))"
  proof (rule ccontr)
    assume "\<not> ?thesis"
    then obtain code events meta x' where "list_audit_events (audit_on U Q) hs_x query x = (Inr (code, events, meta), x')"
      by (cases "list_audit_events (audit_on U Q) hs_x query x") (auto simp: is_err_def split: sum.splits)
    then obtain org env x1 where "resolve_list_scope (audit_on U Q) hs_x query x = (Inr (org, env), x1)"
      by (rule listing_content)
    from this assms(11) obtain key e a where "trimmed_header hs_x (u ''x-api-key'') = Some key"
      "audit_validate_api_key (audit_on U Q) key env x = (Inr (org, e, a), x1)" by (rule scope_by_key)
    with assms(10) unlisted show False by simp
  qed
  with create_account_refused [OF assms(8) no_user] show ?thesis by blast
qed

theorem revoked_key_shut_out_witness:
  "\<exists>v. is_err (fst (create_account (accounts_on demo_users demo_surroundings) demo_headers [] demo_request
       (demo_system\<lparr>w_ext := (v, ())\<rparr>))) \<and>
     is_err (fst (list_audit_events (audit_on demo_users demo_audit_side) key_headers any_query
       (demo_events\<lparr>aw_ext := (v, ())\<rparr>)))"
proof -
  obtain body v where run: "revoke_api_key demo_users [] [] demo_ctx 5 demo_users_world = (Inr body, v)"
    and keys: "t_api_keys (uw_db v) = [demo_key\<lparr>key_status := u ''revoked'', key_revoked_at := Some 1\<rparr>]"
    using demo_revoke by blast
  let ?k = "demo_key\<lparr>key_status := u ''revoked'', key_revoked_at := Some 1\<rparr>"
  have "is_err (fst (create_account (accounts_on demo_users demo_surroundings) demo_headers [] demo_request
       (demo_system\<lparr>w_ext := (v, ())\<rparr>))) \<and>
     w_db (snd (create_account (accounts_on demo_users demo_surroundings) demo_headers [] demo_request
       (demo_system\<lparr>w_ext := (v, ())\<rparr>))) = w_db (demo_system\<lparr>w_ext := (v, ())\<rparr>) \<and>
     is_err (fst (list_audit_events (audit_on demo_users demo_audit_side) key_headers any_query
       (demo_events\<lparr>aw_ext := (v, ())\<rparr>)))"
  proof (rule revoked_key_shut_out [OF demo_users_lawful _ run, of ?k "u ''k''"])
    show "users_ok (uw_db demo_users_world)" by (simp add: demo_users_world_def)
    show "?k \<in> set (t_api_keys (uw_db v))" using keys by simp
    show "key_id ?k = 5" by (simp add: demo_key_def)
    show "hash_api_key demo_users (u ''k'') = Inr (key_hash ?k)" by (simp add: hash_api_key_def demo_key_def)
  qed (simp_all add: demo_headers_simps key_headers_simps)
  then show ?thesis by blast
qed

end
