(* ===== verification/Middleware.thy ===== *)
theory Middleware
  imports Rate_Limit Users_World App_Error
begin

text \<open>
  What surrounds the HTTP handlers of the three services: correlation ids, the standard error body, the
  rate limits and the check of internal callers (\<^verbatim>\<open>accounts-service/src/routes/api.rs\<close>,
  \<^verbatim>\<open>users-service/src/routes/mod.rs\<close>, \<^verbatim>\<open>audit-service/src/routes/mod.rs\<close>).
  A middleware is a function of what comes next, as with axum's \<^verbatim>\<open>from_fn\<close>; the innermost
  service, axum's routing of a path to its handler included, is a parameter. JSON and the reason phrases
  of status codes are parameters too: the code relies on the value of a few fields only.
\<close>

section \<open>Requests and responses\<close>

datatype json_value = Json_String str | Json_Number nat | Json_Other

text \<open>\<open>hc_get\<close>: \<^verbatim>\<open>serde_json::from_slice\<close>, then \<^verbatim>\<open>Value::get\<close>; \<open>hc_print\<close>: the text
  of the object with status, message, correlationId and timestamp.\<close>

record http_crates =
  hc_get :: "8 word list \<Rightarrow> (str \<Rightarrow> json_value option) option"
  hc_print :: "nat \<Rightarrow> str \<Rightarrow> str \<Rightarrow> str \<Rightarrow> 8 word list"
  hc_reason :: "nat \<Rightarrow> str option"
  hc_uuid :: "nat \<Rightarrow> str"
  hc_now :: "nat \<Rightarrow> str"
  hc_instant :: "nat \<Rightarrow> int"
  hc_env :: "str \<Rightarrow> str option"

datatype http_body = Bytes "8 word list" | Unreadable

record 'ip http_request =
  rq_path :: str
  rq_headers :: headers
  rq_peer :: "'ip option"

record http_response =
  rs_status :: nat
  rs_headers :: headers
  rs_body :: http_body

record 'w edge =
  eg_inner :: 'w
  eg_limiter :: rate_limiter
  eg_tick :: nat

type_synonym ('ip, 'w) service = "'ip http_request \<Rightarrow> 'w edge \<Rightarrow> http_response \<times> 'w edge"

definition edge_uuid :: "http_crates \<Rightarrow> ('w edge, 'e, str) io" where
  "edge_uuid H = (\<lambda>w. (Inr (hc_uuid H (eg_tick w)), w\<lparr>eg_tick := Suc (eg_tick w)\<rparr>))"

definition edge_now :: "http_crates \<Rightarrow> ('w edge, 'e, str) io" where
  "edge_now H = (\<lambda>w. (Inr (hc_now H (eg_tick w)), w\<lparr>eg_tick := Suc (eg_tick w)\<rparr>))"

definition run_next :: "('ip, 'w) service \<Rightarrow> 'ip http_request \<Rightarrow> ('w edge, 'e, http_response) io" where
  "run_next next_service req = (\<lambda>w. (Inr (fst (next_service req w)), snd (next_service req w)))"

text \<open>\<^verbatim>\<open>HeaderMap::insert\<close> replaces; \<^verbatim>\<open>HeaderValue\<close> takes visible ASCII and tabs.\<close>

definition header_insert :: "str \<Rightarrow> str \<Rightarrow> headers \<Rightarrow> headers" where
  "header_insert name v hs = (name, v) # filter (\<lambda>p. fst p \<noteq> name) hs"

definition header_value :: "str \<Rightarrow> str option" where
  "header_value s = (if list_all header_byte_ok s then Some s else None)"

definition to_bytes :: "http_body \<Rightarrow> nat \<Rightarrow> 8 word list option" where
  "to_bytes body limit =
     (case body of Unreadable \<Rightarrow> None | Bytes bs \<Rightarrow> if length bs > limit then None else Some bs)"

definition x_correlation_id :: str where
  "x_correlation_id = u ''x-correlation-id''"

section \<open>Errors as responses\<close>

text \<open>\<^verbatim>\<open>IntoResponse\<close> of the error types: the status, and a body with a fresh correlation id.\<close>

definition error_http :: "http_crates \<Rightarrow> nat \<Rightarrow> str \<Rightarrow> 'w edge \<Rightarrow> http_response \<times> 'w edge" where
  "error_http H status message = (\<lambda>w.
     (\<lparr>rs_status = status, rs_headers = [(u ''content-type'', u ''application/json'')],
       rs_body = Bytes (hc_print H status message (hc_uuid H (eg_tick w)) (hc_now H (Suc (eg_tick w))))\<rparr>,
      w\<lparr>eg_tick := eg_tick w + 2\<rparr>))"

definition app_error_http :: "http_crates \<Rightarrow> app_error \<Rightarrow> 'w edge \<Rightarrow> http_response \<times> 'w edge" where
  "app_error_http H e = error_http H (response_status e) (error_to_string e)"

definition users_error_http :: "http_crates \<Rightarrow> users_error \<Rightarrow> 'w edge \<Rightarrow> http_response \<times> 'w edge" where
  "users_error_http H e = error_http H (users_status_code e) (users_error_to_string e)"

text \<open>The \<^verbatim>\<open>Result\<close> of a handler or of a middleware becomes a response.\<close>

definition answer ::
  "('e \<Rightarrow> 'w edge \<Rightarrow> http_response \<times> 'w edge) \<Rightarrow> ('w edge, 'e, http_response) io \<Rightarrow> 'w edge \<Rightarrow> http_response \<times> 'w edge" where
  "answer error_response m = (\<lambda>w. case m w of (Inr res, w') \<Rightarrow> (res, w') | (Inl e, w') \<Rightarrow> error_response e w')"

text \<open>A handler works on the world behind the edge; \<open>render\<close> is the status and JSON text of its
  result.\<close>

definition on_inner :: "('v \<Rightarrow> nat \<times> 8 word list) \<Rightarrow> ('w, 'e, 'v) io \<Rightarrow> ('w edge, 'e, http_response) io" where
  "on_inner render m = (\<lambda>w.
     case m (eg_inner w) of
       (Inl e, v) \<Rightarrow> (Inl e, w\<lparr>eg_inner := v\<rparr>)
     | (Inr a, v) \<Rightarrow>
         (Inr \<lparr>rs_status = fst (render a), rs_headers = [(u ''content-type'', u ''application/json'')],
               rs_body = Bytes (snd (render a))\<rparr>, w\<lparr>eg_inner := v\<rparr>))"

section \<open>Accounts\<close>

definition error_message_from_body :: "http_crates \<Rightarrow> 8 word list \<Rightarrow> nat \<Rightarrow> str" where
  "error_message_from_body H bytes status =
     (let found =
        (case hc_get H bytes of
           None \<Rightarrow> None
         | Some field \<Rightarrow>
             (case (case field (u ''message'') of Some v \<Rightarrow> Some v | None \<Rightarrow> field (u ''error'')) of
                Some (Json_String s) \<Rightarrow> if trim s = [] then None else Some s
              | _ \<Rightarrow> None))
      in case found of
           Some message \<Rightarrow> message
         | None \<Rightarrow> (case hc_reason H status of Some r \<Rightarrow> r | None \<Rightarrow> u ''error''))"

definition standard_body :: "http_crates \<Rightarrow> http_response \<Rightarrow> str \<Rightarrow> str \<Rightarrow> str \<Rightarrow> http_response" where
  "standard_body H res message correlation_id timestamp =
     res\<lparr>rs_headers := header_insert (u ''content-type'') (u ''application/json'') (rs_headers res),
         rs_body := Bytes (hc_print H (rs_status res) message correlation_id timestamp)\<rparr>"

definition standardize_error_response ::
  "http_crates \<Rightarrow> http_response \<Rightarrow> str \<Rightarrow> ('w edge, app_error, http_response) io" where
  "standardize_error_response H res correlation_id =
     (if rs_status res < 400 then ret res else
      bind_io (lift_result (ok_or (to_bytes (rs_body res) (1024 * 1024))
        (Internal (u ''Failed to read error response body'')))) (\<lambda>bytes.
      let message = error_message_from_body H bytes (rs_status res) in
      bind_io (edge_now H) (\<lambda>now.
      ret (standard_body H res message correlation_id now))))"

definition correlation_id_middleware ::
  "http_crates \<Rightarrow> ('ip, 'w) service \<Rightarrow> 'ip http_request \<Rightarrow> ('w edge, app_error, http_response) io" where
  "correlation_id_middleware H next_service req =
     (if \<not> starts_with (u ''/api/'') (rq_path req) then run_next next_service req else
      let existing = trimmed_header (rq_headers req) x_correlation_id;
          failed = Internal (u ''Failed to set correlation id'') in
      bind_io (case existing of Some s \<Rightarrow> ret s | None \<Rightarrow> edge_uuid H) (\<lambda>correlation_id.
      bind_io
        (if existing = None
         then bind_io (lift_result (ok_or (header_value correlation_id) failed)) (\<lambda>v.
              ret (req\<lparr>rq_headers := header_insert x_correlation_id v (rq_headers req)\<rparr>))
         else ret req) (\<lambda>req'.
      bind_io (run_next next_service req') (\<lambda>res.
      bind_io (standardize_error_response H res correlation_id) (\<lambda>res'.
      bind_io (lift_result (ok_or (header_value correlation_id) failed)) (\<lambda>v.
      ret (res'\<lparr>rs_headers := header_insert x_correlation_id v (rs_headers res')\<rparr>)))))))"

text \<open>Both services put a limiter of their own before some routes.\<close>

definition rate_limit_layer ::
  "http_crates \<Rightarrow> rate_limit_config \<Rightarrow> ('ip http_request \<Rightarrow> str) \<Rightarrow> 'e \<Rightarrow> ('ip, 'w) service
   \<Rightarrow> 'ip http_request \<Rightarrow> ('w edge, 'e, http_response) io" where
  "rate_limit_layer H config client_key too_many next_service req = (\<lambda>w.
     case allow config (hc_instant H (eg_tick w)) (client_key req) (eg_limiter w) of
       (allowed, store) \<Rightarrow>
         (if allowed then run_next next_service req else throw too_many)
           (w\<lparr>eg_limiter := store, eg_tick := Suc (eg_tick w)\<rparr>))"

definition money_rate_limit_middleware ::
  "http_crates \<Rightarrow> 'ip ip_codec \<Rightarrow> ('ip, 'w) service \<Rightarrow> 'ip http_request \<Rightarrow> ('w edge, app_error, http_response) io" where
  "money_rate_limit_middleware H I =
     rate_limit_layer H (money_rate_limit_config (hc_env H))
       (\<lambda>req. extract_client_key I (hc_env H) ''ACCOUNTS_TRUSTED_PROXY_IPS'' (rq_peer req) (rq_headers req))
       TooManyRequests"

definition money_path :: "str \<Rightarrow> bool" where
  "money_path path =
     (case split_on 47 path of
        [root, api, v1, accounts, i, movement] \<Rightarrow>
          root = [] \<and> api = u ''api'' \<and> v1 = u ''v1'' \<and> accounts = u ''accounts'' \<and> i \<noteq> [] \<and>
          movement \<in> {u ''deposit'', u ''withdraw'', u ''transfer''}
      | _ \<Rightarrow> False)"

definition create_api_routes ::
  "http_crates \<Rightarrow> 'ip ip_codec \<Rightarrow> ('ip, 'w) service \<Rightarrow> ('ip, 'w) service" where
  "create_api_routes H I handlers =
     (\<lambda>req. if money_path (rq_path req)
            then answer (app_error_http H) (money_rate_limit_middleware H I handlers req)
            else handlers req)"

definition create_router ::
  "http_crates \<Rightarrow> 'ip ip_codec \<Rightarrow> ('ip, 'w) service \<Rightarrow> ('ip, 'w) service" where
  "create_router H I handlers =
     (\<lambda>req. answer (app_error_http H) (correlation_id_middleware H (create_api_routes H I handlers) req))"

section \<open>Users\<close>

definition users_error_message_from_body :: "http_crates \<Rightarrow> 8 word list \<Rightarrow> nat \<Rightarrow> str" where
  "users_error_message_from_body = error_message_from_body"

definition users_standardize_error_response ::
  "http_crates \<Rightarrow> http_response \<Rightarrow> str \<Rightarrow> ('w edge, users_error, http_response) io" where
  "users_standardize_error_response H res correlation_id =
     (if rs_status res < 400 then ret res else
      bind_io (lift_result (ok_or (to_bytes (rs_body res) (1024 * 1024)) U_Internal)) (\<lambda>bytes.
      let message = users_error_message_from_body H bytes (rs_status res) in
      bind_io (edge_now H) (\<lambda>now.
      ret (standard_body H res message correlation_id now))))"

definition users_correlation_id_middleware ::
  "http_crates \<Rightarrow> ('ip, 'w) service \<Rightarrow> 'ip http_request \<Rightarrow> ('w edge, users_error, http_response) io" where
  "users_correlation_id_middleware H next_service req =
     (if \<not> starts_with (u ''/api/'') (rq_path req) then run_next next_service req else
      let existing = trimmed_header (rq_headers req) x_correlation_id in
      bind_io (case existing of Some s \<Rightarrow> ret s | None \<Rightarrow> edge_uuid H) (\<lambda>correlation_id.
      bind_io
        (if existing = None
         then bind_io (lift_result (ok_or (header_value correlation_id) U_Internal)) (\<lambda>v.
              ret (req\<lparr>rq_headers := header_insert x_correlation_id v (rq_headers req)\<rparr>))
         else ret req) (\<lambda>req'.
      bind_io (run_next next_service req') (\<lambda>res.
      bind_io (users_standardize_error_response H res correlation_id) (\<lambda>res'.
      bind_io (lift_result (ok_or (header_value correlation_id) U_Internal)) (\<lambda>v.
      ret (res'\<lparr>rs_headers := header_insert x_correlation_id v (rs_headers res')\<rparr>)))))))"

definition auth_rate_limit_middleware ::
  "http_crates \<Rightarrow> 'ip ip_codec \<Rightarrow> ('ip, 'w) service \<Rightarrow> 'ip http_request \<Rightarrow> ('w edge, users_error, http_response) io" where
  "auth_rate_limit_middleware H I =
     rate_limit_layer H (auth_rate_limit_config (hc_env H))
       (\<lambda>req. users_extract_client_key I (hc_env H) ''USERS_TRUSTED_PROXY_IPS'' (rq_peer req) (rq_headers req))
       U_Too_Many_Requests"

definition sensitive_path :: "str \<Rightarrow> bool" where
  "sensitive_path path \<longleftrightarrow> path = u ''/api/v1/auth/login'' \<or> path = u ''/api/v1/business/register''"

definition allowed_tokens :: "str \<Rightarrow> str list" where
  "allowed_tokens allowlist_raw = filter (\<lambda>s. s \<noteq> []) (map trim (split_on 44 allowlist_raw))"

definition internal_caller_middleware ::
  "http_crates \<Rightarrow> ('ip, 'w) service \<Rightarrow> 'ip http_request \<Rightarrow> ('w edge, users_error, http_response) io" where
  "internal_caller_middleware H next_service req =
     (if \<not> sensitive_path (rq_path req) then run_next next_service req else
      let allowlist_raw = (case hc_env H (u ''INTERNAL_SERVICE_TOKEN_ALLOWLIST'') of Some v \<Rightarrow> v | None \<Rightarrow> []) in
      if trim allowlist_raw = [] then run_next next_service req else
      let provided_token = trim (case header_str (rq_headers req) (u ''x-internal-service-token'') of Some v \<Rightarrow> v | None \<Rightarrow> []) in
      if provided_token = [] \<or> provided_token \<notin> set (allowed_tokens allowlist_raw)
      then throw U_Unrecognized_Source
      else run_next next_service req)"

definition auth_limited_path :: "str \<Rightarrow> bool" where
  "auth_limited_path path \<longleftrightarrow> path \<in>
     {u ''/api/v1/auth/login'', u ''/api/v1/auth/password-reset/request'',
      u ''/api/v1/auth/password-reset/reset'', u ''/api/v1/beta/apply''}"

definition merged_routes ::
  "http_crates \<Rightarrow> 'ip ip_codec \<Rightarrow> ('ip, 'w) service \<Rightarrow> ('ip, 'w) service" where
  "merged_routes H I handlers =
     (\<lambda>req. if auth_limited_path (rq_path req)
            then answer (users_error_http H) (auth_rate_limit_middleware H I handlers req)
            else handlers req)"

text \<open>The layer added last is the outermost.\<close>

definition register_routes ::
  "http_crates \<Rightarrow> 'ip ip_codec \<Rightarrow> ('ip, 'w) service \<Rightarrow> ('ip, 'w) service" where
  "register_routes H I handlers =
     (\<lambda>req. answer (users_error_http H) (internal_caller_middleware H
       (\<lambda>req. answer (users_error_http H) (users_correlation_id_middleware H (merged_routes H I handlers) req)) req))"

section \<open>Audit\<close>

definition audit_error_message_from_body :: "http_crates \<Rightarrow> 8 word list \<Rightarrow> nat \<Rightarrow> str" where
  "audit_error_message_from_body = error_message_from_body"

text \<open>Here a body that cannot be read is replaced by the reason phrase, and nothing can fail.\<close>

definition audit_standardize_error_response :: "http_crates \<Rightarrow> http_response \<Rightarrow> str \<Rightarrow> 'w edge \<Rightarrow> http_response \<times> 'w edge" where
  "audit_standardize_error_response H res correlation_id = (\<lambda>w.
     if rs_status res < 400 then (res, w) else
     let message = (case to_bytes (rs_body res) (1024 * 1024) of
                      Some bytes \<Rightarrow> audit_error_message_from_body H bytes (rs_status res)
                    | None \<Rightarrow> (case hc_reason H (rs_status res) of Some r \<Rightarrow> r | None \<Rightarrow> u ''error''))
     in (standard_body H res message correlation_id (hc_now H (eg_tick w)), w\<lparr>eg_tick := Suc (eg_tick w)\<rparr>))"

definition try_header_insert :: "str \<Rightarrow> headers \<Rightarrow> headers" where
  "try_header_insert correlation_id hs =
     (case header_value correlation_id of Some v \<Rightarrow> header_insert x_correlation_id v hs | None \<Rightarrow> hs)"

definition audit_router :: "http_crates \<Rightarrow> ('ip, 'w) service \<Rightarrow> ('ip, 'w) service" where
  "audit_router H handlers = (\<lambda>req w.
     if \<not> starts_with (u ''/api/'') (rq_path req) then handlers req w else
     let existing = trimmed_header (rq_headers req) x_correlation_id;
         correlation_id = (case existing of Some s \<Rightarrow> s | None \<Rightarrow> hc_uuid H (eg_tick w));
         w1 = (case existing of Some s \<Rightarrow> w | None \<Rightarrow> w\<lparr>eg_tick := Suc (eg_tick w)\<rparr>);
         req' = req\<lparr>rq_headers := try_header_insert correlation_id (rq_headers req)\<rparr>;
         (inner, w2) = handlers req' w1;
         (res, w3) = audit_standardize_error_response H inner correlation_id w2
     in (res\<lparr>rs_headers := try_header_insert correlation_id (rs_headers res)\<rparr>, w3))"

end
