(* ===== verification/Middleware_Spec.thy ===== *)
theory Middleware_Spec
  imports Middleware
begin

text \<open>
  Properties of the middleware: every answer under \<^verbatim>\<open>/api/\<close> carries the correlation id of its
  request and, when it is an error, the standard body; the message of a handler's error reaches the client;
  and who may log in and register.
\<close>

section \<open>What the crates promise\<close>

text \<open>For texts of Unicode characters and the status codes of HTTP: a printed body is read back with its
  fields, and a JSON string takes at most six bytes per character. Reason phrases are not blank; a UUID
  prints as 36 characters of a header value; a time stamp is short.\<close>

definition unicode :: "str \<Rightarrow> bool" where
  "unicode s \<longleftrightarrow> list_all (\<lambda>c. c < 0x110000) s"

definition http_lawful :: "http_crates \<Rightarrow> bool" where
  "http_lawful H \<longleftrightarrow>
     (\<forall>st m c t. st < 1000 \<longrightarrow> unicode m \<longrightarrow> unicode c \<longrightarrow> unicode t \<longrightarrow>
        (\<exists>field. hc_get H (hc_print H st m c t) = Some field \<and>
           field (u ''status'') = Some (Json_Number st) \<and> field (u ''message'') = Some (Json_String m)) \<and>
        length (hc_print H st m c t) \<le> 100 + 6 * (length m + length c + length t)) \<and>
     (\<forall>st r. hc_reason H st = Some r \<longrightarrow> trim r \<noteq> []) \<and>
     (\<forall>t. length (hc_uuid H t) = 36 \<and> list_all header_byte_ok (hc_uuid H t) \<and> trim (hc_uuid H t) = hc_uuid H t) \<and>
     (\<forall>t. length (hc_now H t) \<le> 40 \<and> unicode (hc_now H t))"

lemma unicode_drawn:
  assumes "http_lawful H"
  shows "unicode (hc_uuid H t)" "unicode (hc_now H t)"
proof -
  have "list_all header_byte_ok (hc_uuid H t)" "unicode (hc_now H t)" using assms unfolding http_lawful_def by blast+
  then show "unicode (hc_uuid H t)" "unicode (hc_now H t)"
    by (auto simp: unicode_def header_byte_ok_def elim!: list.pred_mono_strong)
qed

lemma lawful_uuid:
  assumes "http_lawful H"
  shows "header_value (hc_uuid H t) = Some (hc_uuid H t)" "trim (hc_uuid H t) = hc_uuid H t" "hc_uuid H t \<noteq> []"
proof -
  have "length (hc_uuid H t) = 36" "list_all header_byte_ok (hc_uuid H t)" "trim (hc_uuid H t) = hc_uuid H t"
    using assms by (simp_all add: http_lawful_def)
  then show "header_value (hc_uuid H t) = Some (hc_uuid H t)" "trim (hc_uuid H t) = hc_uuid H t" "hc_uuid H t \<noteq> []"
    by (auto simp: header_value_def)
qed

lemma blank_free: "trim (u ''error'') \<noteq> []"
  by (simp add: u_def trim_def trim_start_def trim_end_def is_ws_def)

lemma message_not_blank: "http_lawful H \<Longrightarrow> trim (error_message_from_body H bytes status) \<noteq> []"
  unfolding error_message_from_body_def http_lawful_def
  using blank_free by (auto simp: Let_def split: option.splits json_value.splits if_splits)

lemma message_printed:
  assumes "http_lawful H" "trim m \<noteq> []" "st < 1000" "unicode m" "unicode c" "unicode t"
  shows "error_message_from_body H (hc_print H st m c t) status = m"
proof -
  obtain field where "hc_get H (hc_print H st m c t) = Some field" "field (u ''message'') = Some (Json_String m)"
    using assms unfolding http_lawful_def by blast
  then show ?thesis using assms(2) by (simp add: error_message_from_body_def)
qed

section \<open>Headers\<close>

lemma set_trim: "set (trim s) \<subseteq> set s"
  unfolding trim_def trim_start_def trim_end_def by (auto dest!: set_dropWhileD)

lemma header_value_trimmed:
  assumes "trimmed_header hs name = Some s"
  shows "header_value s = Some s" "s \<noteq> []" "trim s = s"
proof -
  obtain v where v: "header_str hs name = Some v" "s = trim v" "s \<noteq> []"
    using assms by (auto simp: trimmed_header_def split: option.splits if_splits)
  then have "list_all header_byte_ok v" by (auto simp: header_str_def split: option.splits if_splits)
  with v(2) set_trim show "header_value s = Some s" by (auto simp: header_value_def list_all_iff)
  show "s \<noteq> []" by (rule v(3))
  show "trim s = s" using v(2) by simp
qed

lemma x_correlation_lower [simp]: "to_lower x_correlation_id = x_correlation_id"
  by (simp add: x_correlation_id_def u_def to_lower_def lower_cp_def)

lemma header_inserted:
  assumes "header_value v = Some v'"
  shows "header_str (header_insert x_correlation_id v hs) x_correlation_id = Some v"
  using assms by (auto simp: header_str_def header_insert_def header_value_def split: if_splits)

lemma correlation_not_content: "x_correlation_id \<noteq> u ''content-type''"
  by (simp add: x_correlation_id_def u_def)

lemma header_kept:
  "header_str (header_insert x_correlation_id v (header_insert (u ''content-type'') c hs)) (u ''content-type'') =
   header_str [(u ''content-type'', c)] (u ''content-type'')"
proof -
  have "to_lower (u ''content-type'') = u ''content-type''" by (simp add: u_def to_lower_def lower_cp_def)
  then show ?thesis using correlation_not_content by (simp add: header_str_def header_insert_def)
qed

section \<open>The correlated request\<close>

text \<open>The id of a request, the request as the handlers see it, and the state after the id was drawn.\<close>

definition correlated ::
  "http_crates \<Rightarrow> 'ip http_request \<Rightarrow> 'w edge \<Rightarrow> str \<times> 'ip http_request \<times> 'w edge" where
  "correlated H req w =
     (case trimmed_header (rq_headers req) x_correlation_id of
        Some s \<Rightarrow> (s, req, w)
      | None \<Rightarrow>
          let i = hc_uuid H (eg_tick w) in
          (i, req\<lparr>rq_headers := header_insert x_correlation_id i (rq_headers req)\<rparr>, w\<lparr>eg_tick := Suc (eg_tick w)\<rparr>))"

lemma correlatedD:
  assumes "http_lawful H" "correlated H req w = (i, req', w')"
  shows "header_value i = Some i" "trimmed_header (rq_headers req') x_correlation_id = Some i"
    "rq_path req' = rq_path req" "eg_inner w' = eg_inner w" "eg_limiter w' = eg_limiter w"
proof -
  have "header_value i = Some i \<and> trimmed_header (rq_headers req') x_correlation_id = Some i \<and>
    rq_path req' = rq_path req \<and> eg_inner w' = eg_inner w \<and> eg_limiter w' = eg_limiter w"
  proof (cases "trimmed_header (rq_headers req) x_correlation_id")
    case None
    then have i: "i = hc_uuid H (eg_tick w)"
      and "req' = req\<lparr>rq_headers := header_insert x_correlation_id i (rq_headers req)\<rparr>"
      and "w' = w\<lparr>eg_tick := Suc (eg_tick w)\<rparr>"
      using assms(2) by (auto simp: correlated_def Let_def)
    moreover have "header_str (header_insert x_correlation_id i hs) x_correlation_id = Some i" for hs
      unfolding i by (rule header_inserted [OF lawful_uuid(1) [OF assms(1)]])
    ultimately show ?thesis using lawful_uuid [OF assms(1), of "eg_tick w"] by (simp add: trimmed_header_def)
  next
    case (Some s)
    then show ?thesis using assms(2) header_value_trimmed [OF Some] by (simp add: correlated_def)
  qed
  then show "header_value i = Some i" "trimmed_header (rq_headers req') x_correlation_id = Some i"
    "rq_path req' = rq_path req" "eg_inner w' = eg_inner w" "eg_limiter w' = eg_limiter w" by blast+
qed

lemma correlation_middleware_run:
  assumes "http_lawful H" "starts_with (u ''/api/'') (rq_path req)" "correlated H req w = (i, req', w1)"
  shows "correlation_id_middleware H nx req w =
      (case standardize_error_response H (fst (nx req' w1)) i (snd (nx req' w1)) of
         (Inl e, w2) \<Rightarrow> (Inl e, w2)
       | (Inr res, w2) \<Rightarrow> (Inr (res\<lparr>rs_headers := header_insert x_correlation_id i (rs_headers res)\<rparr>), w2))"
    "users_correlation_id_middleware H nx req w =
      (case users_standardize_error_response H (fst (nx req' w1)) i (snd (nx req' w1)) of
         (Inl e, w2) \<Rightarrow> (Inl e, w2)
       | (Inr res, w2) \<Rightarrow> (Inr (res\<lparr>rs_headers := header_insert x_correlation_id i (rs_headers res)\<rparr>), w2))"
proof -
  have valid: "header_value i = Some i" by (rule correlatedD(1) [OF assms(1,3)])
  show "correlation_id_middleware H nx req w =
      (case standardize_error_response H (fst (nx req' w1)) i (snd (nx req' w1)) of
         (Inl e, w2) \<Rightarrow> (Inl e, w2)
       | (Inr res, w2) \<Rightarrow> (Inr (res\<lparr>rs_headers := header_insert x_correlation_id i (rs_headers res)\<rparr>), w2))"
    using assms(2,3) valid lawful_uuid(1) [OF assms(1)]
    by (auto simp: correlation_id_middleware_def correlated_def Let_def io_simps edge_uuid_def run_next_def
        split: option.splits sum.split prod.split)
  show "users_correlation_id_middleware H nx req w =
      (case users_standardize_error_response H (fst (nx req' w1)) i (snd (nx req' w1)) of
         (Inl e, w2) \<Rightarrow> (Inl e, w2)
       | (Inr res, w2) \<Rightarrow> (Inr (res\<lparr>rs_headers := header_insert x_correlation_id i (rs_headers res)\<rparr>), w2))"
    using assms(2,3) valid lawful_uuid(1) [OF assms(1)]
    by (auto simp: users_correlation_id_middleware_def correlated_def Let_def io_simps edge_uuid_def run_next_def
        split: option.splits sum.split prod.split)
qed

section \<open>The standard answer\<close>

text \<open>What the client gets for what the inner service answered.\<close>

definition conforms :: "http_crates \<Rightarrow> str \<Rightarrow> http_response \<Rightarrow> http_response \<Rightarrow> bool" where
  "conforms H i inner res \<longleftrightarrow>
     rs_status res = rs_status inner \<and> header_str (rs_headers res) x_correlation_id = Some i \<and>
     (if rs_status inner < 400 then rs_body res = rs_body inner
      else \<exists>m now. rs_body res = Bytes (hc_print H (rs_status inner) m i now) \<and> trim m \<noteq> [] \<and>
        header_str (rs_headers res) (u ''content-type'') = Some (u ''application/json''))"

text \<open>An error whose body is no more than the middleware reads.\<close>

definition readable :: "http_response \<Rightarrow> bool" where
  "readable res \<longleftrightarrow> rs_status res < 400 \<or> to_bytes (rs_body res) (1024 * 1024) \<noteq> None"

lemma json_content_type: "header_str [(u ''content-type'', u ''application/json'')] (u ''content-type'') = Some (u ''application/json'')"
  by (simp add: header_str_def header_byte_ok_def u_def to_lower_def lower_cp_def)

lemma standard_body_conforms:
  assumes "header_value i = Some i" "400 \<le> rs_status inner" "trim m \<noteq> []"
  shows "conforms H i inner ((standard_body H inner m i now)
    \<lparr>rs_headers := header_insert x_correlation_id i (rs_headers (standard_body H inner m i now))\<rparr>)"
  using assms(2,3) header_inserted [OF assms(1)]
  by (auto simp: conforms_def standard_body_def header_kept json_content_type)

lemma success_conforms:
  assumes "header_value i = Some i" "rs_status inner < 400"
  shows "conforms H i inner (inner\<lparr>rs_headers := header_insert x_correlation_id i (rs_headers inner)\<rparr>)"
  using assms(2) header_inserted [OF assms(1)] by (simp add: conforms_def)

lemma accounts_conforms:
  assumes "http_lawful H" "starts_with (u ''/api/'') (rq_path req)" "correlated H req w = (i, req', w1)"
    and "readable (fst (nx req' w1))"
  shows "conforms H i (fst (nx req' w1)) (fst (answer err (correlation_id_middleware H nx req) w))"
    "conforms H i (fst (nx req' w1)) (fst (answer err' (users_correlation_id_middleware H nx req) w))"
proof -
  note valid = correlatedD(1) [OF assms(1,3)]
  note run = correlation_middleware_run [OF assms(1-3), of nx]
  have "conforms H i (fst (nx req' w1)) (fst (answer err (correlation_id_middleware H nx req) w)) \<and>
    conforms H i (fst (nx req' w1)) (fst (answer err' (users_correlation_id_middleware H nx req) w))"
  proof (cases "rs_status (fst (nx req' w1)) < 400")
    case True
    then show ?thesis
      using success_conforms [OF valid True]
      by (simp add: answer_def run standardize_error_response_def users_standardize_error_response_def ret_apply)
  next
    case False
    then obtain bytes where "to_bytes (rs_body (fst (nx req' w1))) (1024 * 1024) = Some bytes"
      using assms(4) by (auto simp: readable_def)
    then show ?thesis
      using False standard_body_conforms [OF valid _ message_not_blank [OF assms(1)]]
      by (simp add: answer_def run standardize_error_response_def users_standardize_error_response_def
          users_error_message_from_body_def io_simps edge_now_def Let_def)
  qed
  then show "conforms H i (fst (nx req' w1)) (fst (answer err (correlation_id_middleware H nx req) w))"
    "conforms H i (fst (nx req' w1)) (fst (answer err' (users_correlation_id_middleware H nx req) w))" by blast+
qed

lemma audit_conforms:
  assumes "http_lawful H" "starts_with (u ''/api/'') (rq_path req)"
    and "correlated H req w = (i, req'', w1)" "req' = req\<lparr>rq_headers := try_header_insert i (rq_headers req)\<rparr>"
  shows "conforms H i (fst (nx req' w1)) (fst (audit_router H nx req w))"
proof -
  have valid: "header_value i = Some i" by (rule correlatedD(1) [OF assms(1,3)])
  have i: "i = (case trimmed_header (rq_headers req) x_correlation_id of Some s \<Rightarrow> s | None \<Rightarrow> hc_uuid H (eg_tick w))"
    and w1: "w1 = (case trimmed_header (rq_headers req) x_correlation_id of Some s \<Rightarrow> w | None \<Rightarrow> w\<lparr>eg_tick := Suc (eg_tick w)\<rparr>)"
    using assms(3) by (auto simp: correlated_def Let_def split: option.splits)
  let ?inner = "fst (nx req' w1)"
  have m: "trim (case to_bytes (rs_body ?inner) (1024 * 1024) of
      Some bytes \<Rightarrow> audit_error_message_from_body H bytes (rs_status ?inner)
    | None \<Rightarrow> (case hc_reason H (rs_status ?inner) of Some r \<Rightarrow> r | None \<Rightarrow> u ''error'')) \<noteq> []"
    using message_not_blank [OF assms(1)] assms(1) blank_free
    by (auto simp: audit_error_message_from_body_def http_lawful_def split: option.splits)
  have "audit_router H nx req w =
      (case audit_standardize_error_response H ?inner i (snd (nx req' w1)) of
         (res, w3) \<Rightarrow> (res\<lparr>rs_headers := header_insert x_correlation_id i (rs_headers res)\<rparr>, w3))"
    using assms(2) valid
    by (simp add: audit_router_def Let_def i [symmetric] w1 [symmetric] assms(4) try_header_insert_def
        split: prod.split)
  then show ?thesis
    using success_conforms [OF valid] standard_body_conforms [OF valid _ m]
    by (simp add: audit_standardize_error_response_def Let_def case_prod_beta)
qed

section \<open>Rate limits and errors as inner answers\<close>

lemma error_http_readable:
  assumes "http_lawful H" "status < 1000" "length m \<le> 100000" "unicode m"
  shows "readable (fst (error_http H status m w))"
proof -
  let ?c = "hc_uuid H (eg_tick w)" and ?t = "hc_now H (Suc (eg_tick w))"
  have "length (hc_print H status m ?c ?t) \<le> 100 + 6 * (length m + length ?c + length ?t)"
    "length ?c = 36" "length ?t \<le> 40"
    using assms(1,2,4) unicode_drawn [OF assms(1)] unfolding http_lawful_def by blast+
  then have "length (hc_print H status m ?c ?t) \<le> 1024 * 1024" using assms(3) by simp
  then show ?thesis by (simp add: readable_def error_http_def to_bytes_def)
qed

lemma limited_readable:
  assumes "http_lawful H" "\<And>r v. readable (fst (handlers r v))"
  shows "readable (fst (create_api_routes H I handlers req w))" "readable (fst (merged_routes H I handlers req w))"
proof -
  have short: "length (error_to_string TooManyRequests) \<le> 100000" "unicode (error_to_string TooManyRequests)"
    "length (users_error_to_string U_Too_Many_Requests) \<le> 100000" "unicode (users_error_to_string U_Too_Many_Requests)"
    by (simp_all add: u_def unicode_def)
  have too_many: "readable (fst (app_error_http H TooManyRequests v))" "readable (fst (users_error_http H U_Too_Many_Requests v))"
    for v :: "'w edge"
    unfolding app_error_http_def users_error_http_def
    by (rule error_http_readable [OF assms(1) _ short(1,2)] error_http_readable [OF assms(1) _ short(3,4)]; simp)+
  show "readable (fst (create_api_routes H I handlers req w))"
    using too_many(1) assms(2)
    by (auto simp: create_api_routes_def answer_def money_rate_limit_middleware_def rate_limit_layer_def run_next_def
        throw_apply split: prod.split)
  show "readable (fst (merged_routes H I handlers req w))"
    using too_many(2) assms(2)
    by (auto simp: merged_routes_def answer_def auth_rate_limit_middleware_def rate_limit_layer_def run_next_def
        throw_apply split: prod.split)
qed

text \<open>The check of internal callers.\<close>

definition internal_token_list :: "http_crates \<Rightarrow> str" where
  "internal_token_list H = (case hc_env H (u ''INTERNAL_SERVICE_TOKEN_ALLOWLIST'') of Some v \<Rightarrow> v | None \<Rightarrow> [])"

definition internal_admitted :: "http_crates \<Rightarrow> 'ip http_request \<Rightarrow> bool" where
  "internal_admitted H req \<longleftrightarrow> \<not> sensitive_path (rq_path req) \<or> trim (internal_token_list H) = [] \<or>
     (\<exists>token. header_str (rq_headers req) (u ''x-internal-service-token'') = Some token \<and>
        trim token \<in> set (allowed_tokens (internal_token_list H)))"

lemma internal_caller_run:
  "internal_caller_middleware H nx req =
     (if internal_admitted H req then run_next nx req else throw U_Unrecognized_Source)"
proof -
  have "[] \<notin> set (allowed_tokens raw)" for raw by (simp add: allowed_tokens_def)
  moreover have "trim ([] :: str) = []" by (simp add: trim_def trim_start_def trim_end_def)
  ultimately show ?thesis
    by (auto simp: internal_caller_middleware_def internal_admitted_def internal_token_list_def Let_def
        split: option.splits)
qed

lemma register_routes_run:
  "register_routes H I handlers req w =
     (if internal_admitted H req
      then answer (users_error_http H) (users_correlation_id_middleware H (merged_routes H I handlers) req) w
      else users_error_http H U_Unrecognized_Source w)"
  by (simp add: register_routes_def answer_def internal_caller_run run_next_def throw_apply)

section \<open>Concrete crates\<close>

text \<open>Three bytes per character.\<close>

definition demo_encode :: "str \<Rightarrow> 8 word list" where
  "demo_encode m = concat (map (\<lambda>c. [of_nat (c mod 256), of_nat (c div 256 mod 256), of_nat (c div 65536)]) m)"

fun demo_decode :: "8 word list \<Rightarrow> str" where
  "demo_decode (a # b # c # rest) = (unat a + 256 * unat b + 65536 * unat c) # demo_decode rest"
| "demo_decode _ = []"

lemma unat_byte: "n < 256 \<Longrightarrow> unat (of_nat n :: 8 word) = n"
  by (simp add: unat_of_nat)

lemma demo_decode_encode: "unicode m \<Longrightarrow> demo_decode (demo_encode m) = m"
proof (induction m)
  case (Cons c m)
  then have "c < 0x110000" "unicode m" by (simp_all add: unicode_def)
  then have "unat (of_nat (c div 65536) :: 8 word) = c div 65536" by (intro unat_byte) simp
  moreover have "unat (of_nat (c mod 256) :: 8 word) = c mod 256"
    "unat (of_nat (c div 256 mod 256) :: 8 word) = c div 256 mod 256" by (intro unat_byte; simp)+
  moreover have "c mod 256 + 256 * (c div 256 mod 256) + 65536 * (c div 65536) = c"
    using mod_mult2_eq [of c 256 256] mod_mult_div_eq [of c 65536] by simp
  moreover have "demo_decode (demo_encode m) = m" by (rule Cons.IH [OF \<open>unicode m\<close>])
  ultimately show ?case by (simp add: demo_encode_def)
qed (simp add: demo_encode_def)

definition demo_field :: "8 word list \<Rightarrow> (str \<Rightarrow> json_value option) option" where
  "demo_field bs =
     (case bs of
        a # b # rest \<Rightarrow> Some (\<lambda>k. if k = u ''status'' then Some (Json_Number (unat a + 256 * unat b))
           else if k = u ''message'' then Some (Json_String (demo_decode rest)) else None)
      | _ \<Rightarrow> None)"

definition demo_http :: "str option \<Rightarrow> http_crates" where
  "demo_http allowlist =
     \<lparr>hc_get = demo_field,
      hc_print = (\<lambda>st m c t. of_nat (st mod 256) # of_nat (st div 256) # demo_encode m),
      hc_reason = (\<lambda>_. None), hc_uuid = (\<lambda>_. replicate 36 48), hc_now = (\<lambda>_. u ''0''), hc_instant = int,
      hc_env = (\<lambda>k. if k = u ''INTERNAL_SERVICE_TOKEN_ALLOWLIST'' then allowlist else None)\<rparr>"

lemma demo_http_lawful: "http_lawful (demo_http allowlist)"
proof -
  have fields: "\<exists>field. demo_field (of_nat (st mod 256) # of_nat (st div 256) # demo_encode m) = Some field \<and>
      field (u ''status'') = Some (Json_Number st) \<and> field (u ''message'') = Some (Json_String m)"
    if "st < 1000" "unicode m" for st m
  proof -
    have "unat (of_nat (st mod 256) :: 8 word) = st mod 256" "unat (of_nat (st div 256) :: 8 word) = st div 256"
      using that(1) by (intro unat_byte; simp)+
    moreover have "u ''status'' \<noteq> u ''message''" by (simp add: u_def)
    ultimately show ?thesis using demo_decode_encode [OF that(2)] by (simp add: demo_field_def)
  qed
  have "length (demo_encode m) = 3 * length m" for m by (induction m) (simp_all add: demo_encode_def)
  moreover have "trim (replicate 36 (48 :: nat)) = replicate 36 48"
    by (simp add: trim_def trim_start_def trim_end_def is_ws_def dropWhile_eq_self_iff)
  ultimately show ?thesis
    using fields by (auto simp: http_lawful_def demo_http_def unicode_def header_byte_ok_def u_def list_all_iff)
qed

definition demo_request_to :: "string \<Rightarrow> headers \<Rightarrow> unit http_request" where
  "demo_request_to path hs = \<lparr>rq_path = u path, rq_headers = hs, rq_peer = None\<rparr>"

definition demo_edge :: "nat edge" where
  "demo_edge = \<lparr>eg_inner = 0, eg_limiter = Map.empty, eg_tick = 0\<rparr>"

definition demo_ips :: "unit ip_codec" where
  "demo_ips = \<lparr>ip_parse = (\<lambda>_. None), ip_str = (\<lambda>_. [])\<rparr>"

section \<open>Properties\<close>

text \<open>
  C37. The answers under \<^verbatim>\<open>/api/\<close>. In the accounts and audit services every answer is
  standard, and in the users service every answer to a request that the check of internal callers admits:
  the handlers see the correlation id of the request, or a fresh one where it has none, and the answer
  carries the same id; a success keeps its status and body; an error keeps its status, and its body is the
  standard object with a message that is not blank. A request the users service does not admit is answered
  outside that layer, with a 403 that has no correlation header and, in its body, an id the client never
  saw. The bodies of errors have to be within what the middleware reads; in the audit service not even
  that.
\<close>

theorem api_answers_standard:
  assumes "http_lawful H" "starts_with (u ''/api/'') (rq_path req)" "correlated H req w = (i, req', w1)"
    and "\<And>r v. readable (fst (handlers r v))"
  shows "trimmed_header (rq_headers req') x_correlation_id = Some i \<and>
    conforms H i (fst (create_api_routes H I handlers req' w1)) (fst (create_router H I handlers req w)) \<and>
    (if internal_admitted H req
     then conforms H i (fst (merged_routes H I handlers req' w1)) (fst (register_routes H I handlers req w))
     else fst (register_routes H I handlers req w) =
       \<lparr>rs_status = 403, rs_headers = [(u ''content-type'', u ''application/json'')],
        rs_body = Bytes (hc_print H 403 (u ''Request rejected: API called from an unrecognized source.'')
          (hc_uuid H (eg_tick w)) (hc_now H (Suc (eg_tick w))))\<rparr>) \<and>
    conforms H i (fst (any_handlers (req\<lparr>rq_headers := try_header_insert i (rq_headers req)\<rparr>) w1))
      (fst (audit_router H any_handlers req w))"
proof -
  have "readable (fst (create_api_routes H I handlers req' w1))" "readable (fst (merged_routes H I handlers req' w1))"
    by (rule limited_readable [OF assms(1,4)])+
  then have "conforms H i (fst (create_api_routes H I handlers req' w1)) (fst (create_router H I handlers req w))"
    "internal_admitted H req \<Longrightarrow>
       conforms H i (fst (merged_routes H I handlers req' w1)) (fst (register_routes H I handlers req w))"
    using accounts_conforms [OF assms(1-3)] by (simp_all add: create_router_def register_routes_run)
  moreover have "\<not> internal_admitted H req \<Longrightarrow> fst (register_routes H I handlers req w) =
       \<lparr>rs_status = 403, rs_headers = [(u ''content-type'', u ''application/json'')],
        rs_body = Bytes (hc_print H 403 (u ''Request rejected: API called from an unrecognized source.'')
          (hc_uuid H (eg_tick w)) (hc_now H (Suc (eg_tick w))))\<rparr>"
    by (simp add: register_routes_run users_error_http_def error_http_def)
  ultimately show ?thesis
    using correlatedD(2) [OF assms(1,3)] audit_conforms [OF assms(1-3) refl, of any_handlers] by presburger
qed

text \<open>A request without an id, answered with 404 and no body.\<close>

theorem api_answers_standard_witness:
  "conforms (demo_http None) (replicate 36 48) \<lparr>rs_status = 404, rs_headers = [], rs_body = Bytes []\<rparr>
     (fst (create_router (demo_http None) demo_ips (\<lambda>r w. (\<lparr>rs_status = 404, rs_headers = [], rs_body = Bytes []\<rparr>, w))
       (demo_request_to ''/api/v1/accounts'' []) demo_edge))"
proof -
  let ?H = "demo_http None" and ?req = "demo_request_to ''/api/v1/accounts'' []"
  let ?handlers = "\<lambda>r w. (\<lparr>rs_status = 404, rs_headers = [], rs_body = Bytes []\<rparr>, w) :: http_response \<times> nat edge"
  have path: "starts_with (u ''/api/'') (rq_path ?req)" "\<not> sensitive_path (rq_path ?req)" "\<not> money_path (rq_path ?req)"
    by (simp_all add: demo_request_to_def starts_with_def sensitive_path_def money_path_def u_def)
  obtain i req' w1 where c: "correlated ?H ?req demo_edge = (i, req', w1)" by (metis prod_cases3)
  then have i: "i = replicate 36 48" "rq_path req' = rq_path ?req"
    by (auto simp: correlated_def demo_request_to_def trimmed_header_def header_str_def demo_http_def Let_def)
  have readable: "readable (fst (?handlers r w))" for r w by (simp add: readable_def to_bytes_def)
  have "create_api_routes ?H demo_ips ?handlers req' w1 = ?handlers req' w1"
    using path(3) i(2) by (simp add: create_api_routes_def)
  with api_answers_standard [where handlers = ?handlers and any_handlers = ?handlers and I = demo_ips,
    OF demo_http_lawful path(1) c readable] i(1) show ?thesis by simp
qed

text \<open>
  With an allow-list of internal tokens configured, login and registration are for its holders: if such
  a request is answered by anything but 403, or anything behind the check changes, then it carried a token
  of the list.
\<close>

theorem internal_callers_only:
  assumes "sensitive_path (rq_path req)" "hc_env H (u ''INTERNAL_SERVICE_TOKEN_ALLOWLIST'') = Some raw" "trim raw \<noteq> []"
    and "rs_status (fst (register_routes H I handlers req w)) \<noteq> 403 \<or>
      eg_inner (snd (register_routes H I handlers req w)) \<noteq> eg_inner w \<or>
      eg_limiter (snd (register_routes H I handlers req w)) \<noteq> eg_limiter w"
  shows "\<exists>token. header_str (rq_headers req) (u ''x-internal-service-token'') = Some token \<and> trim token \<noteq> [] \<and>
    trim token \<in> set (map trim (split_on 44 raw))"
proof -
  have "internal_admitted H req"
  proof (rule ccontr)
    assume "\<not> ?thesis"
    then show False using assms(4) by (simp add: register_routes_run users_error_http_def error_http_def)
  qed
  then show ?thesis using assms(1-3) by (auto simp: internal_admitted_def internal_token_list_def allowed_tokens_def)
qed

theorem internal_callers_only_witness:
  "\<exists>token. header_str [(u ''x-internal-service-token'', u ''s'')] (u ''x-internal-service-token'') = Some token \<and>
     trim token \<noteq> [] \<and> trim token \<in> set (map trim (split_on 44 (u ''r,s'')))"
proof -
  let ?H = "demo_http (Some (u ''r,s''))"
  let ?req = "demo_request_to ''/api/v1/auth/login'' [(u ''x-internal-service-token'', u ''s'')]"
  let ?handlers = "\<lambda>r w. (\<lparr>rs_status = 200, rs_headers = [], rs_body = Bytes []\<rparr>, w) :: http_response \<times> nat edge"
  have path: "sensitive_path (rq_path ?req)" "starts_with (u ''/api/'') (rq_path ?req)"
    by (simp_all add: demo_request_to_def sensitive_path_def starts_with_def u_def)
  have given: "hc_env ?H (u ''INTERNAL_SERVICE_TOKEN_ALLOWLIST'') = Some (u ''r,s'')" "trim (u ''r,s'') \<noteq> []"
    by (simp_all add: demo_http_def trim_def trim_start_def trim_end_def is_ws_def u_def)
  then have admitted: "internal_admitted ?H ?req"
    by (simp add: internal_admitted_def internal_token_list_def allowed_tokens_def demo_request_to_def header_str_def
        header_byte_ok_def to_lower_def lower_cp_def u_def trim_def trim_start_def trim_end_def is_ws_def)
  obtain i req' w1 where c: "correlated ?H ?req demo_edge = (i, req', w1)" by (metis prod_cases3)
  have fresh: "eg_limiter w1 = Map.empty" using correlatedD(5) [OF demo_http_lawful c] by (simp add: demo_edge_def)
  have config: "auth_rate_limit_config (hc_env ?H) = \<lparr>rl_window = 60000000000, rl_max = 10\<rparr>"
    by (simp add: auth_rate_limit_config_def limiter_config_def parse_env_u64_def parse_env_u32_def demo_http_def u_def)
  have served: "fst (merged_routes ?H demo_ips ?handlers req' w1) = \<lparr>rs_status = 200, rs_headers = [], rs_body = Bytes []\<rparr>"
    by (auto simp: merged_routes_def answer_def auth_rate_limit_middleware_def rate_limit_layer_def config allow_def
        fresh Let_def run_next_def)
  then have "readable (fst (merged_routes ?H demo_ips ?handlers req' w1))" by (simp add: readable_def)
  from accounts_conforms(2) [where nx = "merged_routes ?H demo_ips ?handlers" and err' = "users_error_http ?H",
      OF demo_http_lawful path(2) c this]
  have "rs_status (fst (register_routes ?H demo_ips ?handlers ?req demo_edge)) = 200"
    using admitted served by (simp add: register_routes_run conforms_def)
  then have "rs_status (fst (register_routes ?H demo_ips ?handlers ?req demo_edge)) \<noteq> 403 \<or>
      eg_inner (snd (register_routes ?H demo_ips ?handlers ?req demo_edge)) \<noteq> eg_inner demo_edge \<or>
      eg_limiter (snd (register_routes ?H demo_ips ?handlers ?req demo_edge)) \<noteq> eg_limiter demo_edge" by simp
  from internal_callers_only [OF path(1) given this] show ?thesis by (simp add: demo_request_to_def)
qed

section \<open>Errors of handlers\<close>

definition reports :: "http_crates \<Rightarrow> str \<Rightarrow> app_error \<Rightarrow> http_response \<Rightarrow> bool" where
  "reports H i e res \<longleftrightarrow> rs_status res = status_code e \<and> header_str (rs_headers res) x_correlation_id = Some i \<and>
     (\<exists>now. rs_body res = Bytes (hc_print H (status_code e) (error_to_string e) i now))"

lemma error_text_not_blank: "trim (error_to_string e) \<noteq> []"
  by (cases e) (simp_all add: trim_Nil_iff u_def is_ws_def)

lemma error_reported:
  fixes w :: "'w edge"
  assumes "http_lawful H" "starts_with (u ''/api/'') (rq_path req)" "correlated H req w = (i, req', w1)"
    and "length (error_to_string e) \<le> 100000" "unicode (error_to_string e)" "nx req' w1 = app_error_http H e w2"
  shows "reports H i e (fst (answer (app_error_http H) (correlation_id_middleware H nx req) w)) \<and>
    eg_inner (snd (answer (app_error_http H) (correlation_id_middleware H nx req) w)) = eg_inner w2"
proof -
  note valid = correlatedD(1) [OF assms(1,3)]
  let ?inner = "fst (nx req' w1)"
  have status: "rs_status ?inner = response_status e" "\<not> response_status e < 400"
    using status_code_range [of e] by (simp_all add: assms(6) app_error_http_def error_http_def status_code_response)
  have "readable ?inner"
    unfolding assms(6) app_error_http_def
    using status_code_range [of e] by (intro error_http_readable assms) (simp add: status_code_response)
  then obtain bytes where bytes: "to_bytes (rs_body ?inner) (1024 * 1024) = Some bytes"
    using status by (auto simp: readable_def)
  have "error_message_from_body H bytes (response_status e) = error_to_string e"
    using bytes message_printed [OF assms(1) error_text_not_blank] status_code_range [of e] assms(5)
      unicode_drawn [OF assms(1)]
    by (auto simp: status_code_response assms(6) app_error_http_def error_http_def to_bytes_def split: if_splits)
  then have "standardize_error_response H ?inner i v =
      (Inr (standard_body H ?inner (error_to_string e) i (hc_now H (eg_tick v))), v\<lparr>eg_tick := Suc (eg_tick v)\<rparr>)" for v :: "'w edge"
    using status bytes by (simp add: standardize_error_response_def io_simps edge_now_def Let_def)
  then have run: "answer (app_error_http H) (correlation_id_middleware H nx req) w =
      (let v = snd (nx req' w1); res = standard_body H ?inner (error_to_string e) i (hc_now H (eg_tick v))
       in (res\<lparr>rs_headers := header_insert x_correlation_id i (rs_headers res)\<rparr>, v\<lparr>eg_tick := Suc (eg_tick v)\<rparr>))"
    by (simp add: answer_def correlation_middleware_run [OF assms(1-3)] Let_def)
  have "eg_inner (snd (nx req' w1)) = eg_inner w2" by (simp add: assms(6) app_error_http_def error_http_def)
  then show ?thesis
    unfolding run Let_def reports_def
    using status(1) header_inserted [OF valid] by (auto simp: standard_body_def status_code_response)
qed

text \<open>
  C38. What a handler of the accounts service reports reaches the client: its status, its text as the
  message, and the correlation id of the request; the handler's effect on the service stands. Before a
  money movement the limiter may answer instead, with 429 in the same form and no effect.
\<close>

theorem handler_error_reaches_client:
  assumes "http_lawful H" "starts_with (u ''/api/'') (rq_path req)" "correlated H req w = (i, req', w1)"
    and "length (error_to_string e) \<le> 100000" "unicode (error_to_string e)" "handler req' (eg_inner w) = (Inl e, v)"
    and "router = create_router H I (\<lambda>r. answer (app_error_http H) (on_inner render (handler r)))"
  shows "if money_path (rq_path req) \<and>
      \<not> fst (allow (money_rate_limit_config (hc_env H)) (hc_instant H (eg_tick w1))
          (extract_client_key I (hc_env H) ''ACCOUNTS_TRUSTED_PROXY_IPS'' (rq_peer req') (rq_headers req')) (eg_limiter w))
    then reports H i TooManyRequests (fst (router req w)) \<and> eg_inner (snd (router req w)) = eg_inner w
    else reports H i e (fst (router req w)) \<and> eg_inner (snd (router req w)) = v"
proof -
  let ?handlers = "\<lambda>r. answer (app_error_http H) (on_inner render (handler r))"
  let ?nx = "create_api_routes H I ?handlers"
  let ?limit = "allow (money_rate_limit_config (hc_env H)) (hc_instant H (eg_tick w1))
          (extract_client_key I (hc_env H) ''ACCOUNTS_TRUSTED_PROXY_IPS'' (rq_peer req') (rq_headers req')) (eg_limiter w)"
  note same = correlatedD(3-5) [OF assms(1,3)]
  have short: "length (error_to_string TooManyRequests) \<le> 100000" "unicode (error_to_string TooManyRequests)"
    by (simp_all add: u_def unicode_def)
  have handled: "?handlers req' x = app_error_http H e (x\<lparr>eg_inner := v\<rparr>)" if "eg_inner x = eg_inner w" for x
    using that assms(6) by (simp add: answer_def on_inner_def)
  consider (refused) "money_path (rq_path req)" "\<not> fst ?limit" | (served) "\<not> (money_path (rq_path req) \<and> \<not> fst ?limit)"
    by blast
  then show ?thesis
  proof cases
    case refused
    then have "\<exists>x. ?nx req' w1 = app_error_http H TooManyRequests x \<and> eg_inner x = eg_inner w"
      using same by (auto simp: create_api_routes_def answer_def money_rate_limit_middleware_def rate_limit_layer_def
          throw_apply split: prod.split)
    then obtain x where "?nx req' w1 = app_error_http H TooManyRequests x" "eg_inner x = eg_inner w" by blast
    with refused error_reported [OF assms(1-3) short] show ?thesis
      unfolding assms(7) create_router_def by simp
  next
    case served
    then have "\<exists>x. ?nx req' w1 = app_error_http H e x \<and> eg_inner x = v"
      using same handled
      by (auto simp: create_api_routes_def answer_def money_rate_limit_middleware_def rate_limit_layer_def run_next_def
          split: prod.split)
    then obtain x where "?nx req' w1 = app_error_http H e x" "eg_inner x = v" by blast
    with served error_reported [OF assms(1-5)] show ?thesis
      unfolding assms(7) create_router_def by auto
  qed
qed

text \<open>A deposit refused because the account is not active.\<close>

theorem handler_error_reaches_client_witness:
  "reports (demo_http None) (u ''c'') AccountNotActive
     (fst (create_router (demo_http None) demo_ips
       (\<lambda>r. answer (app_error_http (demo_http None)) (on_inner (\<lambda>_. (200, [])) (throw AccountNotActive :: (nat, app_error, unit) io)))
       (demo_request_to ''/api/v1/accounts/1/deposit'' [(x_correlation_id, u ''c'')]) demo_edge))"
proof -
  let ?H = "demo_http None" and ?req = "demo_request_to ''/api/v1/accounts/1/deposit'' [(x_correlation_id, u ''c'')]"
  have path: "starts_with (u ''/api/'') (rq_path ?req)" by (simp add: demo_request_to_def starts_with_def u_def)
  have c: "correlated ?H ?req demo_edge = (u ''c'', ?req, demo_edge)"
    by (simp add: correlated_def demo_request_to_def trimmed_header_def header_str_def header_byte_ok_def u_def
        trim_def trim_start_def trim_end_def is_ws_def)
  have short: "length (error_to_string AccountNotActive) \<le> 100000" "unicode (error_to_string AccountNotActive)"
    by (simp_all add: u_def unicode_def)
  have config: "money_rate_limit_config (hc_env ?H) = \<lparr>rl_window = 60000000000, rl_max = 20\<rparr>"
    by (simp add: money_rate_limit_config_def limiter_config_def parse_env_u64_def parse_env_u32_def demo_http_def u_def)
  have "fst (allow (money_rate_limit_config (hc_env ?H)) now key (eg_limiter demo_edge))" for now key
    by (simp add: config allow_def demo_edge_def Let_def)
  then show ?thesis
    using handler_error_reaches_client [OF demo_http_lawful path c short, of "\<lambda>_. throw AccountNotActive :: (nat, app_error, unit) io" 0 _ demo_ips "\<lambda>_. (200, [])", OF _ refl]
    by (simp add: throw_apply demo_edge_def)
qed

end
