(* ===== verification/Handler_Runs.thy ===== *)
theory Handler_Runs
  imports Handler_Spec Worker_Spec Account_Spec
begin

text \<open>
  What every operation of the accounts service does to its two tables: the HTTP handlers of
  \<open>Handlers\<close>, the listings of the service layer and the two workers of \<open>Retry_Worker\<close>,
  under faults and next to other instances. The relation \<open>db_runs\<close> of \<open>Service_Runs\<close> is carried
  through the handlers, and the table invariants follow from the statements alone.
\<close>

section \<open>The service layer and the handlers only run statements\<close>

lemma listing_runs:
  assumes "lawful P"
  shows "keeps db_runs (get_accounts_by_user P i env)"
    "keeps db_runs (get_accounts_by_organization P i env)"
    "keeps db_runs (get_accounts_by_admin P i env)"
    "keeps db_runs (get_accounts_by_user_paginated P i env pg pp)"
    "keeps db_runs (get_accounts_by_organization_paginated P i env pg pp)"
    "keeps db_runs (get_accounts_by_admin_paginated P i env pg pp)"
    "keeps db_runs (get_transactions_by_organization_paginated P i env pg pp)"
    "keeps db_runs (get_account P i env)"
    "keeps db_runs (close_account P i env)"
  using assms
  by (auto simp: get_accounts_by_user_def get_accounts_by_organization_def get_accounts_by_admin_def
      get_accounts_by_user_paginated_def get_accounts_by_organization_paginated_def
      get_accounts_by_admin_paginated_def get_transactions_by_organization_paginated_def
      find_accounts_by_organization_id_def find_accounts_by_admin_user_id_def
      find_by_user_id_paginated_def find_by_organization_id_paginated_def
      find_by_admin_user_id_paginated_def get_account_def close_account_def Let_def
      intro!: keeps_structure db_query_runs stmt_runs account_repo_runs tx_repo_runs service_runs split: prod.split)

lemma emit_runs: "keeps db_runs (spawn_audit_emit P hs peer verb path action org at ai roles tt ti status reason metadata)"
  by (rule keepsI) (simp add: spawn_audit_emit_def db_runs_def)

lemma display_runs: "keeps db_runs (display_balance P org env i c)"
  by (auto simp: display_balance_def intro!: keeps_structure ledger_client_runs)

lemma view_runs:
  "keeps db_runs (account_with_balance P env i a)"
  "keeps db_runs (transfer_balances P env a b)"
  by (auto simp: account_with_balance_def transfer_balances_def Let_def
      intro!: keeps_structure display_runs ledger_client_runs split: option.split prod.split)

lemma resolve_account_user_runs:
  "keeps db_runs (resolve_account_user_for_api_key P key env email f l)"
  by (auto simp: resolve_account_user_for_api_key_def Let_def intro!: keeps_structure effects_keep_db
      split: prod.split sum.split)

lemma audit_runs:
  assumes "lawful P"
  shows "keeps db_runs (audit_money P hs peer path action i env r)"
    "keeps db_runs (audit_status_change P hs peer verb action i env s r')"
  using assms
  by (auto simp: audit_money_def audit_status_change_def organization_of_def Let_def
      intro!: keeps_structure emit_runs listing_runs)

lemma fetch_balances_runs: "keeps db_runs (fetch_balances P org env xs cache)"
  by (induction P org env xs cache rule: fetch_balances.induct)
    (auto intro!: keeps_structure display_runs simp del: fun_upd_apply simp: fun_upd_def [symmetric])

lemma handler_runs:
  assumes "lawful P"
  shows "keeps db_runs (create_account P hs peer car)"
    "keeps db_runs (get_account_handler P hs i)"
    "keeps db_runs (list_accounts P hs laq)"
    "keeps db_runs (update_account_status_handler P hs peer i st)"
    "keeps db_runs (close_account_handler P hs peer i)"
    "keeps db_runs (deposit P i hs peer dr)"
    "keeps db_runs (withdraw P i hs peer wr)"
    "keeps db_runs (transfer P i hs peer trq)"
    "keeps db_runs (get_transaction_handler P hs i)"
    "keeps db_runs (list_account_transactions P hs i ltq)"
    "keeps db_runs (list_transactions P order hs ltq)"
proof -
  note base = keeps_structure emit_runs display_runs view_runs resolve_account_user_runs
    audit_runs [OF assms] listing_runs [OF assms] service_runs [OF assms] fetch_balances_runs
  show "keeps db_runs (create_account P hs peer car)"
    unfolding create_account_def Let_def by (auto intro!: base split: prod.split)
  show "keeps db_runs (get_account_handler P hs i)" "keeps db_runs (list_accounts P hs laq)"
    "keeps db_runs (update_account_status_handler P hs peer i st)" "keeps db_runs (close_account_handler P hs peer i)"
    unfolding get_account_handler_def list_accounts_def update_account_status_handler_def
      close_account_handler_def Let_def by (auto intro!: base)
  show "keeps db_runs (deposit P i hs peer dr)" "keeps db_runs (withdraw P i hs peer wr)"
    "keeps db_runs (transfer P i hs peer trq)"
    unfolding deposit_def withdraw_def transfer_def Let_def by (auto intro!: base split: prod.split)
  show "keeps db_runs (get_transaction_handler P hs i)" "keeps db_runs (list_account_transactions P hs i ltq)"
    "keeps db_runs (list_transactions P order hs ltq)"
    unfolding get_transaction_handler_def list_account_transactions_def list_transactions_def Let_def
    by (auto intro!: base split: prod.split list.split)
qed

lemma worker_loop_runs:
  assumes "lawful P"
  shows "keeps db_runs (retry_worker_run P n)" "keeps db_runs (reconcile_run P n)"
  using assms
  by (auto simp: retry_worker_run_def reconcile_run_def intro!: runs.keeps_for_each worker_runs)

section \<open>The tables stay well-formed\<close>

definition accounts_safe :: "db \<Rightarrow> db \<Rightarrow> bool" where
  "accounts_safe d d' \<longleftrightarrow> (db_ok d \<longrightarrow> db_ok d' \<and> db_evolves d d')"

lemma runs_safe: "keeps db_runs m \<Longrightarrow> accounts_safe (w_db w) (w_db (snd (m w)))"
  using db_steps_ok by (auto simp: keeps_def db_runs_def accounts_safe_def)

text \<open>
  C11. Every operation of the accounts service, whatever fails on the way and while other instances run
  theirs, keeps the tables safe. Identifiers, account numbers and idempotency keys stay unique and
  every row keeps the constraints of the schema; no row disappears; what an account is (its number,
  type, owner, organization, environment, currency) and what a transaction moves (accounts, amount,
  currency, kind, key, environment) never change, and retry counts never go down.
\<close>

theorem accounts_tables_safe:
  assumes "lawful P"
  shows "accounts_safe (w_db w) (w_db (snd (create_account P hs peer car w))) \<and>
    accounts_safe (w_db w) (w_db (snd (get_account_handler P hs i w))) \<and>
    accounts_safe (w_db w) (w_db (snd (list_accounts P hs laq w))) \<and>
    accounts_safe (w_db w) (w_db (snd (update_account_status_handler P hs peer i st w))) \<and>
    accounts_safe (w_db w) (w_db (snd (close_account_handler P hs peer i w))) \<and>
    accounts_safe (w_db w) (w_db (snd (deposit P i hs peer dr w))) \<and>
    accounts_safe (w_db w) (w_db (snd (withdraw P i hs peer wr w))) \<and>
    accounts_safe (w_db w) (w_db (snd (transfer P i hs peer trq w))) \<and>
    accounts_safe (w_db w) (w_db (snd (get_transaction_handler P hs i w))) \<and>
    accounts_safe (w_db w) (w_db (snd (list_account_transactions P hs i ltq w))) \<and>
    accounts_safe (w_db w) (w_db (snd (list_transactions P order hs ltq w))) \<and>
    accounts_safe (w_db w) (w_db (snd (retry_worker_run P n w))) \<and>
    accounts_safe (w_db w) (w_db (snd (reconcile_run P n w)))"
  using handler_runs [OF assms] worker_loop_runs [OF assms]
  by (intro conjI) (auto intro!: runs_safe)

theorem accounts_tables_safe_witness:
  "accounts_safe (w_db two_hours_later) (w_db (snd (reconcile_run demo_params 3 two_hours_later))) \<and>
   db_ok (w_db two_hours_later)"
proof -
  have "lawful (demo_params :: nat params)" by (rule lawful_undisturbed) (rule demo_params_ok(1))
  then have "accounts_safe (w_db two_hours_later) (w_db (snd (reconcile_run demo_params 3 two_hours_later)))"
    using accounts_tables_safe [of demo_params two_hours_later] by blast
  then show ?thesis
    by (simp add: two_hours_later_def db_ok_def account_table_ok_def tx_table_ok_def tx_row_ok_def stuck_def
        demo_row_def new_tx_row_def)
qed

end
