(* ===== verification/Store_Spec.thy ===== *)
theory Store_Spec
  imports Account_Spec
begin

text \<open>
  Abstract specifications of the two repositories, and the refinement: the transactions table with
  its statements behaves as a store of transactions with an index from idempotency keys to
  identifiers, the accounts table as a directory of accounts. Each repository function returns what
  the abstract operation returns and commutes with the abstraction. The last section states what
  the service relies on in the store as the locale \<open>put_if_absent\<close> and interprets it.
\<close>

section \<open>The store of transactions\<close>

type_synonym idem = "uuid \<times> str \<times> str"

record tx_store =
  st_by_id :: "uuid \<rightharpoonup> transaction"
  st_by_key :: "idem \<rightharpoonup> uuid"

definition store_lookup :: "idem \<Rightarrow> tx_store \<Rightarrow> transaction option" where
  "store_lookup k S = (case st_by_key S k of None \<Rightarrow> None | Some i \<Rightarrow> st_by_id S i)"

definition store_put :: "idem \<Rightarrow> transaction \<Rightarrow> tx_store \<Rightarrow> transaction \<times> tx_store" where
  "store_put k t S =
     (case store_lookup k S of
        Some old \<Rightarrow> (old, S)
      | None \<Rightarrow> (t, S\<lparr>st_by_id := (st_by_id S)(tx_id t \<mapsto> t), st_by_key := (st_by_key S)(k \<mapsto> tx_id t)\<rparr>))"

text \<open>A change of one transaction, if there is one to change and it may be changed.\<close>

definition store_change ::
  "uuid \<Rightarrow> (transaction \<Rightarrow> bool) \<Rightarrow> (transaction \<Rightarrow> transaction) \<Rightarrow> tx_store \<Rightarrow> transaction option \<times> tx_store" where
  "store_change i allowed f S =
     (case st_by_id S i of
        None \<Rightarrow> (None, S)
      | Some t \<Rightarrow>
          if allowed t then (Some (f t), S\<lparr>st_by_id := (st_by_id S)(i \<mapsto> f t)\<rparr>) else (None, S))"

definition set_status_of :: "transaction_status \<Rightarrow> str option \<Rightarrow> time \<Rightarrow> transaction \<Rightarrow> transaction" where
  "set_status_of s reason now t = t\<lparr>tx_status := s, tx_failure_reason := reason, tx_updated_at := now\<rparr>"

definition postpone :: "str \<Rightarrow> time \<Rightarrow> time \<Rightarrow> transaction \<Rightarrow> transaction" where
  "postpone reason at now t =
     (set_status_of Pending (Some reason) now t)\<lparr>tx_next_retry_at := Some at, tx_terminal_failure_at := None\<rparr>"

definition give_up :: "str \<Rightarrow> time \<Rightarrow> transaction \<Rightarrow> transaction" where
  "give_up reason now t =
     (set_status_of Failed (Some reason) now t)\<lparr>tx_next_retry_at := None, tx_terminal_failure_at := Some now\<rparr>"

text \<open>The queries that do not select the retry columns return the transaction without them.\<close>

definition brief :: "transaction \<Rightarrow> transaction" where
  "brief t = t\<lparr>tx_retry_count := 0, tx_last_attempted_at := None, tx_next_retry_at := None,
     tx_terminal_failure_at := None\<rparr>"

section \<open>The table as a store\<close>

definition stored :: "uuid \<Rightarrow> tx_row list \<Rightarrow> transaction option" where
  "stored i rows =
     (case filter (\<lambda>r. r_id r = i) rows of
        [] \<Rightarrow> None
      | r # _ \<Rightarrow> (case row_to_transaction True r of Inl _ \<Rightarrow> None | Inr t \<Rightarrow> Some t))"

definition indexed :: "idem \<Rightarrow> tx_row list \<Rightarrow> uuid option" where
  "indexed k rows = (case k of (org, env, key) \<Rightarrow> map_option r_id (List.find (idem_match org env key) rows))"

definition store_of :: "tx_row list \<Rightarrow> tx_store" where
  "store_of rows = \<lparr>st_by_id = (\<lambda>i. stored i rows), st_by_key = (\<lambda>k. indexed k rows)\<rparr>"

lemma store_of_simps [simp]:
  "st_by_id (store_of rows) i = stored i rows" "st_by_key (store_of rows) k = indexed k rows"
  by (simp_all add: store_of_def)

lemma row_to_transaction_brief:
  "row_to_transaction False r = map_sum id brief (row_to_transaction True r)"
  by (simp add: row_to_transaction_def brief_def split: option.split)

lemma stored_row:
  assumes "tx_table_ok rows" "r \<in> set rows"
  obtains t where "stored (r_id r) rows = Some t" "row_to_transaction True r = Inr t"
    "row_to_transaction False r = Inr (brief t)" "filter (\<lambda>x. r_id x = r_id r) rows = [r]"
proof -
  have "tx_row_ok r" "distinct (map r_id rows)" using assms by (auto simp: tx_table_ok_def list_all_iff)
  with row_to_transaction_ok [of r True] filter_id [OF _ assms(2)] show ?thesis
    by (auto simp: stored_def row_to_transaction_brief intro: that)
qed

lemma stored_none: "stored i rows = None \<longleftrightarrow> i \<notin> r_id ` set rows" if "tx_table_ok rows"
proof
  assume "stored i rows = None"
  then show "i \<notin> r_id ` set rows" using stored_row [OF that] by (metis imageE option.distinct(1))
next
  assume "i \<notin> r_id ` set rows"
  then have "filter (\<lambda>r. r_id r = i) rows = []" by (auto simp: filter_empty_conv)
  then show "stored i rows = None" by (simp add: stored_def)
qed

lemma stored_someE:
  assumes "tx_table_ok rows" "stored i rows = Some t"
  obtains r where "r \<in> set rows" "r_id r = i" "row_to_transaction True r = Inr t"
    "row_to_transaction False r = Inr (brief t)" "filter (\<lambda>x. r_id x = i) rows = [r]"
proof -
  have "i \<in> r_id ` set rows" using stored_none [OF assms(1), of i] assms(2) by (metis option.distinct(1))
  then obtain r where "r \<in> set rows" "r_id r = i" by auto
  with stored_row [OF assms(1), of r] assms(2) that show thesis by (metis option.inject)
qed

text \<open>The statements that change the row with one identifier.\<close>

lemma store_of_change:
  assumes ok: "tx_table_ok rows"
    and f: "\<And>r. r_id (f r) = r_id r" "\<And>r. idem_key (f r) = idem_key r"
    and g: "\<And>r t. row_to_transaction True r = Inr t \<Longrightarrow> row_to_transaction True (f r) = Inr (g t)"
    and p: "\<And>r t. row_to_transaction True r = Inr t \<Longrightarrow> p r = allowed t"
  shows "store_change i allowed g (store_of rows) =
    (case map f (filter (\<lambda>r. r_id r = i \<and> p r) rows) of
        [] \<Rightarrow> None | r # _ \<Rightarrow> (case row_to_transaction True r of Inl _ \<Rightarrow> None | Inr t \<Rightarrow> Some t),
     store_of (map (\<lambda>r. if r_id r = i \<and> p r then f r else r) rows))"
proof -
  let ?rows = "map (\<lambda>r. if r_id r = i \<and> p r then f r else r) rows"
  have key: "idem_match org env key (f r) = idem_match org env key r" for org env key r
    using f(2) [of r] by (auto simp: idem_match_def idem_key_def)
  have index: "indexed k ?rows = indexed k rows" for k
    by (induction rows) (auto simp: indexed_def f key split: prod.split)
  have other: "filter (\<lambda>r. r_id r = j) ?rows = filter (\<lambda>r. r_id r = j) rows" if "j \<noteq> i" for j
    using that by (induction rows) (auto simp: f)
  show ?thesis
  proof (cases "stored i rows")
    case None
    then have none: "i \<notin> r_id ` set rows" using stored_none [OF ok] by blast
    then have "filter (\<lambda>r. r_id r = i \<and> p r) rows = []" "?rows = rows"
      by (auto simp: filter_empty_conv intro!: map_idI)
    with None show ?thesis by (simp add: store_change_def)
  next
    case (Some t)
    from stored_someE [OF ok Some] obtain r where r: "r \<in> set rows" "r_id r = i"
      "row_to_transaction True r = Inr t" "filter (\<lambda>x. r_id x = i) rows = [r]" by blast
    have split: "filter (\<lambda>x. r_id x = i \<and> p x) rows = filter p [r]"
      unfolding r(4) [symmetric] by (simp add: conj_commute)
    have at: "filter (\<lambda>x. r_id x = i) ?rows = map (\<lambda>x. if p x then f x else x) [r]"
      unfolding r(4) [symmetric] by (induction rows) (auto simp: f)
    have "stored i ?rows = Some (if allowed t then g t else t)"
      using at g [OF r(3)] p [OF r(3)] r(3) by (simp add: stored_def)
    moreover have "stored j ?rows = stored j rows" if "j \<noteq> i" for j
      using other [OF that] by (simp add: stored_def)
    ultimately have "stored j ?rows =
        (if allowed t then (\<lambda>j. stored j rows)(i \<mapsto> g t) else (\<lambda>j. stored j rows)) j" for j
      using Some by (cases "j = i") simp_all
    then have "(\<lambda>j. stored j ?rows) =
        (if allowed t then (\<lambda>j. stored j rows)(i \<mapsto> g t) else (\<lambda>j. stored j rows))"
      by (rule ext)
    then show ?thesis
      using Some split p [OF r(3)] g [OF r(3)] index
      by (simp add: store_change_def store_of_def)
  qed
qed

text \<open>The insertion of a row.\<close>

lemma store_of_append:
  assumes "tx_table_ok rows" "insert_ok row rows" "r_environment row = Some env"
    and "row_to_transaction True row = Inr t"
    and "\<forall>r \<in> set rows. \<not> idem_match (r_organization_id row) env (r_idempotency_key row) r"
  shows "store_of (rows @ [row]) =
    (store_of rows)\<lparr>st_by_id := (\<lambda>i. stored i rows)(r_id row \<mapsto> t),
       st_by_key := (\<lambda>k. indexed k rows)((r_organization_id row, env, r_idempotency_key row) \<mapsto> r_id row)\<rparr>"
proof -
  have id: "r_id row \<notin> r_id ` set rows" using assms(2) by (simp add: insert_ok_def)
  have "filter (\<lambda>r. r_id r = r_id row) rows = []" using id by (simp add: filter_empty_conv) (metis imageI)
  then have "(\<lambda>i. stored i (rows @ [row])) = (\<lambda>i. stored i rows)(r_id row \<mapsto> t)"
    using assms(4) by (auto simp: stored_def fun_eq_iff split: list.split)
  moreover have "List.find p (rows @ [row]) =
      (case List.find p rows of None \<Rightarrow> if p row then Some row else None | Some r \<Rightarrow> Some r)" for p
    by (induction rows) auto
  moreover have "List.find (idem_match (r_organization_id row) env (r_idempotency_key row)) rows = None"
    using assms(5) by (auto simp: find_None_iff)
  ultimately show ?thesis
    using assms(3) by (auto simp: store_of_def indexed_def fun_eq_iff idem_match_def split: option.split)
qed

lemma indexed_none:
  "indexed (org, env, key) rows = None \<longleftrightarrow> (\<forall>r \<in> set rows. \<not> idem_match org env key r)"
  by (auto simp: indexed_def find_None_iff)

lemma lookup_store:
  assumes "tx_table_ok rows"
  shows "store_lookup (org, env, key) (store_of rows) =
    (case select_idem_stmt org env key rows of [] \<Rightarrow> None
     | r # _ \<Rightarrow> (case row_to_transaction True r of Inl _ \<Rightarrow> None | Inr t \<Rightarrow> Some t))"
proof (cases "indexed (org, env, key) rows")
  case None
  then have "filter (idem_match org env key) rows = []" by (simp add: indexed_none filter_empty_conv)
  with None show ?thesis by (simp add: store_lookup_def select_idem_stmt_def)
next
  case (Some i)
  then obtain r where r: "r \<in> set rows" "idem_match org env key r" "r_id r = i"
    by (auto simp: indexed_def find_Some_iff in_set_conv_nth)
  from stored_row [OF assms r(1)] obtain t where "stored i rows = Some t" "row_to_transaction True r = Inr t"
    using r(3) by metis
  with Some select_idem_unique [OF assms r(1,2)] show ?thesis by (simp add: store_lookup_def)
qed

section \<open>The repository refines the store\<close>

lemma status_row_change:
  assumes "row_to_transaction True r = Inr t"
  shows "row_to_transaction True (r\<lparr>r_status := status_str s, r_failure_reason := m, r_updated_at := at\<rparr>) =
      Inr (set_status_of s m at t)"
    "row_to_transaction True (r\<lparr>r_status := u ''pending'', r_failure_reason := Some txt, r_next_retry_at := Some n,
        r_terminal_failure_at := None, r_updated_at := at\<rparr>) = Inr (postpone txt n at t)"
    "row_to_transaction True (r\<lparr>r_status := u ''failed'', r_failure_reason := Some txt, r_next_retry_at := None,
        r_terminal_failure_at := Some at, r_updated_at := at\<rparr>) = Inr (give_up txt at t)"
  using assms parse_status_str [of Pending] parse_status_str [of Failed]
  by (auto simp: row_to_transaction_def set_status_of_def postpone_def give_up_def split: option.splits)

lemma pending_row:
  "row_to_transaction True r = Inr t \<Longrightarrow> r_status r = u ''pending'' \<longleftrightarrow> tx_status t = Pending"
  using row_to_transaction_InrD(2) [of True r t] by (cases "tx_status t") auto

text \<open>What the statements return and leave, as changes of the store.\<close>

lemma change_eval:
  assumes ok: "tx_table_ok rows"
    and f: "\<And>r. r_id (f r) = r_id r" "\<And>r. idem_key (f r) = idem_key r"
    and g: "\<And>r t. row_to_transaction True r = Inr t \<Longrightarrow> row_to_transaction True (f r) = Inr (g t)"
    and p: "\<And>r t. row_to_transaction True r = Inr t \<Longrightarrow> p r = allowed t"
  shows "map_prod (optional_transaction True) store_of (update_returning (\<lambda>r. r_id r = i \<and> p r) f rows) =
    map_prod Inr id (store_change i allowed g (store_of rows))"
proof -
  have "optional_transaction True (map f (filter (\<lambda>r. r_id r = i \<and> p r) rows)) =
      Inr (case map f (filter (\<lambda>r. r_id r = i \<and> p r) rows) of
        [] \<Rightarrow> None | r # _ \<Rightarrow> (case row_to_transaction True r of Inl _ \<Rightarrow> None | Inr t \<Rightarrow> Some t))"
  proof (cases "filter (\<lambda>r. r_id r = i \<and> p r) rows")
    case Nil
    then show ?thesis by (simp add: optional_transaction_def fetch_optional_def)
  next
    case (Cons r rest)
    then have "r \<in> set (filter (\<lambda>r. r_id r = i \<and> p r) rows)" by simp
    then have "r \<in> set rows" by simp
    from stored_row [OF ok this] obtain t where "row_to_transaction True r = Inr t" by blast
    then show ?thesis using Cons g by (simp add: optional_transaction_def fetch_optional_def)
  qed
  moreover have "store_change i allowed g (store_of rows) =
      (case map f (filter (\<lambda>r. r_id r = i \<and> p r) rows) of
        [] \<Rightarrow> None | r # _ \<Rightarrow> (case row_to_transaction True r of Inl _ \<Rightarrow> None | Inr t \<Rightarrow> Some t),
       store_of (map (\<lambda>r. if r_id r = i \<and> p r then f r else r) rows))"
    by (rule store_of_change) (fact ok f g p)+
  ultimately show ?thesis by (simp add: update_returning_def)
qed

lemma change_stmts:
  assumes "tx_table_ok rows"
  shows "map_prod (optional_transaction True) store_of (try_claim_stmt now i rows) =
      map_prod Inr id (store_change i (\<lambda>t. tx_status t = Pending) (set_status_of Posting None now) (store_of rows))"
    "map_prod (optional_transaction True) store_of (update_status_stmt now i s m rows) =
      map_prod Inr id (store_change i (\<lambda>_. True) (set_status_of s m now) (store_of rows))"
    "map_prod (optional_transaction True) store_of (schedule_retry_stmt now i txt at rows) =
      map_prod Inr id (store_change i (\<lambda>_. True) (postpone txt at now) (store_of rows))"
    "map_prod (optional_transaction True) store_of (mark_terminal_stmt now i txt rows) =
      map_prod Inr id (store_change i (\<lambda>_. True) (give_up txt now) (store_of rows))"
proof -
  show "map_prod (optional_transaction True) store_of (try_claim_stmt now i rows) =
      map_prod Inr id (store_change i (\<lambda>t. tx_status t = Pending) (set_status_of Posting None now) (store_of rows))"
    unfolding try_claim_stmt_def
    by (rule change_eval [OF assms])
      (simp_all add: idem_key_def pending_row status_row_change(1) [where s = Posting, simplified])
  note any = change_eval [OF assms, where p = "\<lambda>_. True" and allowed = "\<lambda>_. True", simplified]
  show "map_prod (optional_transaction True) store_of (update_status_stmt now i s m rows) =
      map_prod Inr id (store_change i (\<lambda>_. True) (set_status_of s m now) (store_of rows))"
    "map_prod (optional_transaction True) store_of (schedule_retry_stmt now i txt at rows) =
      map_prod Inr id (store_change i (\<lambda>_. True) (postpone txt at now) (store_of rows))"
    "map_prod (optional_transaction True) store_of (mark_terminal_stmt now i txt rows) =
      map_prod Inr id (store_change i (\<lambda>_. True) (give_up txt now) (store_of rows))"
    unfolding update_status_stmt_def schedule_retry_stmt_def mark_terminal_stmt_def
    by (rule any; simp add: idem_key_def status_row_change)+
qed

lemma row_views:
  "optional_transaction False rows = map_sum id (map_option brief) (optional_transaction True rows)"
  "one_transaction True rows =
     (case optional_transaction True rows of Inl e \<Rightarrow> Inl e | Inr x \<Rightarrow> ok_or x row_not_found)"
  "one_transaction False rows =
     (case optional_transaction True rows of Inl e \<Rightarrow> Inl e | Inr x \<Rightarrow> ok_or (map_option brief x) row_not_found)"
  by (cases rows;
      auto simp: optional_transaction_def one_transaction_def fetch_optional_def fetch_one_def
        row_to_transaction_brief ok_or_def split: sum.split)+

abbreviation txs_of :: "'x world \<Rightarrow> tx_store" where
  "txs_of w \<equiv> store_of (db_transactions (w_db w))"

text \<open>A function of the repository that runs one such statement and returns what it changed.\<close>

lemma refines_change:
  assumes "undisturbed P"
    and "map_prod (optional_transaction True) store_of (stmt (p_clock P (w_tick w)) (db_transactions (w_db w))) =
      map_prod Inr id (store_change i allowed g (txs_of w))"
  shows "bind_io (db_query P (\<lambda>t. tx_update (stmt (p_clock P t)))) (\<lambda>rows. lift_result (h rows)) w =
    (h (fst (stmt (p_clock P (w_tick w)) (db_transactions (w_db w)))),
     w\<lparr>w_db := (w_db w)\<lparr>db_transactions := snd (stmt (p_clock P (w_tick w)) (db_transactions (w_db w)))\<rparr>,
       w_tick := Suc (w_tick w)\<rparr>)"
    "optional_transaction True (fst (stmt (p_clock P (w_tick w)) (db_transactions (w_db w)))) =
       Inr (fst (store_change i allowed g (txs_of w)))"
    "store_of (snd (stmt (p_clock P (w_tick w)) (db_transactions (w_db w)))) =
       snd (store_change i allowed g (txs_of w))"
  using assms by (simp_all add: io_simps tx_update_def on_transactions_def map_prod_def split: prod.splits)

lemma repository_changes:
  assumes "undisturbed P" "tx_table_ok (db_transactions (w_db w))"
  defines "now \<equiv> p_clock P (w_tick w)"
  shows "map_prod id txs_of (try_claim_pending_for_post P i w) =
      map_prod (Inr \<circ> map_option brief) id
        (store_change i (\<lambda>t. tx_status t = Pending) (set_status_of Posting None now) (txs_of w))"
    "map_prod id txs_of (update_status P i s m w) =
      map_prod (\<lambda>x. ok_or (map_option brief x) row_not_found) id
        (store_change i (\<lambda>_. True) (set_status_of s m now) (txs_of w))"
    "map_prod id txs_of (schedule_retry P i txt at w) =
      map_prod (\<lambda>x. ok_or x row_not_found) id (store_change i (\<lambda>_. True) (postpone txt at now) (txs_of w))"
    "map_prod id txs_of (mark_terminal_failure P i txt w) =
      map_prod (\<lambda>x. ok_or x row_not_found) id (store_change i (\<lambda>_. True) (give_up txt now) (txs_of w))"
proof -
  note stmts = change_stmts [OF assms(2)]
  show "map_prod id txs_of (try_claim_pending_for_post P i w) =
      map_prod (Inr \<circ> map_option brief) id
        (store_change i (\<lambda>t. tx_status t = Pending) (set_status_of Posting None now) (txs_of w))"
    unfolding try_claim_pending_for_post_def now_def
    by (simp add: refines_change [OF assms(1), where stmt = "\<lambda>now. try_claim_stmt now i", OF stmts(1)] row_views map_prod_def
        split: prod.split)
  show "map_prod id txs_of (update_status P i s m w) =
      map_prod (\<lambda>x. ok_or (map_option brief x) row_not_found) id
        (store_change i (\<lambda>_. True) (set_status_of s m now) (txs_of w))"
    unfolding update_status_def now_def
    by (simp add: refines_change [OF assms(1), where stmt = "\<lambda>now. update_status_stmt now i s m", OF stmts(2)] row_views
        map_prod_def split: prod.split)
  show "map_prod id txs_of (schedule_retry P i txt at w) =
      map_prod (\<lambda>x. ok_or x row_not_found) id (store_change i (\<lambda>_. True) (postpone txt at now) (txs_of w))"
    unfolding schedule_retry_def now_def
    by (simp add: refines_change [OF assms(1), where stmt = "\<lambda>now. schedule_retry_stmt now i txt at", OF stmts(3)] row_views
        map_prod_def split: prod.split)
  show "map_prod id txs_of (mark_terminal_failure P i txt w) =
      map_prod (\<lambda>x. ok_or x row_not_found) id (store_change i (\<lambda>_. True) (give_up txt now) (txs_of w))"
    unfolding mark_terminal_failure_def now_def
    by (simp add: refines_change [OF assms(1), where stmt = "\<lambda>now. mark_terminal_stmt now i txt", OF stmts(4)] row_views
        map_prod_def split: prod.split)
qed

lemma repository_reads:
  assumes "undisturbed P" "tx_table_ok (db_transactions (w_db w))"
  shows "map_prod id txs_of (find_by_idempotency P org env key w) =
      (Inr (map_option brief (store_lookup (org, env, key) (txs_of w))), txs_of w)"
    "map_prod id txs_of (find_tx_by_id P i w) =
      (ok_or (map_option brief (st_by_id (txs_of w) i))
         (NotFound (u ''Transaction with id '' @ p_uuid_str P i @ u '' not found'')), txs_of w)"
proof -
  let ?rows = "db_transactions (w_db w)"
  have row: "optional_transaction True (r # rest) = Inr (Some t)" if "row_to_transaction True r = Inr t" for r rest t
    using that by (simp add: optional_transaction_def fetch_optional_def)
  show "map_prod id txs_of (find_by_idempotency P org env key w) =
      (Inr (map_option brief (store_lookup (org, env, key) (txs_of w))), txs_of w)"
  proof (cases "select_idem_stmt org env key ?rows")
    case Nil
    then show ?thesis using assms
      by (simp add: find_by_idempotency_def io_simps tx_read_def lookup_store optional_transaction_def fetch_optional_def)
  next
    case (Cons r rest)
    then have "r \<in> set (select_idem_stmt org env key ?rows)" by simp
    then have "r \<in> set ?rows" by (auto simp: select_idem_stmt_def dest: in_set_takeD)
    from stored_row [OF assms(2) this] obtain t where "row_to_transaction True r = Inr t" by blast
    then show ?thesis using Cons assms
      by (simp add: find_by_idempotency_def io_simps tx_read_def lookup_store row_views row)
  qed
  show "map_prod id txs_of (find_tx_by_id P i w) =
      (ok_or (map_option brief (st_by_id (txs_of w) i))
         (NotFound (u ''Transaction with id '' @ p_uuid_str P i @ u '' not found'')), txs_of w)"
  proof (cases "stored i ?rows")
    case None
    then have "select_id_stmt i ?rows = []"
      using stored_none [OF assms(2)] by (auto simp: select_id_stmt_def filter_empty_conv)
    with None show ?thesis using assms(1)
      by (simp add: find_tx_by_id_def io_simps tx_read_def fetch_optional_def ok_or_def)
  next
    case (Some t)
    from stored_someE [OF assms(2) Some] obtain r where
      "row_to_transaction False r = Inr (brief t)" "filter (\<lambda>x. r_id x = i) ?rows = [r]" by blast
    with Some show ?thesis using assms(1)
      by (simp add: find_tx_by_id_def io_simps tx_read_def fetch_optional_def ok_or_def select_id_stmt_def)
  qed
qed

lemma repository_creates:
  fixes org f t' :: uuid and a :: "64 word" and c key env :: str and k :: transaction_kind
    and desc x :: "str option" and ref :: "uuid option" and w :: "'x world"
  assumes P: "undisturbed P" and ok: "tx_table_ok (db_transactions (w_db w))"
  defines "now \<equiv> p_clock P (w_tick w)" and "fresh \<equiv> p_uuid P (w_tick w)"
  shows "case db_transaction P (create_or_get_by_idempotency P org f t' a c k key env desc x ref) w of
      (Inr t, w') \<Rightarrow> map_prod brief id (store_put (org, env, key)
        (new_transaction now fresh org f t' a c k key env desc x ref) (txs_of w)) = (t, txs_of w')
    | (Inl e, w') \<Rightarrow> e = Database (p_constraint_error P) \<and> txs_of w' = txs_of w \<and>
        store_lookup (org, env, key) (txs_of w) = None \<and>
        \<not> insert_ok (new_tx_row now fresh org f t' a c k key env desc x ref) (db_transactions (w_db w))"
proof -
  let ?rows = "db_transactions (w_db w)"
  let ?row = "new_tx_row now fresh org f t' a c k key env desc x ref"
  let ?t = "new_transaction now fresh org f t' a c k key env desc x ref"
  have full: "row_to_transaction True ?row = Inr ?t" and brief: "brief ?t = ?t"
    using row_to_transaction_new [of now fresh org f t' a c k key env desc x ref]
    by (simp_all add: row_to_transaction_def new_tx_row_def new_transaction_def brief_def split: option.splits)
  have id: "tx_id ?t = r_id ?row" by (simp add: new_transaction_def new_tx_row_def)
  have none: "store_lookup (org, env, key) (txs_of w) = None" if "\<forall>r \<in> set ?rows. \<not> idem_match org env key r"
    using that indexed_none [of org env key ?rows] by (simp add: store_lookup_def)
  note run = db_transaction_undisturbed [OF P] create_or_get_by_idempotency_def tx_try_update_def on_transactions_def
  show ?thesis
  proof (cases rule: create_or_get_cases [of ?rows ?row "p_constraint_error P"])
    case (old r)
    have match: "idem_match org env key r" using old(2-4) by (simp add: idem_match_def)
    from stored_row [OF ok old(1)] obtain t where t: "row_to_transaction True r = Inr t"
      "row_to_transaction False r = Inr (brief t)" by blast
    have "store_lookup (org, env, key) (txs_of w) = Some t"
      unfolding lookup_store [OF ok] select_idem_unique [OF ok old(1) match] using t(1) by simp
    with t(2) show ?thesis
      using old(5) by (simp add: run one_transaction_def fetch_one_def store_put_def now_def fresh_def)
  next
    case new
    have "store_of (?rows @ [?row]) = (txs_of w)\<lparr>st_by_id := (\<lambda>i. stored i ?rows)(fresh \<mapsto> ?t),
        st_by_key := (\<lambda>k. indexed k ?rows)((org, env, key) \<mapsto> fresh)\<rparr>"
      using store_of_append [OF ok new(1) _ full, of env] new(3) by simp
    moreover have "row_to_transaction False ?row = Inr ?t" by (rule row_to_transaction_new)
    ultimately show ?thesis
      using new none id brief
      by (simp add: run one_transaction_def fetch_one_def store_put_def now_def fresh_def store_of_def)
  next
    case rejected
    then have "\<forall>r \<in> set ?rows. \<not> idem_match org env key r"
      by (auto simp: create_or_get_stmt_def select_idem_stmt_def filter_empty_conv take_Cons' split: list.splits)
    with rejected none show ?thesis by (simp add: run now_def fresh_def)
  qed
qed

text \<open>
  C10. The transaction repository implements the store. On a well-formed table no other process touches
  meanwhile, \<open>find_by_idempotency\<close> looks the key up, \<open>find_by_id\<close> the identifier,
  \<open>create_or_get_by_idempotency\<close> puts the new transaction unless the key has one (or the table rejects
  the row, and nothing changes), and \<open>try_claim_pending_for_post\<close>, \<open>update_status\<close>,
  \<open>schedule_retry\<close> and \<open>mark_terminal_failure\<close> change exactly the one transaction as the
  store does; what they return is what the store returns.
\<close>

theorem transactions_refine_store:
  fixes w :: "'x world" and a :: "64 word" and org f t' i :: uuid and c key env :: str
    and k :: transaction_kind and desc x :: "str option" and ref :: "uuid option"
  assumes "undisturbed P" "tx_table_ok (db_transactions (w_db w))"
  shows "map_prod id txs_of (find_by_idempotency P org env key w) =
      (Inr (map_option brief (store_lookup (org, env, key) (txs_of w))), txs_of w) \<and>
    map_prod id txs_of (find_tx_by_id P i w) =
      (ok_or (map_option brief (st_by_id (txs_of w) i))
         (NotFound (u ''Transaction with id '' @ p_uuid_str P i @ u '' not found'')), txs_of w) \<and>
    (case db_transaction P (create_or_get_by_idempotency P org f t' a c k key env desc x ref) w of
        (Inr t, w') \<Rightarrow> map_prod brief id (store_put (org, env, key)
            (new_transaction (p_clock P (w_tick w)) (p_uuid P (w_tick w)) org f t' a c k key env desc x ref) (txs_of w))
          = (t, txs_of w')
      | (Inl e, w') \<Rightarrow> e = Database (p_constraint_error P) \<and> txs_of w' = txs_of w \<and>
          store_lookup (org, env, key) (txs_of w) = None \<and>
          \<not> insert_ok (new_tx_row (p_clock P (w_tick w)) (p_uuid P (w_tick w)) org f t' a c k key env desc x ref)
              (db_transactions (w_db w))) \<and>
    map_prod id txs_of (try_claim_pending_for_post P i w) = map_prod (Inr \<circ> map_option brief) id
      (store_change i (\<lambda>t. tx_status t = Pending) (set_status_of Posting None (p_clock P (w_tick w))) (txs_of w)) \<and>
    map_prod id txs_of (update_status P i s m w) = map_prod (\<lambda>y. ok_or (map_option brief y) row_not_found) id
      (store_change i (\<lambda>_. True) (set_status_of s m (p_clock P (w_tick w))) (txs_of w)) \<and>
    map_prod id txs_of (schedule_retry P i txt at w) = map_prod (\<lambda>y. ok_or y row_not_found) id
      (store_change i (\<lambda>_. True) (postpone txt at (p_clock P (w_tick w))) (txs_of w)) \<and>
    map_prod id txs_of (mark_terminal_failure P i txt w) = map_prod (\<lambda>y. ok_or y row_not_found) id
      (store_change i (\<lambda>_. True) (give_up txt (p_clock P (w_tick w))) (txs_of w))"
  by (intro conjI repository_reads repository_changes repository_creates assms)

lemma demo_stored:
  "tx_table_ok (db_transactions (w_db (demo_world_with ''pending'')))"
  "stored 50 (db_transactions (w_db (demo_world_with ''pending''))) = Some (demo_tx Pending)"
proof -
  have row: "row_to_transaction True (demo_row ''pending'') = Inr (demo_tx Pending)"
    by (simp add: parse_kind_def parse_status_def demo_row_def demo_tx_def new_tx_row_def new_transaction_def row_to_transaction_def)
  show "tx_table_ok (db_transactions (w_db (demo_world_with ''pending'')))"
    by (simp add: demo_world_with_def tx_table_ok_def tx_row_ok_def demo_row_def new_tx_row_def)
  show "stored 50 (db_transactions (w_db (demo_world_with ''pending''))) = Some (demo_tx Pending)"
    using row by (simp add: stored_def demo_world_with_def) (simp add: demo_row_def)
qed

theorem transactions_refine_store_witness:
  "\<exists>w'. try_claim_pending_for_post demo_params 50 (demo_world_with ''pending'') =
     (Inr (Some (brief ((demo_tx Pending)\<lparr>tx_status := Posting, tx_failure_reason := None, tx_updated_at := 0\<rparr>))), w')"
proof -
  let ?w = "demo_world_with ''pending''"
  let ?claim = "store_change 50 (\<lambda>t. tx_status t = Pending)
      (set_status_of Posting None (p_clock demo_params (w_tick ?w))) (txs_of ?w)"
  have "map_prod id txs_of (try_claim_pending_for_post demo_params 50 ?w) = map_prod (Inr \<circ> map_option brief) id ?claim"
    using transactions_refine_store [OF demo_params_ok(1) demo_stored(1)] by blast
  then have "fst (map_prod id txs_of (try_claim_pending_for_post demo_params 50 ?w)) =
      fst (map_prod (Inr \<circ> map_option brief) id ?claim)" by (rule arg_cong)
  moreover have "tx_status (demo_tx Pending) = Pending" by (simp add: demo_tx_def)
  moreover have "p_clock demo_params (w_tick ?w) = 0" by (simp add: demo_params_def demo_world_with_def demo_world_def)
  ultimately have "fst (try_claim_pending_for_post demo_params 50 ?w) =
      Inr (Some (brief ((demo_tx Pending)\<lparr>tx_status := Posting, tx_failure_reason := None, tx_updated_at := 0\<rparr>)))"
    by (simp add: store_change_def demo_stored(2) set_status_of_def)
  then show ?thesis by (metis prod.collapse)
qed

section \<open>First request wins\<close>

text \<open>What the money movements rely on: a store that keeps, per key, the first value it accepted.\<close>

locale put_if_absent =
  fixes ok :: "'s \<Rightarrow> bool"
    and key :: "'v \<Rightarrow> 'k"
    and lookup :: "'k \<Rightarrow> 's \<Rightarrow> 'v option"
    and put :: "'v \<Rightarrow> 's \<Rightarrow> 'v option \<times> 's"
  assumes put_ok: "ok s \<Longrightarrow> ok (snd (put v s))"
    and put_found: "ok s \<Longrightarrow> lookup (key v) s = Some old \<Longrightarrow> put v s = (Some old, s)"
    and put_absent: "ok s \<Longrightarrow> lookup (key v) s = None \<Longrightarrow> fst (put v s) = Some v \<or> put v s = (None, s)"
    and put_lookup: "ok s \<Longrightarrow> lookup (key v) s = None \<Longrightarrow> fst (put v s) = Some v \<Longrightarrow>
      lookup k (snd (put v s)) = (if k = key v then Some v else lookup k s)"
begin

abbreviation put_all :: "'v list \<Rightarrow> 's \<Rightarrow> 's" where
  "put_all vs s \<equiv> fold (\<lambda>v s. snd (put v s)) vs s"

lemma put_keeps:
  assumes "ok s" "lookup k s = Some v"
  shows "lookup k (snd (put x s)) = Some v"
proof (cases "lookup (key x) s")
  case None
  with put_absent [OF assms(1) None] put_lookup [OF assms(1) None, of k] assms(2) show ?thesis
    by (cases "k = key x") auto
next
  case (Some old)
  with put_found [OF assms(1) Some] assms(2) show ?thesis by simp
qed

lemma put_all_ok: "ok s \<Longrightarrow> ok (put_all vs s)"
  by (induction vs arbitrary: s) (auto intro: put_ok)

lemma put_all_keeps: "ok s \<Longrightarrow> lookup k s = Some v \<Longrightarrow> lookup k (put_all vs s) = Some v"
  by (induction vs arbitrary: s) (auto intro: put_ok put_keeps)

lemma put_answers: "ok s \<Longrightarrow> fst (put v s) = Some x \<Longrightarrow> lookup (key v) (snd (put v s)) = Some x"
  using put_found [of s v] put_absent [of s v] put_lookup [of s v "key v"]
  by (cases "lookup (key v) s") auto

lemma first_wins:
  assumes "ok s" "fst (put v s) = Some x" "key v' = key v"
  shows "put v' (put_all vs (snd (put v s))) = (Some x, put_all vs (snd (put v s)))"
proof -
  have "lookup (key v') (put_all vs (snd (put v s))) = Some x"
    using put_answers [OF assms(1,2)] put_all_keeps [OF put_ok [OF assms(1)]] assms(3) by simp
  then show ?thesis by (rule put_found [OF put_all_ok [OF put_ok [OF assms(1)]]])
qed

end

definition row_key :: "tx_row \<Rightarrow> idem" where
  "row_key r = (r_organization_id r, the (r_environment r), r_idempotency_key r)"

definition row_with_key :: "idem \<Rightarrow> tx_row list \<Rightarrow> tx_row option" where
  "row_with_key k rows = (case k of (org, env, key) \<Rightarrow> fetch_optional (select_idem_stmt org env key rows))"

definition create_or_get :: "str \<Rightarrow> tx_row \<Rightarrow> tx_row list \<Rightarrow> tx_row option \<times> tx_row list" where
  "create_or_get err row rows =
     (case create_or_get_stmt err row rows of
        (Inl _, rows') \<Rightarrow> (None, rows')
      | (Inr found, rows') \<Rightarrow> (fetch_optional found, rows'))"

lemma row_with_key_append:
  assumes "insert_ok row rows" "row_with_key (row_key row) rows = None"
  shows "row_with_key k (rows @ [row]) = (if k = row_key row then Some row else row_with_key k rows)"
proof -
  obtain env where env: "r_environment row = Some env" using assms(1) by (auto simp: insert_ok_def tx_row_ok_def)
  obtain org e key where k: "k = (org, e, key)" by (cases k)
  have "idem_match org e key row \<longleftrightarrow> k = row_key row" using env k by (auto simp: idem_match_def row_key_def)
  with assms(2) k show ?thesis
    by (auto simp: row_with_key_def select_idem_stmt_def fetch_optional_def row_key_def filter_empty_conv
        split: list.splits if_splits)
qed

lemma tx_table_ok_insert: "tx_table_ok rows \<Longrightarrow> insert_ok row rows \<Longrightarrow> tx_table_ok (rows @ [row])"
  by (auto simp: tx_table_ok_def insert_ok_def)

lemma create_or_get_outcome:
  "create_or_get err row rows =
     (case row_with_key (row_key row) rows of
        Some old \<Rightarrow> (Some old, rows)
      | None \<Rightarrow> if insert_ok row rows then (Some row, rows @ [row]) else (None, rows))"
  by (auto simp: create_or_get_def create_or_get_stmt_def row_with_key_def row_key_def fetch_optional_def
      split: list.split)

interpretation keyed_rows: put_if_absent tx_table_ok row_key row_with_key "create_or_get err" for err
proof
  fix rows row old k assume ok: "tx_table_ok rows"
  show "tx_table_ok (snd (create_or_get err row rows))"
    using ok tx_table_ok_insert by (simp add: create_or_get_outcome split: option.split)
  show "row_with_key (row_key row) rows = Some old \<Longrightarrow> create_or_get err row rows = (Some old, rows)"
    by (simp add: create_or_get_outcome)
  assume "row_with_key (row_key row) rows = None"
  then show "fst (create_or_get err row rows) = Some row \<or> create_or_get err row rows = (None, rows)"
    "fst (create_or_get err row rows) = Some row \<Longrightarrow>
     row_with_key k (snd (create_or_get err row rows)) = (if k = row_key row then Some row else row_with_key k rows)"
    by (auto simp: create_or_get_outcome row_with_key_append split: if_splits)
qed

text \<open>However many creations follow, one with a known key returns the row of the first.\<close>

theorem first_request_wins:
  assumes "tx_table_ok rows" "fst (create_or_get err row rows) = Some r" "row_key row' = row_key row"
  shows "let later = fold (\<lambda>x s. snd (create_or_get err x s)) requests (snd (create_or_get err row rows)) in
    create_or_get err row' later = (Some r, later)"
  unfolding Let_def using assms by (rule keyed_rows.first_wins)

end
