(* ===== verification/Directory_Spec.thy ===== *)
theory Directory_Spec
  imports Account_Spec
begin

text \<open>
  The accounts table as a directory from identifier and environment to account, and the refinement:
  the account service opens, reads and changes accounts as the directory does, with the rules of the
  service (one account per user and type, no way out of the closed status) stated on the directory.
\<close>

type_synonym directory = "uuid \<times> str \<rightharpoonup> account"

definition dir_of :: "account_row list \<Rightarrow> directory" where
  "dir_of rows = (\<lambda>(i, env).
     case select_account_id_stmt i env rows of
       [] \<Rightarrow> None
     | a # _ \<Rightarrow> (case row_to_account a of Inl _ \<Rightarrow> None | Inr acc \<Rightarrow> Some acc))"

definition holds_account :: "uuid \<Rightarrow> account_type \<Rightarrow> str \<Rightarrow> directory \<Rightarrow> bool" where
  "holds_account user type env D \<longleftrightarrow>
     (\<exists>i acc. D (i, env) = Some acc \<and> acc_user_id acc = Some user \<and> acc_account_type acc = type)"

definition dir_set_status ::
  "app_error \<Rightarrow> time \<Rightarrow> uuid \<times> str \<Rightarrow> account_status \<Rightarrow> directory \<Rightarrow> (app_error + account) \<times> directory" where
  "dir_set_status missing now k status D =
     (case D k of
        None \<Rightarrow> (Inl missing, D)
      | Some acc \<Rightarrow>
          if acc_status acc = Some Closed \<and> status \<noteq> Closed
          then (Inl (BusinessLogic (u ''Cannot reactivate a closed account'')), D)
          else let acc' = acc\<lparr>acc_status := Some status, acc_updated_at := Some now\<rparr>
               in (Inr acc', D(k \<mapsto> acc')))"

section \<open>The abstraction\<close>

lemma filter_account_id:
  assumes "distinct (map a_id rows)" "a \<in> set rows"
  shows "select_account_id_stmt (a_id a) (a_environment a) rows = [a]"
  using assms by (induction rows) (auto simp: select_account_id_stmt_def filter_empty_conv image_iff)

lemma dir_row:
  assumes "account_table_ok rows" "a \<in> set rows"
  obtains acc where "row_to_account a = Inr acc" "dir_of rows (a_id a, a_environment a) = Some acc"
proof -
  have "account_row_ok a" "distinct (map a_id rows)" using assms by (auto simp: account_table_ok_def list_all_iff)
  with row_to_account_ok [of a] filter_account_id [OF _ assms(2)] show thesis
    by (auto simp: dir_of_def intro: that)
qed

lemma dir_someE:
  assumes "account_table_ok rows" "dir_of rows (i, env) = Some acc"
  obtains a where "a \<in> set rows" "a_id a = i" "a_environment a = env" "row_to_account a = Inr acc"
    "select_account_id_stmt i env rows = [a]"
proof -
  obtain a rest where a: "select_account_id_stmt i env rows = a # rest" "row_to_account a = Inr acc"
    using assms(2) by (auto simp: dir_of_def split: list.splits sum.splits)
  then have "a \<in> set (select_account_id_stmt i env rows)" by simp
  then have at: "a \<in> set rows" "a_id a = i" "a_environment a = env" by (auto simp: select_account_id_stmt_def)
  moreover have "select_account_id_stmt i env rows = [a]"
    using filter_account_id [of rows a] assms(1) at by (auto simp: account_table_ok_def)
  ultimately show thesis using a(2) that by blast
qed

lemma dir_none:
  assumes "account_table_ok rows"
  shows "dir_of rows (i, env) = None \<longleftrightarrow> select_account_id_stmt i env rows = []"
proof
  assume none: "dir_of rows (i, env) = None"
  show "select_account_id_stmt i env rows = []"
  proof (rule ccontr)
    assume "select_account_id_stmt i env rows \<noteq> []"
    then obtain a where "a \<in> set rows" "a_id a = i" "a_environment a = env"
      by (auto simp: select_account_id_stmt_def filter_empty_conv)
    with dir_row [OF assms] none show False by (metis option.distinct(1))
  qed
qed (simp add: dir_of_def)

lemma count_directory:
  assumes "account_table_ok rows"
  shows "count_by_user_and_type_stmt user type env rows = 0 \<longleftrightarrow> \<not> holds_account user type env (dir_of rows)"
proof
  assume none: "count_by_user_and_type_stmt user type env rows = 0"
  show "\<not> holds_account user type env (dir_of rows)"
  proof
    assume "holds_account user type env (dir_of rows)"
    then obtain i acc where acc: "dir_of rows (i, env) = Some acc" "acc_user_id acc = Some user"
      "acc_account_type acc = type" by (auto simp: holds_account_def)
    from dir_someE [OF assms acc(1)] obtain a where a: "a \<in> set rows" "a_environment a = env"
      "row_to_account a = Inr acc" by blast
    with none acc row_to_account_InrD [OF a(3)] show False
      by (auto simp: count_by_user_and_type_stmt_def filter_empty_conv)
  qed
next
  assume none: "\<not> holds_account user type env (dir_of rows)"
  have "\<not> (a_user_id a = Some user \<and> a_account_type a = account_type_str type \<and> a_environment a = env)"
    if "a \<in> set rows" for a
  proof
    assume a: "a_user_id a = Some user \<and> a_account_type a = account_type_str type \<and> a_environment a = env"
    from dir_row [OF assms that] obtain acc where acc: "row_to_account a = Inr acc"
      "dir_of rows (a_id a, a_environment a) = Some acc" by blast
    have "account_type_str (acc_account_type acc) = account_type_str type"
      using row_to_account_InrD(9) [OF acc(1)] a by simp
    then have "acc_account_type acc = type" by (metis parse_account_type_str option.inject)
    with acc a row_to_account_InrD(5) [OF acc(1)] none show False by (auto simp: holds_account_def)
  qed
  then show "count_by_user_and_type_stmt user type env rows = 0"
    by (auto simp: count_by_user_and_type_stmt_def filter_empty_conv)
qed

lemma directory_ext: "(\<And>i env. D (i, env) = E (i, env)) \<Longrightarrow> D = (E :: directory)"
  by (simp add: fun_eq_iff)

lemma dir_append:
  assumes "a_id a \<notin> a_id ` set rows" "row_to_account a = Inr acc"
  shows "dir_of (rows @ [a]) = (dir_of rows)((a_id a, a_environment a) \<mapsto> acc)"
proof -
  have "select_account_id_stmt (a_id a) (a_environment a) rows = []"
    using assms(1) by (simp add: select_account_id_stmt_def filter_empty_conv) (metis imageI)
  then have "dir_of (rows @ [a]) (i, env) = ((dir_of rows)((a_id a, a_environment a) \<mapsto> acc)) (i, env)" for i env
    using assms(2) by (auto simp: dir_of_def select_account_id_stmt_def split: list.split)
  then show ?thesis by (rule directory_ext)
qed

lemma dir_update:
  assumes ok: "account_table_ok rows" and at: "dir_of rows (i, env) = Some acc"
  shows "dir_of (snd (set_account_status_stmt now i env s rows)) =
    (dir_of rows)((i, env) \<mapsto> acc\<lparr>acc_status := Some s, acc_updated_at := Some now\<rparr>)"
proof -
  let ?f = "\<lambda>a. a\<lparr>a_status := account_status_str s, a_updated_at := now\<rparr>"
  let ?rows = "map (\<lambda>a. if a_id a = i \<and> a_environment a = env then ?f a else a) rows"
  from dir_someE [OF ok at] obtain a where a: "row_to_account a = Inr acc" "a_id a = i" "a_environment a = env"
    "select_account_id_stmt i env rows = [a]" by blast
  have conv: "row_to_account (?f a) = Inr (acc\<lparr>acc_status := Some s, acc_updated_at := Some now\<rparr>)"
    using a(1) by (auto simp: row_to_account_def split: option.splits)
  have "select_account_id_stmt i env ?rows = map ?f (select_account_id_stmt i env rows)"
    by (induction rows) (auto simp: select_account_id_stmt_def)
  then have this_one: "dir_of ?rows (i, env) = Some (acc\<lparr>acc_status := Some s, acc_updated_at := Some now\<rparr>)"
    unfolding a(4) using conv by (simp add: dir_of_def)
  have other: "dir_of ?rows (j, e) = dir_of rows (j, e)" if "(j, e) \<noteq> (i, env)" for j e
  proof -
    have "select_account_id_stmt j e ?rows = select_account_id_stmt j e rows"
    proof (induction rows)
      case (Cons x rows)
      show ?case
      proof (cases "a_id x = i \<and> a_environment x = env")
        case True
        with that have "\<not> (a_id x = j \<and> a_environment x = e)" by blast
        with True Cons.IH show ?thesis by (simp add: select_account_id_stmt_def) blast
      next
        case False
        with Cons.IH show ?thesis by (simp add: select_account_id_stmt_def del: de_Morgan_conj)
      qed
    qed (simp add: select_account_id_stmt_def)
    then show ?thesis unfolding dir_of_def prod.case by (simp only:)
  qed
  have "dir_of ?rows (j, e) =
      ((dir_of rows)((i, env) \<mapsto> acc\<lparr>acc_status := Some s, acc_updated_at := Some now\<rparr>)) (j, e)" for j e
  proof (cases "(j, e) = (i, env)")
    case True
    with this_one show ?thesis by (simp only: fun_upd_same)
  next
    case False
    with other show ?thesis by (simp only: fun_upd_other not_False_eq_True)
  qed
  then have "dir_of ?rows = (dir_of rows)((i, env) \<mapsto> acc\<lparr>acc_status := Some s, acc_updated_at := Some now\<rparr>)"
    by (rule directory_ext)
  then show ?thesis by (simp add: set_account_status_stmt_def)
qed

section \<open>The service refines the directory\<close>

abbreviation accounts_of :: "'x world \<Rightarrow> directory" where
  "accounts_of w \<equiv> dir_of (db_accounts (w_db w))"

definition no_such_account :: "'x params \<Rightarrow> uuid \<Rightarrow> str \<Rightarrow> app_error" where
  "no_such_account P i env =
     NotFound (u ''Account with id '' @ p_uuid_str P i @ u '' not found in environment '' @ env)"

lemma find_account_directory:
  assumes "undisturbed P" "account_table_ok (db_accounts (w_db w))"
  shows "find_account_by_id P i env w =
    (ok_or (accounts_of w (i, env)) (no_such_account P i env), w\<lparr>w_tick := Suc (w_tick w)\<rparr>)"
proof (cases "accounts_of w (i, env)")
  case None
  then have "select_account_id_stmt i env (db_accounts (w_db w)) = []" using dir_none [OF assms(2)] by simp
  with None find_account_missing [OF assms(1)] show ?thesis by (simp add: ok_or_def no_such_account_def)
next
  case (Some acc)
  from dir_someE [OF assms(2) Some] have "account_at (w_db w) i env acc" unfolding account_at_def by blast
  with find_account_eval [OF assms(1)] Some show ?thesis by (simp add: ok_or_def)
qed

lemma set_status_directory:
  assumes P: "undisturbed P" and ok: "account_table_ok (db_accounts (w_db w))"
  shows "map_prod id accounts_of (update_account_status P i env s w) =
    dir_set_status (no_such_account P i env) (p_clock P (Suc (w_tick w))) (i, env) s (accounts_of w)"
proof (cases "accounts_of w (i, env)")
  case None
  then show ?thesis
    by (simp add: update_account_status_def io_simps find_account_directory [OF assms] dir_set_status_def ok_or_def)
next
  case (Some acc)
  from dir_someE [OF ok Some] obtain a where a: "row_to_account a = Inr acc" "a_id a = i" "a_environment a = env"
    "select_account_id_stmt i env (db_accounts (w_db w)) = [a]" by blast
  let ?now = "p_clock P (Suc (w_tick w))"
  have conv: "row_to_account (a\<lparr>a_status := account_status_str s, a_updated_at := ?now\<rparr>) =
      Inr (acc\<lparr>acc_status := Some s, acc_updated_at := Some ?now\<rparr>)"
    using a(1) by (auto simp: row_to_account_def split: option.splits)
  have "fst (set_account_status_stmt ?now i env s (db_accounts (w_db w))) =
      [a\<lparr>a_status := account_status_str s, a_updated_at := ?now\<rparr>]"
    using a(4) by (simp add: set_account_status_stmt_def select_account_id_stmt_def)
  with Some conv P show ?thesis
    by (simp add: update_account_status_def io_simps find_account_directory [OF assms] dir_set_status_def ok_or_def
        set_account_status_def acc_update_def one_account_def fetch_one_def dir_update [OF ok Some] Let_def)
qed

lemma open_account_directory:
  assumes P: "undisturbed P" and ok: "account_table_ok (db_accounts (w_db w))"
  shows "case create_account_for_existing_user P req org env user w of
      (Inr acc, w') \<Rightarrow> \<not> holds_account user (car_account_type req) env (accounts_of w) \<and>
        (acc_id acc, env) \<notin> dom (accounts_of w) \<and> accounts_of w' = (accounts_of w)((acc_id acc, env) \<mapsto> acc) \<and>
        acc_user_id acc = Some user \<and> acc_account_type acc = car_account_type req \<and>
        acc_organization_id acc = Some org \<and> acc_environment acc = Some env \<and> acc_status acc = Some Active
    | (Inl e, w') \<Rightarrow> accounts_of w' = accounts_of w"
proof -
  obtain res w' where run: "create_account_for_existing_user P req org env user w = (res, w')" by fastforce
  from create_account_run [OF P run] show ?thesis
  proof (elim disjE exE conjE)
    fix acc row n i
    assume res: "res = Inr acc"
      and none: "count_by_user_and_type_stmt user (car_account_type req) env (db_accounts (w_db w)) = 0"
      and acc: "acc_user_id acc = Some user" "acc_account_type acc = car_account_type req" "acc_status acc = Some Active"
        "acc_organization_id acc = Some org" "acc_environment acc = Some env"
      and row: "row_to_account row = Inr acc" "a_id row \<notin> a_id ` set (db_accounts (w_db w))"
      and new: "row = new_account_row n i (acc_account_number acc) (car_account_type req) (Some org) env user (car_currency req)"
      and db: "w_db w' = (w_db w)\<lparr>db_accounts := db_accounts (w_db w) @ [row]\<rparr>"
    have env: "a_environment row = env" "acc_id acc = a_id row"
      using row_to_account_InrD(1,4) [OF row(1)] acc(5) by simp_all
    have "select_account_id_stmt (a_id row) env (db_accounts (w_db w)) = []"
      using row(2) by (simp add: select_account_id_stmt_def filter_empty_conv) (metis imageI)
    then have "(acc_id acc, env) \<notin> dom (accounts_of w)" using env dir_none [OF ok] by (auto simp: domIff)
    moreover have "accounts_of w' = (accounts_of w)((acc_id acc, env) \<mapsto> acc)"
      using dir_append [OF row(2,1)] env by (simp add: db)
    ultimately show ?thesis using run res none acc count_directory [OF ok] by simp
  next
    assume "is_err res" "w_db w' = w_db w"
    then show ?thesis using run by (cases res) simp_all
  qed
qed

text \<open>
  C9. The account service implements the directory. On a well-formed table no other process touches
  meanwhile, an account is read as the directory has it; a change of status changes exactly this entry,
  except that a closed account refuses any other status; and an account is opened, under a fresh
  identifier and for the given user, organization and environment, only when the directory holds none
  of that type for the user there, adding exactly this entry; a refusal changes nothing.
\<close>

theorem accounts_refine_directory:
  assumes "undisturbed P" "account_table_ok (db_accounts (w_db w))"
  shows "map_prod id accounts_of (get_account P i env w) =
      (ok_or (accounts_of w (i, env)) (no_such_account P i env), accounts_of w) \<and>
    map_prod id accounts_of (update_account_status P i env s w) =
      dir_set_status (no_such_account P i env) (p_clock P (Suc (w_tick w))) (i, env) s (accounts_of w) \<and>
    map_prod id accounts_of (close_account P i env w) =
      dir_set_status (no_such_account P i env) (p_clock P (Suc (w_tick w))) (i, env) Closed (accounts_of w) \<and>
    (case create_account_for_existing_user P req org env user w of
      (Inr acc, w') \<Rightarrow> \<not> holds_account user (car_account_type req) env (accounts_of w) \<and>
        (acc_id acc, env) \<notin> dom (accounts_of w) \<and> accounts_of w' = (accounts_of w)((acc_id acc, env) \<mapsto> acc) \<and>
        acc_user_id acc = Some user \<and> acc_account_type acc = car_account_type req \<and>
        acc_organization_id acc = Some org \<and> acc_environment acc = Some env \<and> acc_status acc = Some Active
    | (Inl e, w') \<Rightarrow> accounts_of w' = accounts_of w)"
  using set_status_directory [OF assms] open_account_directory [OF assms]
  by (simp add: get_account_def close_account_def find_account_directory [OF assms])

theorem accounts_refine_directory_witness:
  "map_prod id accounts_of (update_account_status demo_params 1 (u ''sandbox'') Suspended demo_world) =
    (Inr ((demo_acc 1 ''100'')\<lparr>acc_status := Some Suspended, acc_updated_at := Some 1000000\<rparr>),
     (accounts_of demo_world)((1, u ''sandbox'') \<mapsto>
       (demo_acc 1 ''100'')\<lparr>acc_status := Some Suspended, acc_updated_at := Some 1000000\<rparr>))"
proof -
  have ok: "account_table_ok (db_accounts (w_db demo_world))"
    using demo_accounts_ok by (simp add: demo_world_def)
  have at: "accounts_of demo_world (1, u ''sandbox'') = Some (demo_acc 1 ''100'')"
    by (simp add: dir_of_def demo_world_def select_account_id_stmt_def demo_account_def row_to_account_def
        parse_account_type_def parse_account_status_def demo_acc_def)
  have clock: "p_clock demo_params (Suc (w_tick demo_world)) = 1000000"
    by (simp add: demo_params_def demo_world_def)
  have "map_prod id accounts_of (update_account_status demo_params 1 (u ''sandbox'') Suspended demo_world) =
      dir_set_status (no_such_account demo_params 1 (u ''sandbox'')) (p_clock demo_params (Suc (w_tick demo_world)))
        (1, u ''sandbox'') Suspended (accounts_of demo_world)"
    using accounts_refine_directory [OF demo_params_ok(1) ok] by blast
  then show ?thesis by (simp add: dir_set_status_def at clock demo_acc_def Let_def)
qed

end
