(* ===== verification/Audit_Roundtrip.thy ===== *)
theory Audit_Roundtrip
  imports Audit_Spec
begin

text \<open>
  The audit service as a whole: an event posted to it comes back from a listing as it was posted. The
  codec prints times and identifiers in their normal form, and the service trims the names; up to
  this normal form (\<open>shown\<close>) nothing of an event is lost, added or changed on the way through
  validation, the protobuf message, the table and the JSON answer.
\<close>

definition shown :: "codec \<Rightarrow> audit_event_payload \<Rightarrow> audit_event_payload" where
  "shown C p =
     \<lparr>ep_occurred_at = (case c_rfc3339_parse C (ep_occurred_at p) of
        Some t \<Rightarrow> c_rfc3339_str C t | None \<Rightarrow> ep_occurred_at p),
      ep_schema_version = ep_schema_version p,
      ep_source_service = trim (ep_source_service p),
      ep_organization_id = (case c_uuid_parse C (trim (ep_organization_id p)) of
        Some i \<Rightarrow> c_uuid_str C i | None \<Rightarrow> ep_organization_id p),
      ep_environment = trim (ep_environment p),
      ep_actor = \<lparr>ap_type = trim (ap_type (ep_actor p)), ap_id = trim (ap_id (ep_actor p)),
                  ap_roles = ap_roles (ep_actor p)\<rparr>,
      ep_action = trim (ep_action p),
      ep_target = \<lparr>tm_type = trim (tm_type (ep_target p)), tm_id = trim (tm_id (ep_target p))\<rparr>,
      ep_outcome = trim (ep_outcome p),
      ep_request = \<lparr>rc_id = trim (rc_id (ep_request p)), rc_method = trim (rc_method (ep_request p)),
                    rc_path = trim (rc_path (ep_request p)), rc_ip = rc_ip (ep_request p),
                    rc_user_agent = rc_user_agent (ep_request p)\<rparr>,
      ep_correlation_id = trim (ep_correlation_id p),
      ep_reason = (case ep_reason p of None \<Rightarrow> None | Some s \<Rightarrow> if trim s = [] then None else Some s),
      ep_metadata = ep_metadata p\<rparr>"

text \<open>The payload a listed event carries, without what the service added (identifier and time of storage).\<close>

definition payload_listed :: "audit_event_response \<Rightarrow> audit_event_payload" where
  "payload_listed r =
     \<lparr>ep_occurred_at = aer_occurred_at r,
      ep_schema_version = ucast (aer_schema_version r),
      ep_source_service = aer_source_service r,
      ep_organization_id = aer_organization_id r,
      ep_environment = aer_environment r,
      ep_actor = \<lparr>ap_type = acr_type (aer_actor r), ap_id = acr_id (aer_actor r), ap_roles = acr_roles (aer_actor r)\<rparr>,
      ep_action = aer_action r,
      ep_target = aer_target r,
      ep_outcome = aer_outcome r,
      ep_request = aer_request r,
      ep_correlation_id = aer_correlation_id r,
      ep_reason = aer_reason r,
      ep_metadata = aer_metadata r\<rparr>"

section \<open>Encoding and decoding\<close>

lemma actor_text_parsed:
  "parse_actor_type s = Inr a \<Longrightarrow> actor_type_try_from (actor_type_i32 a) = Some a \<and> actor_type_str a = trim s"
  by (auto simp: parse_actor_type_def actor_type_try_from_def Let_def split: if_splits)

lemma outcome_text_parsed:
  "parse_outcome s = Inr x \<Longrightarrow> outcome_try_from (outcome_i32 x) = Some x \<and> outcome_str x = trim s"
  by (auto simp: parse_outcome_def outcome_try_from_def Let_def bad_outcome_def split: if_splits)

lemma payload_roundtrip:
  assumes "into_proto p = Inr ev" "event_to_insert C ev = Inr d" "ev_schema_version ev = 1"
  shows "payload_listed (audit_event_response_from C \<lparr>er_id = i, er_data = d, er_created_at = at\<rparr>) = shown C p"
proof -
  obtain a x where a: "parse_actor_type (ap_type (ep_actor p)) = Inr a" and x: "parse_outcome (ep_outcome p) = Inr x"
    using assms(1) by (auto simp: into_proto_def and_then_Inr)
  have one: "ep_schema_version p = 1"
    using assms(1,3) by (intro signed_word_eqI) (auto simp: into_proto_def and_then_Inr)
  from assms(2) obtain t org where "c_rfc3339_parse C (ep_occurred_at p) = Some t"
    "c_uuid_parse C (trim (ep_organization_id p)) = Some org"
    using assms(1) by (auto simp: into_proto_def and_then_Inr event_to_insert_def ok_or_Inr)
  then show ?thesis
    using assms(1,2) actor_text_parsed [OF a] outcome_text_parsed [OF x] one
    by (auto simp: into_proto_def a x and_then_Inr event_to_insert_def ok_or_Inr payload_listed_def
        audit_event_response_from_def shown_def Let_def)
qed

section \<open>Append, then list\<close>

lemma append_http_run:
  assumes "audit_undisturbed Q" "append_audit_event Q hs payload w = (Inr (code, i), w')"
  obtains ev d row where "code = 201" "into_proto payload = Inr ev" "ev_schema_version ev = 1"
    "event_to_insert (q_codec Q) ev = Inr d" "er_data row = d" "aw_rows w' = aw_rows w @ [row]"
    "i = c_uuid_str (q_codec Q) (er_id row)"
proof -
  let ?now = "q_clock Q (aw_tick w)" and ?n = "Suc (aw_tick w)"
  obtain ev where ev: "into_proto payload = Inr ev"
    using assms by (auto simp: append_audit_event_def io_simps map_err_io_apply split: prod.splits sum.splits if_splits)
  have valid: "validate_audit_event (q_codec Q) ?now ev = Inr ()"
    using assms ev
    by (auto simp: append_audit_event_def io_simps map_err_io_apply split: prod.splits sum.splits if_splits)
  obtain d where d: "event_to_insert (q_codec Q) ev = Inr d"
    using assms ev valid
    by (auto simp: append_audit_event_def io_simps map_err_io_apply split: prod.splits sum.splits if_splits)
  let ?row = "\<lparr>er_id = q_uuid Q ?n, er_data = d, er_created_at = q_clock Q ?n\<rparr>"
  have "code = 201 \<and> aw_rows w' = aw_rows w @ [?row] \<and> i = c_uuid_str (q_codec Q) (er_id ?row)"
    using assms ev valid d
    by (auto simp: append_audit_event_def io_simps map_err_io_apply insert_audit_event_def insert_event_stmt_def
        split: prod.splits sum.splits if_splits)
  moreover have "ev_schema_version ev = 1"
    using valid by (simp add: validate_audit_event_iff valid_event_def)
  ultimately show thesis using that [of ev d ?row] ev d by simp
qed

text \<open>The listing an internal caller asks for to see the events of a payload's organization.\<close>

definition scope_query :: "audit_event_payload \<Rightarrow> list_audit_events_query" where
  "scope_query p = \<lparr>lq_organization_id = Some (ep_organization_id p), lq_environment = Some (ep_environment p),
     lq_action = None, lq_target_type = None, lq_target_id = None, lq_outcome = None, lq_from = None, lq_to = None,
     lq_page = None, lq_per_page = Some 100\<rparr>"

definition in_scope :: "codec \<Rightarrow> audit_event_payload \<Rightarrow> audit_event_row \<Rightarrow> bool" where
  "in_scope C p r \<longleftrightarrow> c_uuid_parse C (trim (ep_organization_id p)) = Some (ins_organization_id (er_data r)) \<and>
     ins_environment (er_data r) = trim (ep_environment p)"

lemma normalize_named:
  "trim s \<in> {u ''sandbox'', u ''production''} \<Longrightarrow> normalize_environment (Some s) = Inr (trim s)"
  by (auto simp: normalize_environment_def to_lower_def lower_cp_def u_def)

lemma list_scope_run:
  assumes "audit_undisturbed Q" "trimmed_header hs (u ''x-internal-service-token'') = Some token"
    and "q_internal_token Q = Some token" "trim (ep_environment p) \<in> {u ''sandbox'', u ''production''}"
    and "c_uuid_parse (q_codec Q) (trim (ep_organization_id p)) = Some org"
    and "length (filter (in_scope (q_codec Q) p) (aw_rows w)) \<le> 100"
  shows "\<exists>events meta w'. list_audit_events Q hs (scope_query p) w = (Inr (200, events, meta), w') \<and>
    aw_rows w' = aw_rows w \<and>
    set events = audit_event_response_from (q_codec Q) ` {r \<in> set (aw_rows w). in_scope (q_codec Q) p r}"
proof -
  have scope: "resolve_list_scope Q hs (scope_query p) w = (Inr (org, trim (ep_environment p)), w)"
    using assms(2-5) normalize_named [OF assms(4)]
    by (simp add: resolve_list_scope_def scope_query_def io_simps check_internal_token_def ensure_def
        audit_parse_uuid_def)
  let ?f = "\<lparr>af_organization_id = org, af_environment = trim (ep_environment p), af_action = None,
     af_target_type = None, af_target_id = None, af_outcome = None, af_from = None, af_to = None,
     af_page = 1, af_per_page = 100\<rparr>"
  have filters: "build_list_filters (q_codec Q) org (trim (ep_environment p)) (scope_query p) = Inr ?f"
    by (simp add: build_list_filters_def scope_query_def transpose_map_def optional_trimmed_def)
  have clause: "filter_clause ?f = in_scope (q_codec Q) p"
    using assms(5) by (auto simp: fun_eq_iff filter_clause_def in_scope_def opt_all_def)
  have "limit_offset 100 (page_offset 1 100) (event_listing ?f (aw_rows w)) = event_listing ?f (aw_rows w)"
    using assms(6) by (simp add: limit_offset_def page_offset_def event_listing_def sort_desc_def clause)
  moreover have "set (event_listing ?f (aw_rows w)) = {r \<in> set (aw_rows w). in_scope (q_codec Q) p r}"
    by (auto simp: event_listing_def sort_desc_def clause)
  ultimately show ?thesis
    using assms(1) scope filters
    by (simp add: list_audit_events_def io_simps list_audit_events_db_def count_audit_events_def map_err_io_apply Let_def)
qed

text \<open>
  C25. What is posted is what is listed: after a successful POST of an event for one of the two
  environments, undisturbed, the listing of its organization and environment by an internal caller,
  as long as it fits one page, shows an event under the returned identifier that carries exactly the
  posted payload, with names trimmed and time and organization in the printed form of the codec; a
  payload already in that form comes back as it is.
\<close>

theorem stored_event_listed:
  assumes "audit_undisturbed Q" "append_audit_event Q hs p w = (Inr (code, i), w1)"
    and "trimmed_header hs2 (u ''x-internal-service-token'') = Some token" "q_internal_token Q = Some token"
    and "trim (ep_environment p) \<in> {u ''sandbox'', u ''production''}"
    and "length (filter (in_scope (q_codec Q) p) (aw_rows w)) < 100"
  shows "\<exists>events meta w2 r. list_audit_events Q hs2 (scope_query p) w1 = (Inr (200, events, meta), w2) \<and>
    r \<in> set events \<and> aer_id r = i \<and> payload_listed r = shown (q_codec Q) p \<and> aw_rows w2 = aw_rows w1 \<and>
    code = 201"
proof -
  from append_http_run [OF assms(1,2)] obtain ev d row where run: "code = 201" "into_proto p = Inr ev"
    "ev_schema_version ev = 1" "event_to_insert (q_codec Q) ev = Inr d" "er_data row = d"
    "aw_rows w1 = aw_rows w @ [row]" "i = c_uuid_str (q_codec Q) (er_id row)" by blast
  have org: "c_uuid_parse (q_codec Q) (trim (ep_organization_id p)) = Some (ins_organization_id d)"
    and env: "ins_environment d = trim (ep_environment p)"
    using run(2,4) by (auto simp: into_proto_def event_to_insert_def and_then_Inr ok_or_Inr)
  have row: "in_scope (q_codec Q) p row" using org env run(5) by (simp add: in_scope_def)
  have "length (filter (in_scope (q_codec Q) p) (aw_rows w1)) \<le> 100"
    using assms(6) run(6) by simp
  from list_scope_run [OF assms(1,3,4,5) org this] obtain events meta w2 where
    listed: "list_audit_events Q hs2 (scope_query p) w1 = (Inr (200, events, meta), w2)" "aw_rows w2 = aw_rows w1"
      "set events = audit_event_response_from (q_codec Q) ` {r \<in> set (aw_rows w1). in_scope (q_codec Q) p r}"
    by blast
  let ?r = "audit_event_response_from (q_codec Q) row"
  have "?r \<in> set events" using listed(3) run(6) row by auto
  moreover have "aer_id ?r = i" using run(7) by (simp add: audit_event_response_from_def Let_def)
  moreover have "payload_listed ?r = shown (q_codec Q) p"
    using payload_roundtrip [OF run(2,4,3), of "er_id row" "er_created_at row"] run(5) by (cases row) simp
  ultimately show ?thesis using listed(1,2) run(1) by blast
qed

text \<open>An event posted by an internal caller.\<close>

definition demo_payload :: audit_event_payload where
  "demo_payload =
     \<lparr>ep_occurred_at = u ''0'', ep_schema_version = 1, ep_source_service = u ''accounts'',
      ep_organization_id = u ''7'', ep_environment = u ''sandbox'',
      ep_actor = \<lparr>ap_type = u ''anonymous'', ap_id = [], ap_roles = []\<rparr>, ep_action = u ''accounts.money.deposit'',
      ep_target = \<lparr>tm_type = u ''account'', tm_id = u ''1''\<rparr>, ep_outcome = u ''success'',
      ep_request = \<lparr>rc_id = u ''5'', rc_method = u ''POST'', rc_path = u ''x'', rc_ip = [], rc_user_agent = []\<rparr>,
      ep_correlation_id = u ''c'', ep_reason = None, ep_metadata = []\<rparr>"

definition internal_headers :: headers where
  "internal_headers = [(u ''x-internal-service-token'', u ''secret'')]"

definition empty_trail :: "nat audit_world" where
  "empty_trail = \<lparr>aw_rows = [], aw_ext = 0, aw_tick = 0\<rparr>"

lemma internal_headers_simps:
  "trimmed_header internal_headers (u ''x-internal-service-token'') = Some (u ''secret'')"
  "trimmed_header internal_headers (u ''x-environment'') = None"
  by (simp_all add: internal_headers_def trimmed_header_def header_str_def header_byte_ok_def to_lower_def
      lower_cp_def u_def trim_def trim_start_def trim_end_def is_ws_def)

lemma demo_payload_proto: "into_proto demo_payload = Inr demo_event"
  by (simp add: into_proto_def demo_payload_def demo_event_def parse_actor_type_def parse_outcome_def
      trim_u is_ws_def)

lemma demo_event_valid: "validate_audit_event demo_codec 0 demo_event = Inr ()"
proof -
  have digit: "parse_digits (u [c]) = Some (of_char c - 48)" if "is_digit (of_char c)" for c
    using that by (simp add: parse_digits_def u_def digits_val_def)
  have org: "show_nat 7 \<noteq> u ''00000000-0000-0000-0000-000000000000''"
    by (subst show_nat.simps) (simp add: u_def)
  have "valid_event demo_codec 0 demo_event"
    by (simp add: valid_event_def demo_event_def demo_codec_def digit trim_u is_digit_def is_ws_def
        ALL_ACTIONS_def NIL_UUID_def org outcome_try_from_def actor_type_try_from_def)
  then show ?thesis by (simp add: validate_audit_event_iff)
qed

theorem stored_event_listed_witness:
  "\<exists>w1 events meta w2 r.
     append_audit_event demo_audit internal_headers demo_payload empty_trail = (Inr (201, u ''101''), w1) \<and>
     list_audit_events demo_audit internal_headers (scope_query demo_payload) w1 = (Inr (200, events, meta), w2) \<and>
     r \<in> set events \<and> aer_id r = u ''101'' \<and> payload_listed r = shown demo_codec demo_payload"
proof -
  have codec: "q_codec demo_audit = demo_codec" "q_internal_token demo_audit = Some (u ''secret'')"
    "q_clock demo_audit 0 = 0" "q_uuid demo_audit (Suc 0) = 101"
    by (simp_all add: demo_audit_def)
  have id: "c_uuid_str demo_codec 101 = u ''101''"
    by (simp add: demo_codec_def show_nat.simps [of "101"] show_nat.simps [of "10"] show_nat.simps [of "Suc 0"] u_def)
  have org: "c_uuid_parse demo_codec (trim (ep_organization_id demo_payload)) = Some 7"
    using demo_codec_parse(2) by (simp add: demo_payload_def trim_u is_ws_def)
  obtain d where d: "event_to_insert demo_codec demo_event = Inr d"
    using valid_event_row [of demo_codec 0 demo_event] demo_event_valid validate_audit_event_iff by blast
  obtain w1 where run: "append_audit_event demo_audit internal_headers demo_payload empty_trail =
      (Inr (201, u ''101''), w1)"
    by (simp add: append_audit_event_def io_simps internal_headers_simps check_internal_token_def ensure_def codec
        transpose_map_def org demo_payload_proto empty_trail_def map_err_io_apply demo_event_valid d
        insert_audit_event_def insert_event_stmt_def demo_audit_ok id)
  have env: "trim (ep_environment demo_payload) \<in> {u ''sandbox'', u ''production''}"
    by (simp add: demo_payload_def trim_u is_ws_def)
  have few: "length (filter (in_scope (q_codec demo_audit) demo_payload) (aw_rows empty_trail)) < 100"
    by (simp add: empty_trail_def)
  from stored_event_listed [OF demo_audit_ok run internal_headers_simps(1) codec(2) env few] run
  show ?thesis unfolding codec(1) by blast
qed

end
