(* ===== verification/Retry_Bound.thy ===== *)
theory Retry_Bound
  imports Worker_Spec Tx_Machine
begin

text \<open>
  Retrying ends: a measure on the transactions table that every post of the retry worker uses up. A row
  that is pending or being posted has as many attempts left as the configured maximum exceeds its
  counter, and at least one; settled rows have none. Reclaiming expired leases leaves the measure as it
  is; claiming a row, posting it and recording the answer takes at least one off it.
\<close>

definition attempts_left :: "'x params \<Rightarrow> tx_row \<Rightarrow> nat" where
  "attempts_left P r =
     (if r_status r = u ''pending'' \<or> r_status r = u ''posting''
      then nat (max 1 (sint (retry_max_attempts_from_env P) - sint (r_retry_count r))) else 0)"

definition open_attempts :: "'x params \<Rightarrow> tx_row list \<Rightarrow> nat" where
  "open_attempts P rows = sum_list (map (attempts_left P) rows)"

text \<open>While a batch is processed, a claimed row stands for its post and what may follow it.\<close>

definition weight :: "'x params \<Rightarrow> uuid set \<Rightarrow> tx_row \<Rightarrow> nat" where
  "weight P ids r =
     (if r_id r \<in> ids then Suc (nat (sint (retry_max_attempts_from_env P) - sint (r_retry_count r)))
      else attempts_left P r)"

section \<open>One row\<close>

lemma worker_row_frame [simp]:
  "r_id (worker_row P v n r) = r_id r" "idem_key (worker_row P v n r) = idem_key r"
  "r_retry_count (worker_row P v n r) = r_retry_count r"
  by (auto simp: worker_row_def idem_key_def split: sum.split)

lemma worker_row_ok: "tx_row_ok r \<Longrightarrow> tx_row_ok (worker_row P v n r)"
  by (auto simp: worker_row_def tx_row_ok_def split: sum.split)

lemma worker_row_spends: "Suc (attempts_left P (worker_row P v n r)) \<le> weight P {r_id r} r"
  by (cases v) (auto simp: worker_row_def weight_def attempts_left_def)

lemma claimed_row_weight:
  assumes "r_status r = u ''pending''" "r_retry_count r \<noteq> 0x7FFFFFFF" "r_id r \<in> ids"
  shows "weight P ids (claimed_row now r) = attempts_left P r"
  using assms(1,3) sint_incr [OF assms(2)] by (simp add: weight_def attempts_left_def)

section \<open>A batch\<close>

lemma sum_list_map_le:
  "(\<And>x. x \<in> set xs \<Longrightarrow> f x \<le> g x) \<Longrightarrow> sum_list (map f xs) \<le> (sum_list (map g xs) :: nat)"
  by (induction xs) (auto intro: add_mono)

lemma sum_list_map_less:
  assumes "\<And>x. x \<in> set xs \<Longrightarrow> f x \<le> g x" "y \<in> set xs" "Suc (f y) \<le> g y"
  shows "Suc (sum_list (map f xs)) \<le> (sum_list (map g xs) :: nat)"
  using assms
proof (induction xs)
  case (Cons x xs)
  show ?case
  proof (cases "y = x")
    case True
    have "sum_list (map f xs) \<le> sum_list (map g xs)" using Cons.prems(1) by (intro sum_list_map_le) auto
    then show ?thesis using True Cons.prems(3) by simp
  next
    case False
    then have "Suc (sum_list (map f xs)) \<le> sum_list (map g xs)" using Cons by auto
    moreover have "f x \<le> g x" using Cons.prems(1) by simp
    ultimately show ?thesis by simp
  qed
qed simp

text \<open>Every row the worker can claim names its environment.\<close>

lemma row_environment:
  assumes "tx_row_ok r" "row_to_transaction True r = Inr t"
  obtains env env_i where "tx_environment t = Some env" "env_to_proto env = Inr env_i"
proof -
  have "tx_environment t \<in> {Some (u ''sandbox''), Some (u ''production'')}"
    using assms row_to_transaction_InrD(10) [OF assms(2)] by (auto simp: tx_row_ok_def)
  then show thesis using that by (auto simp: env_to_proto_def)
qed

lemma process_one:
  assumes P: "undisturbed P" "ledger_up P" and ok: "tx_table_ok (db_transactions (w_db w))"
    and r: "r \<in> set (db_transactions (w_db w))" "row_to_transaction True r = Inr t" "r_id r \<notin> ids"
  shows "\<exists>w'. process_claimed P t w = (Inr (), w') \<and> tx_table_ok (db_transactions (w_db w')) \<and>
    (\<forall>x \<in> set (db_transactions (w_db w)). r_id x \<noteq> r_id r \<longrightarrow> x \<in> set (db_transactions (w_db w'))) \<and>
    length (w_posts w') + sum_list (map (weight P ids) (db_transactions (w_db w'))) \<le>
    length (w_posts w) + sum_list (map (weight P (insert (r_id r) ids)) (db_transactions (w_db w)))"
proof -
  have "tx_row_ok r" using ok r(1) by (auto simp: tx_table_ok_def list_all_iff)
  from row_environment [OF this r(2)] obtain env env_i where
    env: "tx_environment t = Some env" "env_to_proto env = Inr env_i" .
  let ?v = "ledger_verdict P (intended_post P t env_i) (w_ext w)"
  obtain w1 n where "w_posts w1 = w_posts w @ [intended_post P t env_i]" "process_claimed P t w = (Inr (),
      with_rows w1 (map (\<lambda>x. if r_id x = r_id r then worker_row P ?v (answered w) x else x) (db_transactions (w_db w))) n)"
    by (rule process_claimed_run [OF P ok r(1,2) env refl])
  then obtain w' where
    run: "process_claimed P t w = (Inr (), w')" "w_posts w' = w_posts w @ [intended_post P t env_i]"
    and rows: "db_transactions (w_db w') = map (\<lambda>x. if r_id x = r_id r then worker_row P ?v (answered w) x else x)
      (db_transactions (w_db w))" by simp
  let ?step = "\<lambda>x. if r_id x = r_id r then worker_row P ?v (answered w) x else x"
  have le: "weight P ids (?step x) \<le> weight P (insert (r_id r) ids) x" for x
    using worker_row_spends [of P ?v "answered w" x] r(3) by (auto simp: weight_def)
  have less: "Suc (weight P ids (?step r)) \<le> weight P (insert (r_id r) ids) r"
    using worker_row_spends [of P ?v "answered w" r] r(3) by (simp add: weight_def)
  have "Suc (sum_list (map (\<lambda>x. weight P ids (?step x)) (db_transactions (w_db w)))) \<le>
      sum_list (map (weight P (insert (r_id r) ids)) (db_transactions (w_db w)))"
    using le r(1) less by (rule sum_list_map_less)
  moreover have "tx_table_ok (db_transactions (w_db w'))"
    unfolding rows using ok worker_row_ok by (intro tx_table_ok_update) auto
  moreover have "\<forall>x \<in> set (db_transactions (w_db w)). r_id x \<noteq> r_id r \<longrightarrow> x \<in> set (db_transactions (w_db w'))"
    unfolding rows by force
  ultimately show ?thesis using run rows by (simp add: comp_def)
qed

lemma process_batch:
  assumes P: "undisturbed P" "ledger_up P"
  shows "tx_table_ok (db_transactions (w_db w)) \<Longrightarrow> distinct (map tx_id ts) \<Longrightarrow>
    \<forall>t \<in> set ts. \<exists>r \<in> set (db_transactions (w_db w)). row_to_transaction True r = Inr t \<Longrightarrow>
    \<exists>w'. for_each_io (process_claimed P) ts w = (Inr (), w') \<and> tx_table_ok (db_transactions (w_db w')) \<and>
      length (w_posts w') + open_attempts P (db_transactions (w_db w')) \<le>
      length (w_posts w) + sum_list (map (weight P (tx_id ` set ts)) (db_transactions (w_db w)))"
proof (induction ts arbitrary: w)
  case Nil
  have "weight P {} = attempts_left P" by (simp add: weight_def fun_eq_iff)
  with Nil show ?case by (simp add: ret_apply open_attempts_def)
next
  case (Cons t ts)
  obtain r where r: "r \<in> set (db_transactions (w_db w))" "row_to_transaction True r = Inr t"
    using Cons.prems(3) by auto
  have id: "tx_id t = r_id r" using row_to_transaction_InrD(3) [OF r(2)] .
  have "r_id r \<notin> tx_id ` set ts" using Cons.prems(2) id by auto
  from process_one [OF P Cons.prems(1) r this] obtain w1 where
    one: "process_claimed P t w = (Inr (), w1)" "tx_table_ok (db_transactions (w_db w1))"
      "\<forall>x \<in> set (db_transactions (w_db w)). r_id x \<noteq> r_id r \<longrightarrow> x \<in> set (db_transactions (w_db w1))"
      "length (w_posts w1) + sum_list (map (weight P (tx_id ` set ts)) (db_transactions (w_db w1))) \<le>
       length (w_posts w) + sum_list (map (weight P (insert (r_id r) (tx_id ` set ts))) (db_transactions (w_db w)))"
    by blast
  have "\<forall>s \<in> set ts. \<exists>x \<in> set (db_transactions (w_db w1)). row_to_transaction True x = Inr s"
  proof
    fix s assume s: "s \<in> set ts"
    then obtain x where x: "x \<in> set (db_transactions (w_db w))" "row_to_transaction True x = Inr s"
      using Cons.prems(3) by auto
    have "tx_id t \<noteq> tx_id s" using Cons.prems(2) s by force
    then have "r_id x \<noteq> r_id r" using row_to_transaction_InrD(3) [OF x(2)] id by simp
    with one(3) x show "\<exists>x \<in> set (db_transactions (w_db w1)). row_to_transaction True x = Inr s" by blast
  qed
  then obtain w' where "for_each_io (process_claimed P) ts w1 = (Inr (), w')" "tx_table_ok (db_transactions (w_db w'))"
    "length (w_posts w') + open_attempts P (db_transactions (w_db w')) \<le>
      length (w_posts w1) + sum_list (map (weight P (tx_id ` set ts)) (db_transactions (w_db w1)))"
    using Cons.IH [OF one(2)] Cons.prems(2) by auto
  with one(1,4) id show ?case by (auto simp: bind_io_apply)
qed

section \<open>A poll\<close>

lemma reclaim_open:
  "open_attempts P (snd (reclaim_stmt now secs env rows)) = open_attempts P rows"
  by (auto simp: open_attempts_def reclaim_stmt_def attempts_left_def comp_def
      intro!: arg_cong [where f = sum_list] map_cong)

lemma claim_weight:
  assumes ok: "tx_table_ok rows"
    and ids: "\<forall>i \<in> set ids. \<exists>r \<in> set rows. r_id r = i \<and> claimable now older env r \<and> \<not> locked i \<and>
      r_retry_count r \<noteq> 0x7FFFFFFF"
  shows "sum_list (map (weight P (set ids)) (map (\<lambda>r. if r_id r \<in> set ids then claimed_row now r else r) rows)) =
    open_attempts P rows"
proof -
  have "weight P (set ids) (if r_id r \<in> set ids then claimed_row now r else r) = attempts_left P r"
    if "r \<in> set rows" for r
  proof (cases "r_id r \<in> set ids")
    case True
    with ids obtain r' where "r' \<in> set rows" "r_id r' = r_id r" "claimable now older env r'"
      "r_retry_count r' \<noteq> 0x7FFFFFFF" by blast
    with table_unique [OF ok] that have "claimable now older env r" "r_retry_count r \<noteq> 0x7FFFFFFF" by metis+
    with True show ?thesis by (simp add: claimed_row_weight claimable_def)
  qed (simp add: weight_def)
  then show ?thesis
    unfolding open_attempts_def map_map comp_def by (intro arg_cong [where f = sum_list] map_cong) auto
qed

lemma transactions_of_rows:
  assumes "list_all tx_row_ok rows"
  obtains ts where "all_transactions True rows = Inr ts" "map tx_id ts = map r_id rows"
    "\<forall>t \<in> set ts. \<exists>r \<in> set rows. row_to_transaction True r = Inr t"
proof -
  have "\<exists>ts. all_transactions True rows = Inr ts \<and> map tx_id ts = map r_id rows \<and>
      (\<forall>t \<in> set ts. \<exists>r \<in> set rows. row_to_transaction True r = Inr t)"
    using assms
  proof (induction rows)
    case (Cons r rows)
    moreover obtain t where "row_to_transaction True r = Inr t"
      using Cons.prems row_to_transaction_ok by fastforce
    ultimately show ?case by (auto simp: all_transactions_def dest: row_to_transaction_InrD(3))
  qed (simp add: all_transactions_def)
  with that show thesis by blast
qed

text \<open>Processing the rows one claim took, whatever they are.\<close>

lemma claimed_batch_spends:
  assumes P: "undisturbed P" "ledger_up P" and ok: "tx_table_ok rows" "tx_table_ok (db_transactions (w_db v))"
    and ids: "\<forall>i \<in> set ids. \<exists>r \<in> set rows. r_id r = i \<and> claimable n older env r \<and> \<not> locked i \<and>
      r_retry_count r \<noteq> 0x7FFFFFFF"
    and v: "db_transactions (w_db v) = map (\<lambda>r. if r_id r \<in> set ids then claimed_row n r else r) rows"
  shows "\<exists>ts w'. all_transactions True (map (claimed_row n) (filter (\<lambda>r. r_id r \<in> set ids) rows)) = Inr ts \<and>
    for_each_io (process_claimed P) ts v = (Inr (), w') \<and> tx_table_ok (db_transactions (w_db w')) \<and>
    length (w_posts w') + open_attempts P (db_transactions (w_db w')) \<le> length (w_posts v) + open_attempts P rows"
proof -
  let ?q = "\<lambda>r. r_id r \<in> set ids"
  let ?claimed = "map (claimed_row n) (filter ?q rows)" and ?all = "db_transactions (w_db v)"
  have sub: "set ?claimed \<subseteq> set ?all" unfolding v by auto
  have "list_all tx_row_ok ?claimed" using ok(2) sub by (auto simp: tx_table_ok_def list_all_iff)
  then obtain ts where ts: "all_transactions True ?claimed = Inr ts" "map tx_id ts = map r_id ?claimed"
    "\<forall>t \<in> set ts. \<exists>r \<in> set ?claimed. row_to_transaction True r = Inr t"
    by (rule transactions_of_rows)
  have "distinct (map r_id (filter ?q rows))" using ok(1) by (simp add: tx_table_ok_def distinct_map_filter)
  then have dist: "distinct (map tx_id ts)" unfolding ts(2) by (simp add: comp_def)
  have from_rows: "\<forall>t \<in> set ts. \<exists>r \<in> set ?all. row_to_transaction True r = Inr t" using ts(3) sub by fastforce
  have named: "tx_id ` set ts = r_id ` set (filter ?q rows)"
    using arg_cong [OF ts(2), of set] by (simp add: image_image)
  have same: "weight P (tx_id ` set ts) x = weight P (set ids) x" if "x \<in> set ?all" for x
    unfolding named using that by (auto simp: v weight_def)
  from process_batch [OF P ok(2) dist from_rows] obtain w2 where
    w2: "for_each_io (process_claimed P) ts v = (Inr (), w2)" "tx_table_ok (db_transactions (w_db w2))"
      "length (w_posts w2) + open_attempts P (db_transactions (w_db w2)) \<le>
       length (w_posts v) + sum_list (map (weight P (tx_id ` set ts)) ?all)" by auto
  have "sum_list (map (weight P (tx_id ` set ts)) ?all) = sum_list (map (weight P (set ids)) ?all)"
    using same by (intro arg_cong [where f = sum_list] map_cong) auto
  also have "\<dots> = open_attempts P rows" unfolding v using ok(1) ids by (rule claim_weight)
  finally show ?thesis using ts(1) w2 by auto
qed

lemma poll_spends:
  assumes P: "undisturbed P" "ledger_up P" and ok: "tx_table_ok (db_transactions (w_db w))"
  shows "\<exists>w'. retry_worker_poll_once P w = (Inr (), w') \<and> tx_table_ok (db_transactions (w_db w')) \<and>
    length (w_posts w') + open_attempts P (db_transactions (w_db w')) \<le>
    length (w_posts w) + open_attempts P (db_transactions (w_db w))"
proof -
  let ?n1 = "p_clock P (w_tick w)" and ?t = "Suc (w_tick w)" and ?rows = "db_transactions (w_db w)"
  let ?rows1 = "snd (reclaim_stmt ?n1 (max (num_seconds (stale_posting_duration P)) 1) None ?rows)"
  let ?batch = "claim_batch_stmt (p_constraint_error P) (p_clock P ?t) (p_locked P ?t) (max (num_seconds (seconds 2)) 1)
      200 None ?rows1"
  let ?w1 = "with_rows w (snd ?batch) (w_tick w + 2)"
  have ok1: "tx_table_ok ?rows1" using tx_step.reclaim ok by (rule tx_step_ok)
  have ok2: "tx_table_ok (snd ?batch)" using tx_step.claim_batch ok1 by (rule tx_step_ok)
  have claim: "claim_pending_transactions_for_ledger_post P (seconds 2) (stale_posting_duration P) (Some 200) None w =
      (case fst ?batch of Inl e \<Rightarrow> Inl e | Inr rows \<Rightarrow> all_transactions True rows, ?w1)"
    by (simp add: claim_pending_eval [OF P(1)] Let_def)
  have tail: "sleep v = (Inr () :: app_error + unit, v\<lparr>w_tick := Suc (w_tick v)\<rparr>)" for v :: "'a world"
    by (simp add: sleep_def io_simps)
  show ?thesis
  proof (cases rule: claim_batch_cases [of "p_constraint_error P" "p_clock P ?t" "p_locked P ?t"
        "max (num_seconds (seconds 2)) 1" 200 None ?rows1])
    case (1 e)
    then show ?thesis
      using claim ok1 reclaim_open [of P ?n1 "max (num_seconds (stale_posting_duration P)) 1" None ?rows]
      by (simp add: retry_worker_poll_once_def io_simps handle_retry_claim_outcome_def sleep_def)
  next
    case (2 ids)
    have batch: "?batch = (Inr (map (claimed_row (p_clock P ?t)) (filter (\<lambda>r. r_id r \<in> set ids) ?rows1)),
        map (\<lambda>r. if r_id r \<in> set ids then claimed_row (p_clock P ?t) r else r) ?rows1)"
      unfolding 2(1) by (simp add: update_returning_def Let_def claimed_row_def [abs_def])
    have "tx_table_ok (db_transactions (w_db ?w1))" using ok2 by simp
    from claimed_batch_spends [OF P ok1 this 2(2)] batch obtain ts w2 where w2:
      "all_transactions True (map (claimed_row (p_clock P ?t)) (filter (\<lambda>r. r_id r \<in> set ids) ?rows1)) = Inr ts"
      "for_each_io (process_claimed P) ts ?w1 = (Inr (), w2)" "tx_table_ok (db_transactions (w_db w2))"
      "length (w_posts w2) + open_attempts P (db_transactions (w_db w2)) \<le> length (w_posts w) + open_attempts P ?rows1"
      by (auto simp: batch)
    moreover have "retry_worker_poll_once P w = (Inr (), w2\<lparr>w_tick := Suc (w_tick w2)\<rparr>)"
      using claim w2(1,2)
      by (simp add: retry_worker_poll_once_def io_simps handle_retry_claim_outcome_def process_claimed_ledger_posts_def
          batch tail)
    ultimately show ?thesis using reclaim_open [of P ?n1 "max (num_seconds (stale_posting_duration P)) 1" None ?rows] by simp
  qed
qed

lemma polls_spend:
  assumes P: "undisturbed P" "ledger_up P"
  shows "tx_table_ok (db_transactions (w_db w)) \<Longrightarrow>
    \<exists>w'. for_each_io (\<lambda>_. retry_worker_poll_once P) xs w = (Inr (), w') \<and>
      length (w_posts w') + open_attempts P (db_transactions (w_db w')) \<le>
      length (w_posts w) + open_attempts P (db_transactions (w_db w))"
proof (induction xs arbitrary: w)
  case (Cons x xs)
  from poll_spends [OF P Cons.prems] obtain w1 where one: "retry_worker_poll_once P w = (Inr (), w1)"
    "tx_table_ok (db_transactions (w_db w1))"
    "length (w_posts w1) + open_attempts P (db_transactions (w_db w1)) \<le>
     length (w_posts w) + open_attempts P (db_transactions (w_db w))" by blast
  from Cons.IH [OF one(2)] one(1,3) show ?case by (fastforce simp: bind_io_apply)
qed (simp add: ret_apply)

text \<open>
  C12. Retrying ends. However often the retry worker polls, on a database no other process touches
  meanwhile and whatever the ledger answers, it always returns, and the posts it sends altogether are
  at most the attempts the table had left: for every row pending or being posted the configured maximum
  less its counter, and at least one. What is still open afterwards only shrinks by what was sent.
\<close>

theorem retries_terminate:
  assumes "undisturbed P" "ledger_up P" "tx_table_ok (db_transactions (w_db w))"
  shows "\<exists>w'. retry_worker_run P n w = (Inr (), w') \<and>
    length (w_posts w') + open_attempts P (db_transactions (w_db w')) \<le>
    length (w_posts w) + open_attempts P (db_transactions (w_db w))"
  unfolding retry_worker_run_def using assms by (rule polls_spend)

theorem retries_terminate_witness:
  "\<exists>w'. retry_worker_run mute_params 1000 (demo_world\<lparr>w_db := \<lparr>db_accounts = [], db_transactions = [eighth]\<rparr>\<rparr>)
     = (Inr (), w') \<and> length (w_posts w') \<le> 1"
proof -
  let ?w = "demo_world\<lparr>w_db := \<lparr>db_accounts = [], db_transactions = [eighth]\<rparr>\<rparr>"
  have table: "tx_table_ok (db_transactions (w_db ?w))"
    by (simp add: tx_table_ok_def tx_row_ok_def eighth_def demo_row_def new_tx_row_def)
  have "open_attempts mute_params (db_transactions (w_db ?w)) = 1"
    by (simp add: open_attempts_def attempts_left_def eighth_def demo_row_def new_tx_row_def
        retry_max_attempts_from_env_def positive_i32_from_env_def mute_params_def demo_params_def)
  moreover have "length (w_posts ?w) = 0" by (simp add: demo_world_def)
  ultimately show ?thesis using retries_terminate [OF mute_params_ok table, of 1000] by auto
qed

end
