(* ===== verification/Retry_Drain.thy ===== *)
theory Retry_Drain
  imports Retry_Bound
begin

text \<open>
  What is due gets posted. While the ledger accepts and nothing disturbs the database, a poll of the
  retry worker settles the rows it claims and leaves the others as they are, except for expired leases,
  which it gives back; it claims all due rows, or a full batch of 200 of them. Hence so many polls that
  the open rows fit into their batches settle every row that was due at the beginning, with one post
  for each row settled.
\<close>

definition open_row :: "tx_row \<Rightarrow> bool" where
  "open_row r \<longleftrightarrow> r_status r = u ''pending'' \<or> r_status r = u ''posting''"

text \<open>Due: pending, or posting with an expired lease; older than two seconds; the next retry has come.\<close>

definition due_at :: "int \<Rightarrow> time \<Rightarrow> tx_row \<Rightarrow> bool" where
  "due_at lease now r \<longleftrightarrow>
     (r_status r = u ''pending'' \<or> r_status r = u ''posting'' \<and> r_updated_at r < now - lease * 1000000) \<and>
     r_created_at r < now - 2 * 1000000 \<and>
     (case r_next_retry_at r of None \<Rightarrow> True | Some t \<Rightarrow> t \<le> now)"

definition posting_lease :: "'x params \<Rightarrow> int" where
  "posting_lease P = max (num_seconds (stale_posting_duration P)) 1"

definition accepting :: "'x params \<Rightarrow> bool" where
  "accepting P \<longleftrightarrow> undisturbed P \<and> ledger_up P \<and> (\<forall>req x. ledger_verdict P req x = Inr ()) \<and>
     mono (p_clock P) \<and> (\<forall>t i. \<not> p_locked P t i)"

section \<open>Rows one by one\<close>

text \<open>The rows with a given identifier are posted, the others are kept.\<close>

definition settles :: "uuid set \<Rightarrow> tx_row \<Rightarrow> tx_row \<Rightarrow> bool" where
  "settles ids x y \<longleftrightarrow> r_id y = r_id x \<and> (if r_id x \<in> ids then r_status y = u ''posted'' else y = x)"

lemma settles_trans: "settles A x y \<Longrightarrow> settles B y z \<Longrightarrow> settles (A \<union> B) x z"
  by (auto simp: settles_def split: if_splits)

lemma settles_all_trans:
  "list_all2 (settles A) xs ys \<Longrightarrow> list_all2 (settles B) ys zs \<Longrightarrow> list_all2 (settles (A \<union> B)) xs zs"
  by (rule list_all2_trans [of "settles A" "settles B" "settles (A \<union> B)", OF settles_trans])

lemma settles_map:
  "(\<And>x. x \<in> set rows \<Longrightarrow> settles A x (f x)) \<Longrightarrow> list_all2 (settles A) rows (map f rows)"
  by (simp add: list_all2_map2 list.rel_refl_strong)

lemma settles_ids: "list_all2 (settles A) rows rows' \<Longrightarrow> map r_id rows' = map r_id rows"
  by (induction rule: list_all2_induct) (auto simp: settles_def)

lemma settles_keeps_row:
  "list_all2 (settles A) rows rows' \<Longrightarrow> x \<in> set rows \<Longrightarrow> r_id x \<notin> A \<Longrightarrow> x \<in> set rows'"
  by (induction rule: list_all2_induct) (auto simp: settles_def)

section \<open>Processing a batch\<close>

lemma process_accepted:
  assumes P: "accepting P"
  shows "tx_table_ok (db_transactions (w_db w)) \<Longrightarrow> distinct (map tx_id ts) \<Longrightarrow>
    \<forall>t \<in> set ts. \<exists>r \<in> set (db_transactions (w_db w)). row_to_transaction True r = Inr t \<Longrightarrow>
    \<exists>w'. for_each_io (process_claimed P) ts w = (Inr (), w') \<and> tx_table_ok (db_transactions (w_db w')) \<and>
      w_tick w \<le> w_tick w' \<and> length (w_posts w') = length (w_posts w) + length ts \<and>
      list_all2 (settles (tx_id ` set ts)) (db_transactions (w_db w)) (db_transactions (w_db w'))"
proof (induction ts arbitrary: w)
  case Nil
  then show ?case by (simp add: ret_apply settles_def list.rel_refl)
next
  case (Cons t ts)
  let ?rows = "db_transactions (w_db w)"
  have ok: "undisturbed P" "ledger_up P" and yes: "ledger_verdict P req x = Inr ()" for req x
    using P by (simp_all add: accepting_def)
  obtain r where r: "r \<in> set ?rows" "row_to_transaction True r = Inr t" using Cons.prems(3) by auto
  have id: "tx_id t = r_id r" using row_to_transaction_InrD(3) [OF r(2)] .
  have "tx_row_ok r" using Cons.prems(1) r(1) by (auto simp: tx_table_ok_def list_all_iff)
  from row_environment [OF this r(2)] obtain env env_i where
    env: "tx_environment t = Some env" "env_to_proto env = Inr env_i" .
  obtain w1 n where w1: "w_posts w1 = w_posts w @ [intended_post P t env_i]" "w_tick w \<le> n"
    "process_claimed P t w = (Inr (),
       with_rows w1 (map (\<lambda>x. if r_id x = r_id r then worker_row P (Inr ()) (answered w) x else x) ?rows) n)"
    by (rule process_claimed_run [OF ok Cons.prems(1) r env yes [symmetric]])
  let ?step = "\<lambda>x. if r_id x = r_id r then worker_row P (Inr ()) (answered w) x else x"
  let ?w2 = "with_rows w1 (map ?step ?rows) n"
  have first: "list_all2 (settles {tx_id t}) ?rows (db_transactions (w_db ?w2))"
    unfolding with_rows_simps id by (rule settles_map) (simp add: settles_def worker_row_def)
  have ok2: "tx_table_ok (db_transactions (w_db ?w2))"
    unfolding with_rows_simps using Cons.prems(1) worker_row_ok by (intro tx_table_ok_update) auto
  have rest: "\<forall>s \<in> set ts. \<exists>x \<in> set (db_transactions (w_db ?w2)). row_to_transaction True x = Inr s"
  proof
    fix s assume s: "s \<in> set ts"
    then obtain x where x: "x \<in> set ?rows" "row_to_transaction True x = Inr s" using Cons.prems(3) by auto
    have "tx_id s = r_id x" using row_to_transaction_InrD(3) [OF x(2)] .
    moreover have "tx_id t \<noteq> tx_id s" using Cons.prems(2) s by force
    ultimately have "r_id x \<notin> {tx_id t}" by simp
    from settles_keeps_row [OF first x(1) this] x(2)
    show "\<exists>x \<in> set (db_transactions (w_db ?w2)). row_to_transaction True x = Inr s" by blast
  qed
  obtain w' where w': "for_each_io (process_claimed P) ts ?w2 = (Inr (), w')" "tx_table_ok (db_transactions (w_db w'))"
    "w_tick ?w2 \<le> w_tick w'" "length (w_posts w') = length (w_posts ?w2) + length ts"
    "list_all2 (settles (tx_id ` set ts)) (db_transactions (w_db ?w2)) (db_transactions (w_db w'))"
    using Cons.IH [OF ok2 _ rest] Cons.prems(2) by auto
  have "list_all2 (settles (tx_id ` set (t # ts))) ?rows (db_transactions (w_db w'))"
    using settles_all_trans [OF first w'(5)] by simp
  with w' w1 show ?case by (simp add: bind_io_apply with_rows_def)
qed

section \<open>Claiming a batch\<close>

lemma filter_in_ids:
  assumes "distinct (map r_id rows)" "distinct (map r_id cands)" "set cands \<subseteq> set rows"
  shows "length (filter (\<lambda>r. r_id r \<in> r_id ` set cands) rows) = length cands"
proof -
  have "set (filter (\<lambda>r. r_id r \<in> r_id ` set cands) rows) = set cands"
    using assms by (auto simp: distinct_map dest: inj_onD)
  moreover have "distinct (filter (\<lambda>r. r_id r \<in> r_id ` set cands) rows)" "distinct cands"
    using assms(1,2) by (simp_all add: distinct_map)
  ultimately show ?thesis by (metis distinct_card)
qed

lemma claim_batch_fills:
  assumes free: "\<forall>i. \<not> locked i" and dist: "distinct (map r_id rows)" and lim: "0 \<le> sint limit"
    and counts: "\<forall>x \<in> set rows. claimable now older env x \<longrightarrow> r_retry_count x \<noteq> 0x7FFFFFFF"
  obtains ids where "claim_batch_stmt err now locked older limit env rows =
      (Inr (map (claimed_row now) (filter (\<lambda>r. r_id r \<in> ids) rows)),
       map (\<lambda>r. if r_id r \<in> ids then claimed_row now r else r) rows)"
    "\<forall>r \<in> set rows. r_id r \<in> ids \<longrightarrow> claimable now older env r"
    "length (filter (\<lambda>r. r_id r \<in> ids) rows) = nat (sint limit) \<or> (\<forall>r \<in> set rows. claimable now older env r \<longrightarrow> r_id r \<in> ids)"
proof -
  let ?all = "sort_key r_created_at (filter (claimable now older env) rows)"
  let ?cands = "take (nat (sint limit)) ?all"
  have sub: "set ?cands \<subseteq> set ?all" by (rule set_take_subset)
  have in_rows: "set ?cands \<subseteq> set rows" using sub by auto
  have "distinct (map r_id ?all)" using dist by (simp add: distinct_map inj_on_def)
  then have dist': "distinct (map r_id ?cands)" by (simp add: take_map [symmetric])
  have found: "sql_limit err limit (filter (\<lambda>r. \<not> locked (r_id r)) ?all) = Inr ?cands"
    using free lim by (simp add: sql_limit_def)
  have "\<not> list_ex (\<lambda>r. r_retry_count r = 0x7FFFFFFF) ?cands"
    using counts sub by (auto simp: list_ex_iff)
  then have run: "claim_batch_stmt err now locked older limit env rows =
      (Inr (map (claimed_row now) (filter (\<lambda>r. r_id r \<in> r_id ` set ?cands) rows)),
       map (\<lambda>r. if r_id r \<in> r_id ` set ?cands then claimed_row now r else r) rows)"
    unfolding claim_batch_stmt_def found by (simp add: update_returning_def Let_def claimed_row_def [abs_def])
  have picked: "claimable now older env r" if "r \<in> set rows" "r_id r \<in> r_id ` set ?cands" for r
  proof -
    from that(2) obtain c where c: "c \<in> set ?cands" "r_id r = r_id c" by blast
    then have "r = c" using that(1) in_rows dist by (auto simp: distinct_map dest: inj_onD)
    then show ?thesis using c(1) sub by auto
  qed
  have "length (filter (\<lambda>r. r_id r \<in> r_id ` set ?cands) rows) = nat (sint limit) \<or>
      (\<forall>r \<in> set rows. claimable now older env r \<longrightarrow> r_id r \<in> r_id ` set ?cands)"
  proof (cases "length ?all \<le> nat (sint limit)")
    case True
    then show ?thesis by simp
  next
    case False
    then have "length ?cands = nat (sint limit)" by simp
    then show ?thesis using filter_in_ids [OF dist dist' in_rows] by simp
  qed
  with that run picked show thesis by blast
qed


section \<open>A poll\<close>

text \<open>A row that a poll leaves open: unchanged, or given back with an expired lease.\<close>

definition stays :: "tx_row \<Rightarrow> tx_row \<Rightarrow> bool" where
  "stays x y \<longleftrightarrow> r_id y = r_id x \<and> r_created_at y = r_created_at x \<and> r_next_retry_at y = r_next_retry_at x \<and>
     r_retry_count y = r_retry_count x \<and> (open_row y \<longleftrightarrow> open_row x) \<and>
     (r_status y = r_status x \<and> r_updated_at y = r_updated_at x \<or> r_status x = u ''posting'' \<and> r_status y = u ''pending'')"

definition polled :: "uuid set \<Rightarrow> tx_row \<Rightarrow> tx_row \<Rightarrow> bool" where
  "polled ids x y \<longleftrightarrow> (if r_id x \<in> ids then open_row x \<and> r_id y = r_id x \<and> r_status y = u ''posted'' else stays x y)"

lemma open_posted: "r_status y = u ''posted'' \<Longrightarrow> \<not> open_row y"
  by (simp add: open_row_def)

lemma stays_refl [simp]: "stays x x"
  by (simp add: stays_def)

lemma stays_due: "stays x y \<Longrightarrow> due_at lease now x \<Longrightarrow> now \<le> later \<Longrightarrow> due_at lease later y"
  by (auto simp: stays_def due_at_def split: option.splits)

lemma polled_open:
  "list_all2 (polled ids) rows rows' \<Longrightarrow>
   length (filter open_row rows') + length (filter (\<lambda>r. r_id r \<in> ids) rows) = length (filter open_row rows)"
  by (induction rule: list_all2_induct) (auto simp: polled_def stays_def open_posted)

lemma list_all2_in:
  assumes "list_all2 R xs ys"
  shows "x \<in> set xs \<Longrightarrow> \<exists>y \<in> set ys. R x y" and "y \<in> set ys \<Longrightarrow> \<exists>x \<in> set xs. R x y"
  using assms by (induction rule: list_all2_induct) auto

text \<open>A row whose lease has expired, given back.\<close>

definition given_back :: "int \<Rightarrow> time \<Rightarrow> tx_row \<Rightarrow> tx_row" where
  "given_back lease now r =
     (if r_status r = u ''posting'' \<and> r_updated_at r < now - lease * 1000000
      then r\<lparr>r_status := u ''pending'', r_failure_reason := Some (u ''posting lease expired; reclaimed for retry''),
             r_updated_at := now\<rparr>
      else r)"

lemma reclaim_gives_back: "snd (reclaim_stmt now lease None rows) = map (given_back lease now) rows"
  by (simp add: reclaim_stmt_def update_returning_def given_back_def)

lemma given_back_stays: "stays r (given_back lease now r)"
  by (simp add: stays_def open_row_def given_back_def)

lemma given_back_id [simp]: "r_id (given_back lease now r) = r_id r"
  using given_back_stays [of r lease now] by (simp add: stays_def)

lemma given_back_due: "due_at lease now r \<Longrightarrow> now \<le> later \<Longrightarrow> claimable later 2 None (given_back lease now r)"
  by (auto simp: due_at_def claimable_def given_back_def split: option.splits)

lemma given_back_counts:
  "\<forall>x \<in> set rows. open_row x \<longrightarrow> r_retry_count x \<noteq> 0x7FFFFFFF \<Longrightarrow>
   \<forall>x \<in> set (map (given_back lease now) rows). claimable n 2 None x \<longrightarrow> r_retry_count x \<noteq> 0x7FFFFFFF"
  using given_back_stays [of _ lease now] by (auto simp: claimable_def open_row_def stays_def)

text \<open>The rows of one claim, processed: each is posted, the others are as the claim left them.\<close>

lemma claimed_batch_settles:
  assumes P: "accepting P" and ok: "tx_table_ok rows" "tx_table_ok (db_transactions (w_db v))"
    and v: "db_transactions (w_db v) = map (\<lambda>r. if r_id r \<in> ids then claimed_row n r else r) rows"
  shows "\<exists>ts w'. all_transactions True (map (claimed_row n) (filter (\<lambda>r. r_id r \<in> ids) rows)) = Inr ts \<and>
    for_each_io (process_claimed P) ts v = (Inr (), w') \<and> tx_table_ok (db_transactions (w_db w')) \<and>
    w_tick v \<le> w_tick w' \<and> length (w_posts w') = length (w_posts v) + length (filter (\<lambda>r. r_id r \<in> ids) rows) \<and>
    list_all2 (settles ids) (db_transactions (w_db v)) (db_transactions (w_db w'))"
proof -
  let ?claimed = "map (claimed_row n) (filter (\<lambda>r. r_id r \<in> ids) rows)" and ?all = "db_transactions (w_db v)"
  have sub: "set ?claimed \<subseteq> set ?all" unfolding v by auto
  have "list_all tx_row_ok ?claimed" using ok(2) sub by (auto simp: tx_table_ok_def list_all_iff)
  then obtain ts where ts: "all_transactions True ?claimed = Inr ts" "map tx_id ts = map r_id ?claimed"
    "\<forall>t \<in> set ts. \<exists>r \<in> set ?claimed. row_to_transaction True r = Inr t"
    by (rule transactions_of_rows)
  have "distinct (map r_id (filter (\<lambda>r. r_id r \<in> ids) rows))" using ok(1) by (simp add: tx_table_ok_def distinct_map_filter)
  then have dist: "distinct (map tx_id ts)" unfolding ts(2) by (simp add: comp_def)
  have "\<forall>t \<in> set ts. \<exists>r \<in> set ?all. row_to_transaction True r = Inr t" using ts(3) sub by blast
  from process_accepted [OF P ok(2) dist this] obtain w' where
    w': "for_each_io (process_claimed P) ts v = (Inr (), w')" "tx_table_ok (db_transactions (w_db w'))"
      "w_tick v \<le> w_tick w'" "length (w_posts w') = length (w_posts v) + length ts"
    and settled: "list_all2 (settles (tx_id ` set ts)) ?all (db_transactions (w_db w'))" by blast
  have named: "tx_id ` set ts = r_id ` set (filter (\<lambda>r. r_id r \<in> ids) rows)"
    using arg_cong [OF ts(2), of set] by (simp add: image_image)
  have "settles ids x y" if "x \<in> set ?all" "settles (tx_id ` set ts) x y" for x y
  proof -
    have "r_id x \<in> tx_id ` set ts \<longleftrightarrow> r_id x \<in> ids" unfolding named using that(1) by (auto simp: v)
    then show ?thesis using that(2) by (simp add: settles_def)
  qed
  then have "list_all2 (settles ids) ?all (db_transactions (w_db w'))"
    using settled by (auto intro: list.rel_mono_strong)
  moreover have "length ts = length (filter (\<lambda>r. r_id r \<in> ids) rows)"
    using arg_cong [OF ts(2), of length] by simp
  ultimately show ?thesis using ts(1) w' by auto
qed

lemma polled_by_steps:
  assumes settled: "list_all2 (settles ids) (map (\<lambda>r. if r_id r \<in> ids then claimed_row n r else r) (map (given_back lease now) rows)) rows'"
    and mine: "\<forall>r \<in> set (map (given_back lease now) rows). r_id r \<in> ids \<longrightarrow> claimable n 2 None r"
  shows "list_all2 (polled ids) rows rows'"
proof -
  have "list_all2 (\<lambda>r. settles ids (if r_id r \<in> ids then claimed_row n (given_back lease now r) else given_back lease now r))
      rows rows'"
    using settled by (simp add: list_all2_map1 comp_def cong: if_cong)
  then show ?thesis
  proof (rule list.rel_mono_strong)
    fix r y
    assume r: "r \<in> set rows"
      and y: "settles ids (if r_id r \<in> ids then claimed_row n (given_back lease now r) else given_back lease now r) y"
    show "polled ids r y"
    proof (cases "r_id r \<in> ids")
      case True
      then have "claimable n 2 None (given_back lease now r)" using mine r by simp
      then have "open_row r" using given_back_stays [of r lease now] by (auto simp: claimable_def stays_def open_row_def)
      then show ?thesis using y True by (simp add: polled_def settles_def)
    next
      case False
      then have "y = given_back lease now r" using y by (simp add: settles_def)
      then show ?thesis using given_back_stays False by (simp add: polled_def)
    qed
  qed
qed

lemma poll_drains:
  assumes P: "accepting P" and ok: "tx_table_ok (db_transactions (w_db w))"
    and counts: "\<forall>x \<in> set (db_transactions (w_db w)). open_row x \<longrightarrow> r_retry_count x \<noteq> 0x7FFFFFFF"
  shows "\<exists>w' ids. retry_worker_poll_once P w = (Inr (), w') \<and> tx_table_ok (db_transactions (w_db w')) \<and>
    w_tick w \<le> w_tick w' \<and> list_all2 (polled ids) (db_transactions (w_db w)) (db_transactions (w_db w')) \<and>
    length (w_posts w') = length (w_posts w) + length (filter (\<lambda>r. r_id r \<in> ids) (db_transactions (w_db w))) \<and>
    (length (filter (\<lambda>r. r_id r \<in> ids) (db_transactions (w_db w))) = 200 \<or>
     (\<forall>r \<in> set (db_transactions (w_db w)). due_at (posting_lease P) (p_clock P (w_tick w)) r \<longrightarrow> r_id r \<in> ids))"
proof -
  let ?n1 = "p_clock P (w_tick w)" and ?n2 = "p_clock P (Suc (w_tick w))" and ?rows = "db_transactions (w_db w)"
  define rows1 where "rows1 = map (given_back (posting_lease P) ?n1) ?rows"
  have quiet: "undisturbed P" and free: "\<forall>i. \<not> p_locked P (Suc (w_tick w)) i" and le: "?n1 \<le> ?n2"
    using P by (auto simp: accepting_def mono_def)
  have reclaim: "snd (reclaim_stmt ?n1 (posting_lease P) None ?rows) = rows1"
    unfolding rows1_def by (rule reclaim_gives_back)
  have "tx_table_ok (snd (reclaim_stmt ?n1 (posting_lease P) None ?rows))"
    using tx_step.reclaim ok by (rule tx_step_ok)
  then have ok1: "tx_table_ok rows1" unfolding reclaim .
  then have dist1: "distinct (map r_id rows1)" by (simp add: tx_table_ok_def)
  have counts1: "\<forall>x \<in> set rows1. claimable ?n2 2 None x \<longrightarrow> r_retry_count x \<noteq> 0x7FFFFFFF"
    using given_back_counts [OF counts] unfolding rows1_def by blast
  obtain ids where batch: "claim_batch_stmt (p_constraint_error P) ?n2 (p_locked P (Suc (w_tick w))) 2 200 None rows1 =
      (Inr (map (claimed_row ?n2) (filter (\<lambda>r. r_id r \<in> ids) rows1)),
       map (\<lambda>r. if r_id r \<in> ids then claimed_row ?n2 r else r) rows1)"
    and mine: "\<forall>r \<in> set rows1. r_id r \<in> ids \<longrightarrow> claimable ?n2 2 None r"
    and full: "length (filter (\<lambda>r. r_id r \<in> ids) rows1) = nat (sint (200 :: 64 word)) \<or>
      (\<forall>r \<in> set rows1. claimable ?n2 2 None r \<longrightarrow> r_id r \<in> ids)"
    by (rule claim_batch_fills [OF free dist1 _ counts1, of 200 "p_constraint_error P"]) simp
  let ?w1 = "with_rows w (map (\<lambda>r. if r_id r \<in> ids then claimed_row ?n2 r else r) rows1) (w_tick w + 2)"
  have "tx_table_ok (snd (claim_batch_stmt (p_constraint_error P) ?n2 (p_locked P (Suc (w_tick w))) 2 200 None rows1))"
    using tx_step.claim_batch ok1 by (rule tx_step_ok)
  then have ok2: "tx_table_ok (db_transactions (w_db ?w1))" unfolding batch by simp
  have count: "length (filter (\<lambda>r. r_id r \<in> ids) rows1) = length (filter (\<lambda>r. r_id r \<in> ids) ?rows)"
    by (simp add: rows1_def filter_map comp_def)
  obtain ts w2 where w2: "all_transactions True (map (claimed_row ?n2) (filter (\<lambda>r. r_id r \<in> ids) rows1)) = Inr ts"
    "for_each_io (process_claimed P) ts ?w1 = (Inr (), w2)" "tx_table_ok (db_transactions (w_db w2))"
    "w_tick ?w1 \<le> w_tick w2" "length (w_posts w2) = length (w_posts ?w1) + length (filter (\<lambda>r. r_id r \<in> ids) ?rows)"
    "list_all2 (settles ids) (db_transactions (w_db ?w1)) (db_transactions (w_db w2))"
    using claimed_batch_settles [OF P ok1 ok2, of ids ?n2] unfolding count by auto
  have two: "max (num_seconds (seconds 2)) 1 = 2" by (simp add: num_seconds_seconds)
  have "retry_worker_poll_once P w = (Inr (), w2\<lparr>w_tick := Suc (w_tick w2)\<rparr>)"
    using w2(1,2)
    by (simp add: retry_worker_poll_once_def bind_io_apply try_io_apply claim_pending_eval [OF quiet] Let_def two batch
        reclaim [unfolded posting_lease_def] handle_retry_claim_outcome_def process_claimed_ledger_posts_def ret_apply
        sleep_def tick_apply)
  moreover have "list_all2 (polled ids) ?rows (db_transactions (w_db w2))"
    using w2(6) mine unfolding rows1_def with_rows_simps by (rule polled_by_steps)
  moreover have "length (filter (\<lambda>r. r_id r \<in> ids) ?rows) = 200 \<or>
      (\<forall>r \<in> set ?rows. due_at (posting_lease P) ?n1 r \<longrightarrow> r_id r \<in> ids)"
    using full given_back_due [OF _ le] unfolding count by (auto simp: rows1_def)
  ultimately show ?thesis
    using w2(3-5) by (intro exI [of _ "w2\<lparr>w_tick := Suc (w_tick w2)\<rparr>"] exI [of _ ids]) (simp add: with_rows_def)
qed

section \<open>Polling on\<close>

text \<open>Polls after polls: every open row that is due is settled once the open rows fit the batches, what
  is posted stays posted, and every post settles one row.\<close>

definition drained :: "'x params \<Rightarrow> nat \<Rightarrow> 'x world \<Rightarrow> 'x world \<Rightarrow> bool" where
  "drained P n w w' \<longleftrightarrow>
     (let rows = db_transactions (w_db w); rows' = db_transactions (w_db w') in
      length (w_posts w') + length (filter open_row rows') = length (w_posts w) + length (filter open_row rows) \<and>
      (\<forall>r \<in> set rows. r_status r = u ''posted'' \<or>
          length (filter open_row rows) \<le> 200 * n \<and> due_at (posting_lease P) (p_clock P (w_tick w)) r \<longrightarrow>
        (\<exists>r' \<in> set rows'. r_id r' = r_id r \<and> r_status r' = u ''posted'')))"

lemma polled_posted:
  assumes "list_all2 (polled ids) rows rows'" "r \<in> set rows" "r_status r = u ''posted'' \<or> r_id r \<in> ids"
  shows "\<exists>r' \<in> set rows'. r_id r' = r_id r \<and> r_status r' = u ''posted''"
  using list_all2_in(1) [OF assms(1,2)] assms(3) by (auto simp: polled_def stays_def split: if_splits)

lemma polled_counts:
  assumes "list_all2 (polled ids) rows rows'" "\<forall>x \<in> set rows. open_row x \<longrightarrow> r_retry_count x \<noteq> 0x7FFFFFFF"
  shows "\<forall>x \<in> set rows'. open_row x \<longrightarrow> r_retry_count x \<noteq> 0x7FFFFFFF"
proof (intro ballI impI)
  fix y assume y: "y \<in> set rows'" "open_row y"
  from list_all2_in(2) [OF assms(1) y(1)] obtain x where x: "x \<in> set rows" "polled ids x y" by blast
  have "stays x y" using x(2) y(2) open_posted by (auto simp: polled_def split: if_splits)
  then show "r_retry_count y \<noteq> 0x7FFFFFFF" using assms(2) x(1) y(2) by (auto simp: stays_def)
qed

lemma drained_step:
  assumes polled: "list_all2 (polled ids) (db_transactions (w_db w)) (db_transactions (w_db v))"
    and posts: "length (w_posts v) = length (w_posts w) + length (filter (\<lambda>r. r_id r \<in> ids) (db_transactions (w_db w)))"
    and full: "length (filter (\<lambda>r. r_id r \<in> ids) (db_transactions (w_db w))) = 200 \<or>
      (\<forall>r \<in> set (db_transactions (w_db w)). due_at (posting_lease P) (p_clock P (w_tick w)) r \<longrightarrow> r_id r \<in> ids)"
    and later: "p_clock P (w_tick w) \<le> p_clock P (w_tick v)" and rest: "drained P n v w'"
  shows "drained P (Suc n) w w'"
proof -
  let ?rows = "db_transactions (w_db w)" and ?mid = "db_transactions (w_db v)"
  note count = polled_open [OF polled]
  have "\<exists>r' \<in> set (db_transactions (w_db w')). r_id r' = r_id r \<and> r_status r' = u ''posted''"
    if r: "r \<in> set ?rows" and why: "r_status r = u ''posted'' \<or>
      length (filter open_row ?rows) \<le> 200 * Suc n \<and> due_at (posting_lease P) (p_clock P (w_tick w)) r" for r
  proof (cases "r_status r = u ''posted'' \<or> r_id r \<in> ids")
    case True
    from polled_posted [OF polled r True] rest show ?thesis by (fastforce simp: drained_def Let_def)
  next
    case False
    with why full r have few: "length (filter open_row ?mid) \<le> 200 * n" using count by auto
    obtain y where y: "y \<in> set ?mid" "polled ids r y" using list_all2_in(1) [OF polled r] by blast
    with False have stays: "stays r y" by (simp add: polled_def)
    from why False have "due_at (posting_lease P) (p_clock P (w_tick w)) r" by blast
    from stays_due [OF stays this later] have "due_at (posting_lease P) (p_clock P (w_tick v)) y" .
    moreover have "r_id y = r_id r" using stays by (simp add: stays_def)
    moreover obtain r' where "r' \<in> set (db_transactions (w_db w'))" "r_id r' = r_id y" "r_status r' = u ''posted''"
      using rest few y(1) calculation unfolding drained_def Let_def by blast
    ultimately show ?thesis by auto
  qed
  moreover have "length (w_posts w') + length (filter open_row (db_transactions (w_db w'))) =
      length (w_posts w) + length (filter open_row ?rows)"
    using rest posts count by (simp add: drained_def Let_def)
  ultimately show ?thesis unfolding drained_def Let_def by blast
qed

lemma polls_drain:
  assumes P: "accepting P"
  shows "tx_table_ok (db_transactions (w_db w)) \<Longrightarrow>
    \<forall>x \<in> set (db_transactions (w_db w)). open_row x \<longrightarrow> r_retry_count x \<noteq> 0x7FFFFFFF \<Longrightarrow>
    \<exists>w'. for_each_io (\<lambda>_. retry_worker_poll_once P) xs w = (Inr (), w') \<and> drained P (length xs) w w'"
proof (induction xs arbitrary: w)
  case Nil
  have "drained P 0 w w"
    by (auto simp: drained_def Let_def due_at_def open_row_def filter_empty_conv)
  then show ?case by (simp add: ret_apply)
next
  case (Cons x xs)
  from poll_drains [OF P Cons.prems] obtain v ids where v: "retry_worker_poll_once P w = (Inr (), v)"
    "tx_table_ok (db_transactions (w_db v))" "w_tick w \<le> w_tick v"
    and step: "list_all2 (polled ids) (db_transactions (w_db w)) (db_transactions (w_db v))"
      "length (w_posts v) = length (w_posts w) + length (filter (\<lambda>r. r_id r \<in> ids) (db_transactions (w_db w)))"
      "length (filter (\<lambda>r. r_id r \<in> ids) (db_transactions (w_db w))) = 200 \<or>
       (\<forall>r \<in> set (db_transactions (w_db w)). due_at (posting_lease P) (p_clock P (w_tick w)) r \<longrightarrow> r_id r \<in> ids)"
    by blast
  from Cons.IH [OF v(2) polled_counts [OF step(1) Cons.prems(2)]] obtain w' where
    w': "for_each_io (\<lambda>_. retry_worker_poll_once P) xs v = (Inr (), w')" "drained P (length xs) v w'" by blast
  have "p_clock P (w_tick w) \<le> p_clock P (w_tick v)" using P v(3) by (simp add: accepting_def mono_def)
  from drained_step [OF step this w'(2)] v(1) w'(1) show ?case by (auto simp: bind_io_apply)
qed

text \<open>
  C17. What is due gets posted. As long as the ledger accepts what it is sent and nothing disturbs the
  database, every transaction that is due when the retry worker starts (pending, or left behind in
  posting beyond the lease; two seconds old; its next retry time come) is posted after enough polls, and
  so many suffice that all open transactions fit into their batches of 200. Every post the worker sends
  meanwhile settles a row: none is sent twice.
\<close>

theorem due_work_drains:
  assumes "accepting P" "tx_table_ok (db_transactions (w_db w))"
    and "\<forall>x \<in> set (db_transactions (w_db w)). open_row x \<longrightarrow> r_retry_count x \<noteq> 0x7FFFFFFF"
    and "length (filter open_row (db_transactions (w_db w))) \<le> 200 * n"
    and "r \<in> set (db_transactions (w_db w))" "due_at (posting_lease P) (p_clock P (w_tick w)) r"
  shows "\<exists>w' r'. retry_worker_run P n w = (Inr (), w') \<and>
    r' \<in> set (db_transactions (w_db w')) \<and> r_id r' = r_id r \<and> r_status r' = u ''posted'' \<and>
    length (w_posts w') + length (filter open_row (db_transactions (w_db w'))) =
      length (w_posts w) + length (filter open_row (db_transactions (w_db w)))"
proof -
  obtain w' where "retry_worker_run P n w = (Inr (), w')" "drained P n w w'"
    unfolding retry_worker_run_def using polls_drain [OF assms(1-3), of "[0..<n]"] by auto
  moreover from this(2) assms(4-6) obtain r' where
    "r' \<in> set (db_transactions (w_db w'))" "r_id r' = r_id r" "r_status r' = u ''posted''"
    unfolding drained_def Let_def by blast
  ultimately show ?thesis unfolding drained_def Let_def by blast
qed

text \<open>The row whose poster died, two hours later: one poll posts it.\<close>

theorem due_work_drains_witness:
  "\<exists>w' r'. retry_worker_run demo_params 1 two_hours_later = (Inr (), w') \<and>
    r' \<in> set (db_transactions (w_db w')) \<and> r_id r' = 50 \<and> r_status r' = u ''posted''"
proof -
  have acc: "accepting demo_params"
    using demo_params_ok by (simp add: accepting_def mono_def demo_params_def ledger_verdict_def)
  have table: "tx_table_ok (db_transactions (w_db two_hours_later))"
    by (simp add: tx_table_ok_def tx_row_ok_def stuck_def demo_row_def new_tx_row_def two_hours_later_def)
  have lease: "posting_lease demo_params = 600"
    by (simp add: posting_lease_def stale_posting_duration_def stale_posting_secs_from_env_def
        positive_i64_from_env_def demo_params_def num_seconds_seconds)
  have due: "due_at (posting_lease demo_params) (p_clock demo_params (w_tick two_hours_later)) stuck"
    by (simp add: due_at_def lease)
  have rows: "db_transactions (w_db two_hours_later) = [stuck]" by (simp add: two_hours_later_def)
  have "length (filter open_row (db_transactions (w_db two_hours_later))) \<le> 200 * 1"
    by (simp add: rows)
  from due_work_drains [OF acc table _ this _ due] rows show ?thesis by auto
qed

end
