(* ===== verification/Startup.thy ===== *)
theory Startup
  imports Service_Config
begin

text \<open>
  How the three processes start (\<^verbatim>\<open>accounts-service/src/lib.rs\<close>,
  \<^verbatim>\<open>users-service/src/bootstrap.rs\<close> with \<^verbatim>\<open>grpc.rs\<close>,
  \<^verbatim>\<open>audit-service/src/bootstrap.rs\<close>): configuration, database, migrations, clients, routes,
  workers, sockets, in this order, each step with the error that ends the start. What the outside
  answers is the record \<open>outside\<close>; the log of a start is the list of what has happened. Telemetry
  is left out.
\<close>

datatype migrate_result = Migrate_Ok | Version_Missing str | Version_Mismatch str | Migrate_Failed str

datatype worker = Retry_Worker_Task | Reconcile_Task

datatype startup_event =
    Db_Connected str
  | Migrated
  | Ledger_Probed str
  | Clients bool bool
  | Worker_Started worker
  | Http_Bound str
  | Serving "16 word"

record outside =
  o_env :: env_vars
  o_endpoint :: "str \<Rightarrow> str option"
  o_db_connect :: "str \<Rightarrow> str option"
  o_migrate :: migrate_result
  o_ledger_connect :: "str \<Rightarrow> str option"
  o_accounts_connect :: "str \<Rightarrow> bool"
  o_parse_addr :: "str \<Rightarrow> str option"
  o_bind :: "str \<Rightarrow> str option"
  o_serve :: "str option"

type_synonym 'a startup = "(startup_event list, startup_error, 'a) io"

definition happened :: "startup_event \<Rightarrow> unit startup" where
  "happened e = (\<lambda>log. (Inr (), log @ [e]))"

text \<open>A step that fails with the given error, wrapped as the code wraps it.\<close>

definition attempt :: "str option \<Rightarrow> (str \<Rightarrow> str) \<Rightarrow> unit startup" where
  "attempt err wrap = (case err of None \<Rightarrow> ret () | Some e \<Rightarrow> throw (Startup_Failed (wrap e)))"

text \<open>A migration that is unknown or whose text has changed is skipped with a warning.\<close>

definition resolve_migrate_run_result :: "migrate_result \<Rightarrow> str + unit" where
  "resolve_migrate_run_result r =
     (case r of
        Migrate_Ok \<Rightarrow> Inr ()
      | Version_Missing _ \<Rightarrow> Inr ()
      | Version_Mismatch _ \<Rightarrow> Inr ()
      | Migrate_Failed e \<Rightarrow> Inl e)"

definition run_accounts_migrations :: "outside \<Rightarrow> unit startup" where
  "run_accounts_migrations E = lift_result (map_sum Startup_Failed id (resolve_migrate_run_result (o_migrate E)))"

definition probe_ledger_connectivity :: "outside \<Rightarrow> str \<Rightarrow> unit startup" where
  "probe_ledger_connectivity E endpoint =
     bind_io (attempt (o_endpoint E endpoint) (\<lambda>e. u ''invalid LEDGER_GRPC_URL: '' @ e)) (\<lambda>_.
     attempt (o_ledger_connect E endpoint) (\<lambda>e. u ''ledger startup connectivity probe failed: '' @ e))"

definition socket_addr :: "16 word \<Rightarrow> str" where
  "socket_addr port = u ''0.0.0.0:'' @ show_nat (unat port)"

definition accounts_run :: "outside \<Rightarrow> unit startup" where
  "accounts_run E =
     bind_io (lift_result (accounts_from_env (o_endpoint E) (o_env E))) (\<lambda>settings.
     bind_io (attempt (o_db_connect E (as_database_url settings)) id) (\<lambda>_.
     bind_io (happened (Db_Connected (as_database_url settings))) (\<lambda>_.
     bind_io (run_accounts_migrations E) (\<lambda>_.
     bind_io (happened Migrated) (\<lambda>_.
     bind_io (probe_ledger_connectivity E (as_ledger_grpc_url settings)) (\<lambda>_.
     bind_io (happened (Ledger_Probed (as_ledger_grpc_url settings))) (\<lambda>_.
     bind_io (lift_result (map_sum (Startup_Failed \<circ> error_to_string) id
       (accounts_connect_lazy (o_endpoint E) (as_users_grpc_url settings)))) (\<lambda>_.
     let audit_client = audit_channel (o_endpoint E) (as_audit_grpc_url settings) in
     bind_io (happened (Clients True (audit_client \<noteq> None))) (\<lambda>_.
     bind_io (happened (Worker_Started Retry_Worker_Task)) (\<lambda>_.
     bind_io (happened (Worker_Started Reconcile_Task)) (\<lambda>_.
     bind_io (attempt (o_bind E (socket_addr (as_port settings))) id) (\<lambda>_.
     bind_io (happened (Http_Bound (socket_addr (as_port settings)))) (\<lambda>_.
     bind_io (happened (Serving (as_grpc_port settings))) (\<lambda>_.
     attempt (o_serve E) id))))))))))))))"

section \<open>Users service\<close>

text \<open>\<^verbatim>\<open>grpc::init\<close>: the accounts client is connected at once and may be missing, the
  audit client is lazy.\<close>

definition init_grpc_clients :: "outside \<Rightarrow> users_config \<Rightarrow> bool \<times> bool" where
  "init_grpc_clients E config =
     (o_accounts_connect E (uc_accounts_grpc_url config),
      audit_channel (o_endpoint E) (uc_audit_grpc_url config) \<noteq> None)"

definition users_startup :: "outside \<Rightarrow> unit startup" where
  "users_startup E =
     bind_io (lift_result (users_load (o_env E))) (\<lambda>config.
     bind_io (attempt (o_db_connect E (uc_database_url config)) (\<lambda>e.
       u ''Failed to connect to database: '' @ e @
       u ''. Make sure PostgreSQL is running and DATABASE_URL is correct.'')) (\<lambda>_.
     bind_io (happened (Db_Connected (uc_database_url config))) (\<lambda>_.
     bind_io (lift_result (map_sum (\<lambda>e. Startup_Failed (u ''Migration failed: '' @ e)) id
       (resolve_migrate_run_result (o_migrate E)))) (\<lambda>_.
     bind_io (happened Migrated) (\<lambda>_.
     let (accounts_client, audit_client) = init_grpc_clients E config in
     bind_io (happened (Clients accounts_client audit_client)) (\<lambda>_.
     bind_io (attempt (o_parse_addr E (uc_server_addr config)) (\<lambda>e.
       u ''Failed to parse SERVER_ADDR '' @ [39] @ uc_server_addr config @ [39] @ u '': '' @ e)) (\<lambda>_.
     bind_io (attempt (o_bind E (uc_server_addr config)) (\<lambda>e.
       u ''Failed to bind to '' @ uc_server_addr config @ u '': '' @ e)) (\<lambda>_.
     bind_io (happened (Http_Bound (uc_server_addr config))) (\<lambda>_.
     bind_io (happened (Serving (uc_grpc_port config))) (\<lambda>_.
     attempt (o_serve E) id))))))))))"

section \<open>Audit service\<close>

definition audit_startup :: "outside \<Rightarrow> unit startup" where
  "audit_startup E =
     bind_io (lift_result (audit_from_env (o_env E))) (\<lambda>config.
     bind_io (attempt (o_db_connect E (ac_database_url config)) id) (\<lambda>_.
     bind_io (happened (Db_Connected (ac_database_url config))) (\<lambda>_.
     bind_io (lift_result (map_sum Startup_Failed id (resolve_migrate_run_result (o_migrate E)))) (\<lambda>_.
     bind_io (happened Migrated) (\<lambda>_.
     bind_io (attempt (o_parse_addr E (ac_server_addr config)) (\<lambda>e. u ''SERVER_ADDR: '' @ e)) (\<lambda>_.
     bind_io (attempt (o_bind E (ac_server_addr config)) id) (\<lambda>_.
     bind_io (happened (Http_Bound (ac_server_addr config))) (\<lambda>_.
     bind_io (lift_result (audit_connect_lazy (o_endpoint E) (ac_users_grpc_url config))) (\<lambda>_.
     bind_io (happened (Clients True True)) (\<lambda>_.
     bind_io (happened (Serving (ac_grpc_port config))) (\<lambda>_.
     attempt (o_serve E) id)))))))))))"

section \<open>Facts\<close>

lemma happened_apply [io_simps]: "happened e log = (Inr (), log @ [e])"
  by (simp add: happened_def)

lemma attempt_apply [io_simps]:
  "attempt err wrap log = (case err of None \<Rightarrow> (Inr (), log) | Some e \<Rightarrow> (Inl (Startup_Failed (wrap e)), log))"
  by (simp add: attempt_def io_simps split: option.split)

definition migrated :: "outside \<Rightarrow> bool" where
  "migrated E \<longleftrightarrow> (\<forall>e. o_migrate E \<noteq> Migrate_Failed e)"

lemma resolve_migrate:
  "resolve_migrate_run_result (o_migrate E) = Inr x \<longleftrightarrow> migrated E"
  "map_sum f id (resolve_migrate_run_result (o_migrate E)) = Inr x \<longleftrightarrow> migrated E"
  "map_sum f id (resolve_migrate_run_result (o_migrate E)) = Inl y \<Longrightarrow> \<not> migrated E"
  by (auto simp: resolve_migrate_run_result_def migrated_def split: migrate_result.splits)

text \<open>A start of the accounts service up to its last step, as one equation.\<close>

lemma accounts_run_ready:
  assumes "accounts_from_env (o_endpoint E) (o_env E) = Inr s" "o_db_connect E (as_database_url s) = None" "migrated E"
    and "o_endpoint E (as_ledger_grpc_url s) = None" "o_ledger_connect E (as_ledger_grpc_url s) = None"
    and "o_endpoint E (as_users_grpc_url s) = None" "o_bind E (socket_addr (as_port s)) = None"
  shows "accounts_run E log = attempt (o_serve E) id (log @
    [Db_Connected (as_database_url s), Migrated, Ledger_Probed (as_ledger_grpc_url s),
     Clients True (audit_channel (o_endpoint E) (as_audit_grpc_url s) \<noteq> None),
     Worker_Started Retry_Worker_Task, Worker_Started Reconcile_Task,
     Http_Bound (socket_addr (as_port s)), Serving (as_grpc_port s)])"
proof -
  have "resolve_migrate_run_result (o_migrate E) = Inr ()" using assms(3) by (simp add: resolve_migrate)
  with assms show ?thesis
    by (simp add: accounts_run_def io_simps run_accounts_migrations_def probe_ledger_connectivity_def
        accounts_connect_lazy_def Let_def split: option.split)
qed

text \<open>
  The accounts service works only on a usable database and a ledger it has reached: in any start,
  from the first worker on, the database was connected, its migrations were run (or skipped as unknown
  or changed), the ledger endpoint was a URI and answered the probe; and it serves requests exactly when
  moreover the users endpoint is a URI and its own port could be bound.
\<close>

theorem accounts_start_gated:
  assumes "accounts_run E [] = (res, log)"
  shows "(Worker_Started k \<in> set log \<longrightarrow> (\<exists>s. accounts_from_env (o_endpoint E) (o_env E) = Inr s \<and>
      o_db_connect E (as_database_url s) = None \<and> migrated E \<and> o_endpoint E (as_ledger_grpc_url s) = None \<and>
      o_ledger_connect E (as_ledger_grpc_url s) = None \<and>
      take 3 log = [Db_Connected (as_database_url s), Migrated, Ledger_Probed (as_ledger_grpc_url s)])) \<and>
    (Serving p \<in> set log \<longleftrightarrow> (\<exists>s. accounts_from_env (o_endpoint E) (o_env E) = Inr s \<and>
      o_db_connect E (as_database_url s) = None \<and> migrated E \<and> o_endpoint E (as_ledger_grpc_url s) = None \<and>
      o_ledger_connect E (as_ledger_grpc_url s) = None \<and> o_endpoint E (as_users_grpc_url s) = None \<and>
      o_bind E (socket_addr (as_port s)) = None \<and> p = as_grpc_port s))"
  using assms
  by (auto simp: accounts_run_def io_simps run_accounts_migrations_def probe_ledger_connectivity_def
      accounts_connect_lazy_def Let_def split: sum.splits option.splits dest!: resolve_migrate(3) resolve_migrate(3) [OF sym] simp: resolve_migrate(2))

text \<open>A start in a complete environment, with a ledger that answers, and one without.\<close>

definition demo_outside :: outside where
  "demo_outside = \<lparr>o_env = [u ''DATABASE_URL'' \<mapsto> u ''postgres://db''], o_endpoint = (\<lambda>_. None),
     o_db_connect = (\<lambda>_. None), o_migrate = Migrate_Ok, o_ledger_connect = (\<lambda>_. None),
     o_accounts_connect = (\<lambda>_. True), o_parse_addr = (\<lambda>_. None), o_bind = (\<lambda>_. None), o_serve = None\<rparr>"

theorem accounts_start_gated_witness:
  "\<exists>res log. accounts_run demo_outside [] = (res, log) \<and> Serving 9090 \<in> set log"
proof -
  obtain res log where run: "accounts_run demo_outside [] = (res, log)" by fastforce
  obtain s where s: "accounts_from_env (o_endpoint demo_outside) (o_env demo_outside) = Inr s" "as_grpc_port s = 9090"
    by (simp add: accounts_from_env_def demo_outside_def)
  have "migrated demo_outside" by (simp add: migrated_def demo_outside_def)
  with s have "Serving 9090 \<in> set log"
    using accounts_start_gated [OF run, THEN conjunct2, of 9090] by (auto simp: demo_outside_def)
  with run show ?thesis by blast
qed

text \<open>The users service serves without the accounts service, and only warns.\<close>

lemma users_serve_without_accounts:
  assumes "users_load (o_env E) = Inr c" "o_db_connect E (uc_database_url c) = None" "migrated E"
    and "o_parse_addr E (uc_server_addr c) = None" "o_bind E (uc_server_addr c) = None"
  shows "\<exists>res log. users_startup E [] = (res, log) \<and> Serving (uc_grpc_port c) \<in> set log"
proof -
  have "resolve_migrate_run_result (o_migrate E) = Inr ()" using assms(3) by (simp add: resolve_migrate)
  with assms show ?thesis
    by (cases "init_grpc_clients E c") (simp add: users_startup_def io_simps Let_def split: option.split)
qed

text \<open>The audit service binds its port before it reads the users endpoint; it serves only with both.\<close>

lemma audit_start_gated:
  assumes "audit_startup E [] = (res, log)" "Serving p \<in> set log"
  shows "\<exists>c. audit_from_env (o_env E) = Inr c \<and> migrated E \<and> o_endpoint E (ac_users_grpc_url c) = None \<and>
    o_bind E (ac_server_addr c) = None \<and> p = ac_grpc_port c"
  using assms
  by (auto simp: audit_startup_def io_simps audit_connect_lazy_def
      split: sum.splits option.splits dest!: resolve_migrate(3) resolve_migrate(3) [OF sym] simp: resolve_migrate(2))

end
