(* ===== verification/Users_Email.thy ===== *)
theory Users_Email
  imports Users_World Service_Config "HOL-Library.Sublist"
begin

text \<open>
  The e-mails of the users service (\<^verbatim>\<open>users-service/src/email.rs\<close>): the two messages, text and
  HTML, and their delivery through the Resend API, whose answers, an error of the network or a
  status, are part of the world. User input reaches the HTML only through
  \<open>escape_html\<close>.
\<close>

section \<open>Escaping\<close>

text \<open>\<^verbatim>\<open>value.replace(c, r)\<close> for one character.\<close>

definition replace_char :: "nat \<Rightarrow> str \<Rightarrow> str \<Rightarrow> str" where
  "replace_char c r s = concat (map (\<lambda>x. if x = c then r else [x]) s)"

definition escape_html :: "str \<Rightarrow> str" where
  "escape_html v =
     replace_char 39 (u ''&#39;'')
       (replace_char 34 (u ''&quot;'')
         (replace_char 62 (u ''&gt;'')
           (replace_char 60 (u ''&lt;'')
             (replace_char 38 (u ''&amp;'') v))))"

section \<open>Messages\<close>

record email_service =
  es_api_key :: "str option"
  es_from_email :: str
  es_from_name :: str
  es_base_url :: str
  es_beta_notification_email :: str
  es_frontend_base_url :: str

definition new_email_service :: "users_config \<Rightarrow> email_service" where
  "new_email_service config =
     \<lparr>es_api_key = uc_resend_api_key config,
      es_from_email = uc_resend_from_email config,
      es_from_name = uc_resend_from_name config,
      es_base_url = uc_resend_base_url config,
      es_beta_notification_email = uc_resend_beta_notification_email config,
      es_frontend_base_url = uc_frontend_base_url config\<rparr>"

definition is_configured :: "email_service \<Rightarrow> bool" where
  "is_configured svc \<longleftrightarrow> es_api_key svc \<noteq> None"

record resend_payload =
  rp_from :: str
  rp_to :: "str list"
  rp_reply_to :: "str option"
  rp_subject :: str
  rp_text :: str
  rp_html :: str

fun join_lines :: "str list \<Rightarrow> str" where
  "join_lines [] = []"
| "join_lines [l] = l"
| "join_lines (l # m # ls) = l @ 10 # join_lines (m # ls)"

definition em_dash :: nat where
  "em_dash = 0x2014"

definition signature_line :: str where
  "signature_line = em_dash # u '' Rails Financial Infrastructure''"

text \<open>The lines around the body of both HTML messages.\<close>

definition html_head :: "str list" where
  \<open>html_head =
     [u ''<!DOCTYPE html>'',
      u ''<html>'',
      u ''<head><meta charset="utf-8"></head>'',
      u ''<body style="font-family: system-ui, sans-serif; line-height: 1.6; color: #333;">'']\<close>

definition html_tail :: "str list" where
  \<open>html_tail =
     [u ''<hr style="border: none; border-top: 1px solid #eee; margin: 24px 0;">'',
      u ''<p style="font-size: 12px; color: #999;">'' @ signature_line @ u ''</p>'',
      u ''</body>'',
      u ''</html>'']\<close>

definition reset_text :: "str \<Rightarrow> str" where
  "reset_text reset_url =
     join_lines
       [u ''You requested a password reset for your Rails account.'', [],
        u ''Click the link below to reset your password:'', [],
        reset_url, [],
        u ''This link will expire in 1 hour.'', [],
        u ''If you didn't request this, you can safely ignore this email.'', [],
        signature_line]"

definition reset_html :: "str \<Rightarrow> str" where
  \<open>reset_html escaped_reset_url =
     join_lines (html_head @
       [u ''<p>You requested a password reset for your Rails account.</p>'',
        u ''<p><a href="'' @ escaped_reset_url @
          u ''" style="display: inline-block; padding: 12px 24px; background: #000; color: #fff; text-decoration: none; border-radius: 6px;">Reset Password</a></p>'',
        u ''<p style="font-size: 14px; color: #666;">This link will expire in 1 hour.</p>'',
        u ''<p style="font-size: 14px; color: #666;">If you didn't request this, you can safely ignore this email.</p>'']
       @ html_tail)\<close>

definition beta_text :: "str \<Rightarrow> str \<Rightarrow> str \<Rightarrow> str" where
  "beta_text name company use_case =
     join_lines
       [u ''Thanks for applying to the Rails private beta.'', [],
        u ''We've received your application and will follow up shortly.'', [],
        u ''Summary:'',
        u ''Name: '' @ name,
        u ''Company: '' @ company,
        u ''Primary Use Case:'',
        use_case, [],
        signature_line]"

definition beta_html :: "str \<Rightarrow> str \<Rightarrow> str \<Rightarrow> str" where
  \<open>beta_html escaped_name escaped_company escaped_use_case =
     join_lines (html_head @
       [u ''<h2>Thanks for applying to the Rails private beta</h2>'',
        u ''<p>We've received your application and will follow up shortly.</p>'',
        u ''<p><strong>Summary</strong></p>'',
        u ''<p><strong>Name:</strong> '' @ escaped_name @ u ''</p>'',
        u ''<p><strong>Company:</strong> '' @ escaped_company @ u ''</p>'',
        u ''<p><strong>Primary Use Case:</strong></p>'',
        u ''<p style="white-space: pre-wrap;">'' @ escaped_use_case @ u ''</p>'']
       @ html_tail)\<close>

definition sender_line :: "email_service \<Rightarrow> str" where
  "sender_line svc = es_from_name svc @ u '' <'' @ es_from_email svc @ u ''>''"

definition reset_payload :: "email_service \<Rightarrow> str \<Rightarrow> str \<Rightarrow> resend_payload" where
  "reset_payload svc email token =
     (let reset_url = es_frontend_base_url svc @ u ''/reset-password?token='' @ token in
      \<lparr>rp_from = sender_line svc, rp_to = [email], rp_reply_to = None,
       rp_subject = u ''Reset Your Password'',
       rp_text = reset_text reset_url,
       rp_html = reset_html (escape_html reset_url)\<rparr>)"

definition beta_payload :: "email_service \<Rightarrow> str \<Rightarrow> str \<Rightarrow> str \<Rightarrow> str \<Rightarrow> resend_payload" where
  "beta_payload svc name email company use_case =
     \<lparr>rp_from = sender_line svc, rp_to = [email], rp_reply_to = Some (es_beta_notification_email svc),
      rp_subject = u ''We've received your private beta application'',
      rp_text = beta_text name company use_case,
      rp_html = beta_html (escape_html name) (escape_html company) (escape_html use_case)\<rparr>"

section \<open>Delivery\<close>

record resend_request =
  rq_url :: str
  rq_authorization :: str
  rq_payload :: resend_payload

text \<open>The answers of the API, in the order in which they are asked for, and the requests sent so far;
  a status is shown with its reason phrase by the parameter \<open>show_status\<close>.\<close>

record mail_world =
  mw_requests :: "resend_request list"
  mw_answer :: "nat \<Rightarrow> str + nat"

datatype mail_error = Mail_Failed str | Mail_Panic

definition post_resend :: "resend_request \<Rightarrow> (mail_world, mail_error, str + nat) io" where
  "post_resend r = (\<lambda>w. (Inr (mw_answer w (length (mw_requests w))), w\<lparr>mw_requests := mw_requests w @ [r]\<rparr>))"

definition deliver :: "(nat \<Rightarrow> str) \<Rightarrow> email_service \<Rightarrow> resend_payload \<Rightarrow> (mail_world, mail_error, unit) io" where
  "deliver show_status svc payload =
     bind_io (lift_result (ok_or (es_api_key svc) Mail_Panic)) (\<lambda>api_key.
     bind_io (post_resend \<lparr>rq_url = es_base_url svc @ u ''/emails'', rq_authorization = u ''Bearer '' @ api_key,
                          rq_payload = payload\<rparr>) (\<lambda>answer.
     case answer of
       Inr status \<Rightarrow>
         if 200 \<le> status \<and> status < 300 then ret ()
         else throw (Mail_Failed (u ''Failed to send email: '' @ show_status status))
     | Inl e \<Rightarrow> throw (Mail_Failed (u ''Network error: '' @ e))))"

definition send_password_reset ::
  "(nat \<Rightarrow> str) \<Rightarrow> email_service \<Rightarrow> str \<Rightarrow> str \<Rightarrow> (mail_world, mail_error, unit) io" where
  "send_password_reset show_status svc email token =
     (if \<not> is_configured svc then throw (Mail_Failed (u ''Email service not configured''))
      else deliver show_status svc (reset_payload svc email token))"

definition send_beta_application ::
  "(nat \<Rightarrow> str) \<Rightarrow> email_service \<Rightarrow> str \<Rightarrow> str \<Rightarrow> str \<Rightarrow> str \<Rightarrow> (mail_world, mail_error, unit) io" where
  "send_beta_application show_status svc name email company use_case =
     (if \<not> is_configured svc then throw (Mail_Failed (u ''Email service not configured''))
      else deliver show_status svc (beta_payload svc name email company use_case))"

text \<open>The message the handlers record, as a mail.\<close>

definition send_message ::
  "(nat \<Rightarrow> str) \<Rightarrow> email_service \<Rightarrow> email_msg \<Rightarrow> (mail_world, mail_error, unit) io" where
  "send_message show_status svc m =
     (case m of
        Password_Reset_Email email token \<Rightarrow> send_password_reset show_status svc email token
      | Beta_Application_Email name email company use_case \<Rightarrow>
          send_beta_application show_status svc name email company use_case)"

section \<open>What escaping does\<close>

text \<open>The five replacements one after the other are one replacement of every character.\<close>

definition entity :: "nat \<Rightarrow> str" where
  "entity c =
     (if c = 38 then u ''&amp;'' else if c = 60 then u ''&lt;'' else if c = 62 then u ''&gt;''
      else if c = 34 then u ''&quot;'' else if c = 39 then u ''&#39;'' else [c])"

lemma replace_char_append: "replace_char c r (s @ t) = replace_char c r s @ replace_char c r t"
  by (simp add: replace_char_def)

lemma escape_html_append: "escape_html (s @ t) = escape_html s @ escape_html t"
  by (simp add: escape_html_def replace_char_append)

lemma escape_html_char: "escape_html [c] = entity c"
  by (simp add: escape_html_def replace_char_def entity_def u_def)

lemma escape_html_entities: "escape_html s = concat (map entity s)"
proof (induction s)
  case (Cons c s)
  then show ?case using escape_html_append [of "[c]" s] escape_html_char [of c] by simp
qed (simp add: escape_html_def replace_char_def)

definition is_markup :: "nat \<Rightarrow> bool" where
  "is_markup c \<longleftrightarrow> c = 60 \<or> c = 62 \<or> c = 34 \<or> c = 39"

lemma escape_no_markup: "filter is_markup (escape_html s) = []"
  by (induction s) (auto simp: escape_html_entities entity_def is_markup_def u_def)

text \<open>Reading the five entities back.\<close>

function unescape_html :: "str \<Rightarrow> str" where
  "unescape_html s =
     (case s of
        [] \<Rightarrow> []
      | c # rest \<Rightarrow>
          if starts_with (u ''&amp;'') s then 38 # unescape_html (drop 4 rest)
          else if starts_with (u ''&lt;'') s then 60 # unescape_html (drop 3 rest)
          else if starts_with (u ''&gt;'') s then 62 # unescape_html (drop 3 rest)
          else if starts_with (u ''&quot;'') s then 34 # unescape_html (drop 5 rest)
          else if starts_with (u ''&#39;'') s then 39 # unescape_html (drop 4 rest)
          else c # unescape_html rest)"
  by pat_completeness auto

termination
  by (relation "measure length") auto

declare unescape_html.simps [simp del]

lemma unescape_entity: "unescape_html (entity c @ s) = c # unescape_html s"
proof (cases "c = 38")
  case False
  then show ?thesis
    by (subst unescape_html.simps) (simp add: entity_def u_def starts_with_def)
qed (subst unescape_html.simps, simp add: entity_def u_def starts_with_def)

lemma unescape_escape: "unescape_html (escape_html s) = s"
proof (induction s)
  case Nil
  show ?case by (subst unescape_html.simps) (simp add: escape_html_entities)
next
  case (Cons c s)
  then show ?case by (simp add: escape_html_entities unescape_entity)
qed

section \<open>What a mail says\<close>

lemma markup_lines: "filter is_markup (join_lines ls) = concat (map (filter is_markup) ls)"
  by (induction ls rule: join_lines.induct) (auto simp: is_markup_def)

lemma line_sublist: "l \<in> set ls \<Longrightarrow> sublist l (join_lines ls)"
proof (induction ls rule: join_lines.induct)
  case (3 x y ls)
  show ?case
  proof (cases "l = x")
    case True
    then show ?thesis by simp
  next
    case False
    with 3 have "sublist l (join_lines (y # ls))" by auto
    then obtain a b where "join_lines (y # ls) = a @ l @ b" by (auto simp: sublist_def)
    then have "join_lines (x # y # ls) = (x @ 10 # a) @ l @ b" by simp
    then show ?thesis unfolding sublist_def by blast
  qed
qed auto

lemma sublist_within: "l = a @ x @ b \<Longrightarrow> sublist l t \<Longrightarrow> sublist x t"
  using sublist_order.order_trans by (metis sublist_appendI)

lemma reset_markup: "filter is_markup url = [] \<Longrightarrow> filter is_markup (reset_html url) = filter is_markup (reset_html [])"
  by (simp add: reset_html_def markup_lines)

lemma beta_markup:
  "filter is_markup a = [] \<Longrightarrow> filter is_markup b = [] \<Longrightarrow> filter is_markup c = [] \<Longrightarrow>
   filter is_markup (beta_html a b c) = filter is_markup (beta_html [] [] [])"
  by (simp add: beta_html_def markup_lines)

lemma embedded: "k < length ls \<Longrightarrow> ls ! k = p @ x @ q \<Longrightarrow> sublist x (join_lines ls)"
  by (metis line_sublist nth_mem sublist_within)

lemma reset_shows: "sublist url (reset_html url)"
  unfolding reset_html_def html_head_def
  by (rule embedded [of 5]) simp_all

lemma beta_shows_name: "sublist a (beta_html a b c)"
  unfolding beta_html_def html_head_def
  by (rule embedded [of 7]) simp_all

lemma beta_shows_company: "sublist b (beta_html a b c)"
  unfolding beta_html_def html_head_def
  by (rule embedded [of 8]) simp_all

lemma beta_shows_use_case: "sublist c (beta_html a b c)"
  unfolding beta_html_def html_head_def
  by (rule embedded [of 10]) simp_all

definition addressee :: "email_msg \<Rightarrow> str" where
  "addressee m = (case m of Password_Reset_Email email _ \<Rightarrow> email | Beta_Application_Email _ email _ _ \<Rightarrow> email)"

definition user_fields :: "email_msg \<Rightarrow> str list" where
  "user_fields m =
     (case m of Password_Reset_Email _ token \<Rightarrow> [token]
      | Beta_Application_Email name _ company use_case \<Rightarrow> [name, company, use_case])"

definition html_template :: "email_msg \<Rightarrow> str" where
  "html_template m = (case m of Password_Reset_Email _ _ \<Rightarrow> reset_html [] | Beta_Application_Email _ _ _ _ \<Rightarrow> beta_html [] [] [])"

definition message_payload :: "email_service \<Rightarrow> email_msg \<Rightarrow> resend_payload" where
  "message_payload svc m =
     (case m of Password_Reset_Email email token \<Rightarrow> reset_payload svc email token
      | Beta_Application_Email name email company use_case \<Rightarrow> beta_payload svc name email company use_case)"

lemma send_message_payload:
  "send_message show_status svc m =
     (if is_configured svc then deliver show_status svc (message_payload svc m)
      else throw (Mail_Failed (u ''Email service not configured'')))"
  by (simp add: send_message_def message_payload_def send_password_reset_def send_beta_application_def
      split: email_msg.split)

lemma payload_inert: "filter is_markup (rp_html (message_payload svc m)) = filter is_markup (html_template m)"
  by (cases m)
    (simp_all add: message_payload_def html_template_def reset_payload_def beta_payload_def Let_def
      reset_markup [OF escape_no_markup]
      beta_markup [OF escape_no_markup escape_no_markup escape_no_markup])

lemma reset_shows_token: "sublist (escape_html token) (reset_html (escape_html (base @ path @ token)))"
  by (rule sublist_within [OF _ reset_shows, where a = "escape_html (base @ path)" and b = "[]"])
    (simp add: escape_html_append)

lemma payload_shows: "x \<in> set (user_fields m) \<Longrightarrow> sublist (escape_html x) (rp_html (message_payload svc m))"
  by (cases m)
    (auto simp: user_fields_def message_payload_def reset_payload_def beta_payload_def Let_def
      reset_shows_token beta_shows_name beta_shows_company beta_shows_use_case)

text \<open>
  C39. Mails are inert. With a key, the service sends exactly one request per message, addressed to its one
  recipient, and reports success exactly when the API answered with a status of the two hundreds; it
  never panics. The markup characters of the HTML are those of the fixed template, whatever the user
  typed, and every field the user typed is in it in a form that reads back as typed. Without a key
  nothing is sent.
\<close>

theorem mail_inert:
  fixes svc :: email_service and m :: email_msg and w :: mail_world
  shows "case send_message show_status svc m w of (r, w') \<Rightarrow>
    (case es_api_key svc of
       None \<Rightarrow> r = Inl (Mail_Failed (u ''Email service not configured'')) \<and> w' = w
     | Some key \<Rightarrow> \<exists>p. mw_requests w' = mw_requests w @
           [\<lparr>rq_url = es_base_url svc @ u ''/emails'', rq_authorization = u ''Bearer '' @ key, rq_payload = p\<rparr>] \<and>
         rp_to p = [addressee m] \<and>
         filter is_markup (rp_html p) = filter is_markup (html_template m) \<and>
         list_all (\<lambda>x. sublist (escape_html x) (rp_html p) \<and> unescape_html (escape_html x) = x) (user_fields m) \<and>
         is_err r = (case mw_answer w (length (mw_requests w)) of Inl _ \<Rightarrow> True | Inr n \<Rightarrow> n < 200 \<or> 300 \<le> n) \<and>
         r \<noteq> Inl Mail_Panic)"
proof (cases "es_api_key svc")
  case None
  then show ?thesis by (simp add: send_message_payload is_configured_def io_simps)
next
  case (Some key)
  let ?p = "message_payload svc m"
  let ?req = "\<lparr>rq_url = es_base_url svc @ u ''/emails'', rq_authorization = u ''Bearer '' @ key, rq_payload = ?p\<rparr>"
  have "rp_to ?p = [addressee m]"
    by (cases m) (simp_all add: message_payload_def addressee_def reset_payload_def beta_payload_def Let_def)
  moreover have "list_all (\<lambda>x. sublist (escape_html x) (rp_html ?p) \<and> unescape_html (escape_html x) = x) (user_fields m)"
    using payload_shows by (simp add: list_all_iff unescape_escape)
  moreover obtain r w' where run: "send_message show_status svc m w = (r, w')" by fastforce
  moreover have "mw_requests w' = mw_requests w @ [?req] \<and> r \<noteq> Inl Mail_Panic \<and>
      is_err r = (case mw_answer w (length (mw_requests w)) of Inl _ \<Rightarrow> True | Inr n \<Rightarrow> n < 200 \<or> 300 \<le> n)"
    using run Some
    by (auto simp: send_message_payload is_configured_def deliver_def post_resend_def io_simps is_err_def
        split: sum.splits if_splits)
  ultimately show ?thesis using payload_inert [of svc m] Some by auto
qed

end
