(* ===== verification/Amount.thy ===== *)
theory Amount
  imports Complex_Main Prelude
begin

text \<open>
  How the amount of a money request is read from JSON (\<^verbatim>\<open>deserialize_amount\<close> in
  \<^verbatim>\<open>accounts-service/src/handlers/accounts.rs\<close>): an integer or a text, and a text that is
  not an integer is read as dollars in a 64-bit float and converted to cents. The floats are modelled
  exactly: parsing rounds the decimal to the nearest double, ties to even, so does the multiplication,
  and the cast to \<^verbatim>\<open>i64\<close> saturates. The main fact is that dollars and cents written with two
  decimals are read exactly up to \<open>2 ^ 50\<close> cents, in spite of the two roundings.
\<close>

section \<open>Doubles\<close>

text \<open>A double that is a number is \<open>m * 2 ^ e\<close> with a sign; both zeros are \<open>m = 0\<close>, which
  no operation used here tells apart.\<close>

datatype f64 = NaN | Infinite bool | Finite bool nat int

fun bit_len :: "nat \<Rightarrow> nat" where
  "bit_len n = (if n = 0 then 0 else Suc (bit_len (n div 2)))"

declare bit_len.simps [simp del]

text \<open>\<open>n / d\<close>, rounded to the nearest integer, ties to even.\<close>

definition div_half_even :: "nat \<Rightarrow> nat \<Rightarrow> nat" where
  "div_half_even n d =
     (let q = n div d; r = n mod d in
      if d < 2 * r \<or> (2 * r = d \<and> odd q) then q + 1 else q)"

definition div_pow2 :: "nat \<Rightarrow> nat \<Rightarrow> int \<Rightarrow> nat \<times> nat" where
  "div_pow2 n d e = (n * 2 ^ nat (- e), d * 2 ^ nat e)"

text \<open>The exponent at which \<open>n / d\<close> has 53 bits before the point, at least that of the
  subnormal numbers.\<close>

definition f64_exponent :: "nat \<Rightarrow> nat \<Rightarrow> int" where
  "f64_exponent n d =
     (let e = int (bit_len n) - int (bit_len d) - 53;
          (n', d') = div_pow2 n d e
      in max (if n' < 2 ^ 53 * d' then e else e + 1) (- 1074))"

definition f64_round :: "bool \<Rightarrow> nat \<Rightarrow> nat \<Rightarrow> f64" where
  "f64_round neg n d =
     (if n = 0 then Finite neg 0 0
      else let e = f64_exponent n d; (n', d') = div_pow2 n d e; m = div_half_even n' d' in
        if 971 < e \<or> (e = 971 \<and> 2 ^ 53 \<le> m) then Infinite neg else Finite neg m e)"

text \<open>\<^verbatim>\<open>x * 100.0\<close>, \<^verbatim>\<open>round\<close> (half away from zero) and \<^verbatim>\<open>as i64\<close>
  (saturating, 0 for NaN); the last two as one integer.\<close>

fun f64_times_100 :: "f64 \<Rightarrow> f64" where
  "f64_times_100 NaN = NaN"
| "f64_times_100 (Infinite neg) = Infinite neg"
| "f64_times_100 (Finite neg m e) = f64_round neg (100 * m * 2 ^ nat e) (2 ^ nat (- e))"

definition round_half_up :: "nat \<Rightarrow> int \<Rightarrow> nat" where
  "round_half_up m e = (2 * m * 2 ^ nat e + 2 ^ nat (- e)) div (2 * 2 ^ nat (- e))"

definition clamp_i64 :: "int \<Rightarrow> 64 word" where
  "clamp_i64 i = word_of_int (max (- (2 ^ 63)) (min (2 ^ 63 - 1) i))"

fun f64_round_as_i64 :: "f64 \<Rightarrow> 64 word" where
  "f64_round_as_i64 NaN = 0"
| "f64_round_as_i64 (Infinite neg) = clamp_i64 (if neg then - (2 ^ 63) else 2 ^ 63 - 1)"
| "f64_round_as_i64 (Finite neg m e) =
     clamp_i64 (if neg then - int (round_half_up m e) else int (round_half_up m e))"

section \<open>Parsing\<close>

text \<open>The grammar of \<^verbatim>\<open>str::parse::<f64>\<close>: an optional sign, then inf, infinity or nan in any
  case, or digits with an optional point, at least one digit, and an optional exponent.\<close>

definition take_sign :: "str \<Rightarrow> bool \<times> str" where
  "take_sign s = (case s of c # r \<Rightarrow> (if c = 45 then (True, r) else if c = 43 then (False, r) else (False, s)) | [] \<Rightarrow> (False, s))"

definition parse_exponent :: "str \<Rightarrow> int option" where
  "parse_exponent s =
     (case s of
        [] \<Rightarrow> Some 0
      | c # r \<Rightarrow>
          if c = 101 \<or> c = 69 then
            (case take_sign r of (neg, ds) \<Rightarrow>
               map_option (\<lambda>n. if neg then - int n else int n) (parse_digits ds))
          else None)"

definition parse_decimal :: "bool \<Rightarrow> str \<Rightarrow> f64 option" where
  "parse_decimal neg s =
     (let whole = takeWhile is_digit s; rest = dropWhile is_digit s;
          (frac, rest') = (case rest of c # r \<Rightarrow> (if c = 46 then (takeWhile is_digit r, dropWhile is_digit r) else ([], rest)) | [] \<Rightarrow> ([], rest))
      in if whole @ frac = [] then None
         else map_option (\<lambda>k.
           let e = k - int (length frac) in
           f64_round neg (digits_val (whole @ frac) * 10 ^ nat e) (10 ^ nat (- e))) (parse_exponent rest'))"

definition parse_f64 :: "str \<Rightarrow> f64 option" where
  "parse_f64 s =
     (case take_sign s of (neg, r) \<Rightarrow>
        let w = to_lower r in
        if w = u ''nan'' then Some NaN
        else if w = u ''inf'' \<or> w = u ''infinity'' then Some (Infinite neg)
        else parse_decimal neg r)"

section \<open>Amounts\<close>

text \<open>A JSON number as serde\_json holds it, and the values an amount may come as.\<close>

datatype json_number = Pos_Int "64 word" | Neg_Int "64 word" | Float_Number

datatype amount_json = Amount_Number json_number | Amount_String str | Amount_Other

fun as_i64 :: "json_number \<Rightarrow> 64 word option" where
  "as_i64 (Pos_Int n) = (if unat n < 2 ^ 63 then Some n else None)"
| "as_i64 (Neg_Int n) = Some n"
| "as_i64 Float_Number = None"

definition deserialize_amount :: "amount_json \<Rightarrow> str + 64 word" where
  "deserialize_amount v =
     (case v of
        Amount_Number n \<Rightarrow>
          (case as_i64 n of Some a \<Rightarrow> Inr a | None \<Rightarrow> Inl (u ''amount must be a valid integer''))
      | Amount_String s \<Rightarrow>
          (let s = trim s in
           case parse_i64 s of
             Some n \<Rightarrow> Inr n
           | None \<Rightarrow>
               (case parse_f64 s of
                  Some f \<Rightarrow> Inr (f64_round_as_i64 (f64_times_100 f))
                | None \<Rightarrow> Inl (u ''amount must be a number or numeric string'')))
      | Amount_Other \<Rightarrow> Inl (u ''amount must be a number or string''))"


section \<open>The error of a rounding\<close>

lemma bit_len_bounds: "0 < n \<Longrightarrow> n < 2 ^ bit_len n \<and> 2 ^ bit_len n \<le> 2 * n"
proof (induction n rule: bit_len.induct)
  case (1 n)
  then have step: "bit_len n = Suc (bit_len (n div 2))" by (simp add: bit_len.simps [of n])
  show ?case
  proof (cases "n = 1")
    case True
    moreover have "bit_len 1 = 1" by (simp add: bit_len.simps)
    ultimately show ?thesis by simp
  next
    case False
    with 1 have "n div 2 < 2 ^ bit_len (n div 2)" "2 ^ bit_len (n div 2) \<le> 2 * (n div 2)" by auto
    moreover have "n = 2 * (n div 2) + n mod 2" "n mod 2 < 2" by simp_all
    ultimately have "n < 2 * 2 ^ bit_len (n div 2)" "2 ^ bit_len (n div 2) \<le> n" by linarith+
    with step show ?thesis by simp
  qed
qed

text \<open>The number that mantissa and exponent stand for.\<close>

definition dyadic :: "nat \<Rightarrow> int \<Rightarrow> real" where
  "dyadic m e = real m * 2 powi e"

lemma powi_split: "(2 :: real) powi e = 2 ^ nat e / 2 ^ nat (- e)"
proof (cases "0 \<le> e")
  case True
  then have "nat (- e) = 0" by simp
  with True show ?thesis by (simp only: power_int_def if_True power_0 div_by_1)
next
  case False
  then have "nat e = 0" by simp
  with False show ?thesis by (simp only: power_int_def if_False power_0 power_one_over inverse_eq_divide)
qed

lemma div_pow2_value:
  assumes "div_pow2 n d e = (n', d')" "0 < d"
  shows "0 < d'" "real n' / real d' = real n / real d / 2 powi e"
  using assms by (auto simp: div_pow2_def powi_split)

lemma div_half_even_near:
  assumes "0 < d"
  shows "\<bar>real (div_half_even n d) - real n / real d\<bar> \<le> 1 / 2"
proof -
  let ?q = "n div d" and ?r = "n mod d"
  have "real n = real ?q * real d + real ?r" by (metis of_nat_add of_nat_mult div_mult_mod_eq)
  then have quot: "real n / real d = real ?q + real ?r / real d" using assms by (simp add: field_simps)
  have r: "real ?r < real d" using assms by simp
  show ?thesis
  proof (cases "d < 2 * ?r \<or> (2 * ?r = d \<and> odd ?q)")
    case True
    then have "real d \<le> 2 * real ?r" by linarith
    then have "1 / 2 \<le> real ?r / real d" "real ?r / real d \<le> 1" using assms r by (simp_all add: field_simps)
    moreover have "div_half_even n d = ?q + 1" using True by (simp only: div_half_even_def Let_def if_True)
    ultimately show ?thesis using quot by simp
  next
    case False
    then have "2 * real ?r \<le> real d" by linarith
    then have "0 \<le> real ?r / real d" "real ?r / real d \<le> 1 / 2" using assms by (simp_all add: field_simps)
    moreover have "div_half_even n d = ?q" using False by (simp only: div_half_even_def Let_def if_False)
    ultimately show ?thesis using quot by simp
  qed
qed

lemma quotient_bits:
  assumes "0 < n" "0 < d"
  defines "k \<equiv> int (bit_len n) - int (bit_len d)"
  shows "real n / real d < 2 * 2 powi k" "2 powi k \<le> 2 * (real n / real d)"
proof -
  have k: "(2 :: real) powi k = 2 ^ bit_len n / 2 ^ bit_len d"
    unfolding k_def by (simp add: power_int_diff)
  have "real n < 2 ^ bit_len n" "2 ^ bit_len n \<le> 2 * real n"
    "real d < 2 ^ bit_len d" "2 ^ bit_len d \<le> 2 * real d"
    using bit_len_bounds [OF assms(1)] bit_len_bounds [OF assms(2)]
    by (metis of_nat_less_iff of_nat_le_iff of_nat_mult of_nat_numeral of_nat_power)+
  note b = this
  have "real n * 2 ^ bit_len d \<le> real n * (2 * real d)" using b by (intro mult_left_mono) auto
  also have "\<dots> < 2 ^ bit_len n * (2 * real d)" using b assms by (intro mult_strict_right_mono) auto
  finally show "real n / real d < 2 * 2 powi k" using assms(1,2) unfolding k by (simp add: field_simps)
  have "2 ^ bit_len n * real d \<le> 2 * real n * real d" using b by (intro mult_right_mono) auto
  also have "\<dots> \<le> 2 * real n * 2 ^ bit_len d" using b assms by (intro mult_left_mono) auto
  finally show "2 powi k \<le> 2 * (real n / real d)" using assms(1,2) unfolding k by (simp add: field_simps)
qed

lemma f64_exponent_scale:
  assumes "0 < n" "0 < d"
  shows "real n / real d < 2 ^ 53 * 2 powi f64_exponent n d"
    and "- 1074 < f64_exponent n d \<Longrightarrow> 2 ^ 52 * 2 powi f64_exponent n d \<le> real n / real d"
proof -
  define e where "e = int (bit_len n) - int (bit_len d) - 53"
  obtain n' d' where nd: "div_pow2 n d e = (n', d')" by fastforce
  let ?x = "real n / real d"
  have e53: "(2 :: real) powi (e + 53) = 2 ^ 53 * 2 powi e" by (simp add: power_int_add)
  have "int (bit_len n) - int (bit_len d) = e + 53" by (simp add: e_def)
  with quotient_bits [OF assms] e53 have up: "?x < 2 ^ 54 * 2 powi e" and lo: "2 ^ 52 * 2 powi e \<le> ?x"
    by simp_all
  have pos: "(0 :: real) < 2 powi e" by simp
  have "n' < 2 ^ 53 * d' \<longleftrightarrow> real n' / real d' < 2 ^ 53"
    using div_pow2_value [OF nd assms(2)]
    by (metis (mono_tags, lifting) divide_less_eq of_nat_0_less_iff of_nat_less_iff of_nat_mult of_nat_numeral of_nat_power)
  also have "\<dots> \<longleftrightarrow> ?x < 2 ^ 53 * 2 powi e"
    unfolding div_pow2_value(2) [OF nd assms(2)] using pos by (rule pos_divide_less_eq)
  finally have test: "n' < 2 ^ 53 * d' \<longleftrightarrow> ?x < 2 ^ 53 * 2 powi e" .
  define e' where "e' = (if n' < 2 ^ 53 * d' then e else e + 1)"
  have e1: "(2 :: real) powi (e + 1) = 2 * 2 powi e" by (simp add: power_int_add)
  have b: "?x < 2 ^ 53 * 2 powi e'" "2 ^ 52 * 2 powi e' \<le> ?x"
    using up lo test e1 by (auto simp: e'_def)
  have ex: "f64_exponent n d = max e' (- 1074)"
    by (simp add: f64_exponent_def Let_def nd e'_def flip: e_def)
  have "(2 :: real) powi e' \<le> 2 powi max e' (- 1074)" by (rule power_int_increasing) auto
  then have "2 ^ 53 * (2 :: real) powi e' \<le> 2 ^ 53 * 2 powi max e' (- 1074)" by (rule mult_left_mono) simp
  with b(1) show "?x < 2 ^ 53 * 2 powi f64_exponent n d" unfolding ex by (rule less_le_trans)
  show "2 ^ 52 * 2 powi f64_exponent n d \<le> ?x" if "- 1074 < f64_exponent n d"
    using that b(2) ex by (auto simp: max_def split: if_splits)
qed

text \<open>A number of everyday size is rounded to one within one part in \<open>2 ^ 53\<close>.\<close>

lemma f64_round_near:
  assumes "0 < d" "1 / 128 \<le> real n / real d" "real n / real d \<le> 2 ^ 60"
  shows "\<exists>m e. f64_round neg n d = Finite neg m e \<and> \<bar>dyadic m e - real n / real d\<bar> \<le> real n / real d / 2 ^ 53"
proof -
  let ?x = "real n / real d"
  define e where "e = f64_exponent n d"
  have n: "0 < n" using assms by (cases n) auto
  obtain n' d' where nd: "div_pow2 n d e = (n', d')" by fastforce
  define m where "m = div_half_even n' d'"
  have pos: "(0 :: real) < 2 powi e" by simp
  note up = f64_exponent_scale(1) [OF n assms(1), folded e_def]
  have low: "- 61 < e"
  proof (rule ccontr)
    assume "\<not> - 61 < e"
    then have "(2 :: real) powi e \<le> 2 powi - 61" by (intro power_int_increasing) auto
    moreover have "(2 :: real) powi - 61 = 1 / 2 ^ 61" by (simp add: powi_split)
    ultimately have "2 ^ 53 * (2 :: real) powi e \<le> 1 / 256" by simp
    with up assms(2) show False by linarith
  qed
  then have lo: "2 ^ 52 * 2 powi e \<le> ?x" using f64_exponent_scale(2) [OF n assms(1)] by (simp add: e_def)
  have "e < 9"
  proof (rule ccontr)
    assume "\<not> e < 9"
    then have "(2 :: real) powi 9 \<le> 2 powi e" by (intro power_int_increasing) auto
    moreover have "(2 :: real) powi 9 = 512" by (simp add: powi_split)
    ultimately have "(512 :: real) \<le> 2 powi e" by simp
    then have "2 ^ 52 * (512 :: real) \<le> 2 ^ 52 * 2 powi e" by (rule mult_left_mono) simp
    with lo assms(3) show False by simp
  qed
  then have fin: "f64_round neg n d = Finite neg m e"
    using n by (simp add: f64_round_def Let_def nd m_def flip: e_def)
  have "\<bar>real m - ?x / 2 powi e\<bar> \<le> 1 / 2"
    using div_half_even_near [OF div_pow2_value(1) [OF nd assms(1)], of n'] div_pow2_value(2) [OF nd assms(1)]
    by (simp add: m_def)
  then have "\<bar>real m - ?x / 2 powi e\<bar> * 2 powi e \<le> 1 / 2 * 2 powi e" using pos by (intro mult_right_mono) auto
  moreover have "\<bar>real m - ?x / 2 powi e\<bar> * 2 powi e = \<bar>dyadic m e - ?x\<bar>"
  proof -
    have "\<bar>real m - ?x / 2 powi e\<bar> * 2 powi e = \<bar>(real m - ?x / 2 powi e) * 2 powi e\<bar>"
      using pos by (simp add: abs_mult)
    also have "(real m - ?x / 2 powi e) * 2 powi e = dyadic m e - ?x"
      using pos by (simp add: dyadic_def left_diff_distrib)
    finally show ?thesis .
  qed
  ultimately have "\<bar>dyadic m e - ?x\<bar> \<le> 2 powi e / 2" by linarith
  with lo have "\<bar>dyadic m e - ?x\<bar> \<le> ?x / 2 ^ 53" by simp
  with fin show ?thesis by blast
qed


section \<open>Dollars and cents\<close>

lemma round_half_up_near:
  fixes c :: nat
  assumes "\<bar>dyadic m e - real c\<bar> < 1 / 2"
  shows "round_half_up m e = c"
proof -
  let ?d = "2 ^ nat (- e) :: nat" and ?k = "m * 2 ^ nat e :: nat"
  have "dyadic m e = real ?k / real ?d" by (simp add: dyadic_def powi_split)
  with assms have "\<bar>real ?k / real ?d - real c\<bar> < 1 / 2" by simp
  then have "real c - 1 / 2 < real ?k / real ?d" "real ?k / real ?d < real c + 1 / 2" by linarith+
  then have "(real c - 1 / 2) * real ?d < real ?k" "real ?k < (real c + 1 / 2) * real ?d"
    by (simp_all add: less_divide_eq divide_less_eq)
  then have "real (2 * c * ?d) < real (2 * ?k + ?d)" "real (2 * ?k + ?d) < real (2 * (c + 1) * ?d)"
    by (simp_all add: algebra_simps)
  then have "c * (2 * ?d) \<le> 2 * ?k + ?d" "2 * ?k + ?d < (c + 1) * (2 * ?d)"
    unfolding of_nat_less_iff by (simp_all add: algebra_simps)
  then have "(2 * ?k + ?d) div (2 * ?d) = c"
    by (intro div_nat_eqI) (simp_all add: algebra_simps)
  then show ?thesis by (simp add: round_half_up_def mult.assoc)
qed

lemma f64_cents_exact:
  assumes "0 < c" "c \<le> 2 ^ 50"
  shows "f64_round_as_i64 (f64_times_100 (f64_round False c 100)) = word_of_nat c"
proof -
  have "1 / 100 \<le> real c / 100" "real c / 100 \<le> 2 ^ 50 / 100" using assms by simp_all
  then obtain m e where me: "f64_round False c 100 = Finite False m e" "\<bar>dyadic m e - real c / 100\<bar> \<le> real c / 100 / 2 ^ 53"
    using f64_round_near [of 100 c False] by auto
  let ?n = "100 * m * 2 ^ nat e" and ?d = "2 ^ nat (- e) :: nat"
  have x: "real ?n / real ?d = 100 * dyadic m e" by (simp add: dyadic_def powi_split)
  have c: "real c \<le> 1125899906842624" using assms(2) by simp
  have close: "\<bar>100 * dyadic m e - real c\<bar> \<le> real c / 2 ^ 53" using me(2) by linarith
  also have "\<dots> \<le> 1 / 8" using c by simp
  finally have "\<bar>100 * dyadic m e - real c\<bar> \<le> 1 / 8" .
  moreover have "1 \<le> real c" using assms(1) by simp
  ultimately have range: "1 / 128 \<le> real ?n / real ?d" "real ?n / real ?d \<le> 2251799813685248"
    using c unfolding x by linarith+
  have "real ?n / real ?d \<le> 2 ^ 60" by (rule order_trans [OF range(2)]) simp
  moreover have "0 < ?d" by simp
  ultimately obtain m' e' where me': "f64_round False ?n ?d = Finite False m' e'"
      "\<bar>dyadic m' e' - real ?n / real ?d\<bar> \<le> real ?n / real ?d / 2 ^ 53"
    using f64_round_near [OF _ range(1), of False] by blast
  have "y / 2 ^ 53 \<le> 1 / 4" if "y \<le> 2251799813685248" for y :: real using that by simp
  from this [OF range(2)] have "real ?n / real ?d / 2 ^ 53 \<le> 1 / 4" .
  with me'(2) \<open>\<bar>100 * dyadic m e - real c\<bar> \<le> 1 / 8\<close> have "\<bar>dyadic m' e' - real c\<bar> < 1 / 2"
    unfolding x by linarith
  then have "round_half_up m' e' = c" by (rule round_half_up_near)
  with me(1) me'(1) assms(2) show ?thesis by (simp add: clamp_i64_def)
qed

text \<open>Dollars and cents as they are written.\<close>

definition show_dollars :: "nat \<Rightarrow> str" where
  "show_dollars c = show_nat (c div 100) @ [46, 48 + c mod 100 div 10, 48 + c mod 10]"

lemma take_sign_digit: "is_digit c \<Longrightarrow> take_sign (c # s) = (False, c # s)"
  by (simp add: take_sign_def is_digit_def)

lemma show_dollars_shape:
  obtains a w where "show_dollars c = a # w @ [46, 48 + c mod 100 div 10, 48 + c mod 10]"
    "show_nat (c div 100) = a # w" "is_digit a" "list_all is_digit w"
proof -
  obtain a w where aw: "show_nat (c div 100) = a # w"
    using show_nat_digits [of "c div 100"] by (cases "show_nat (c div 100)") auto
  with show_nat_digits [of "c div 100"] have "is_digit a" "list_all is_digit w" by simp_all
  with aw that show thesis by (simp add: show_dollars_def)
qed

lemma cents_digits: "is_digit (48 + c mod 100 div 10)" "is_digit (48 + c mod 10)" for c :: nat
  by (simp_all add: is_digit_def; presburger)+

lemma parse_dollars_i64: "parse_i64 (show_dollars c) = None"
proof -
  obtain a w where s: "show_dollars c = a # w @ [46, 48 + c mod 100 div 10, 48 + c mod 10]" "is_digit a"
    by (rule show_dollars_shape)
  have "\<not> is_digit 46" by (simp add: is_digit_def)
  with s show ?thesis
    by (auto simp: parse_i64_def parse_signed_def parse_digits_def is_digit_def)
qed

lemma trim_show_dollars: "trim (show_dollars c) = show_dollars c"
proof (rule trim_fixed)
  obtain a w where s: "show_dollars c = a # w @ [46, 48 + c mod 100 div 10, 48 + c mod 10]" "is_digit a"
    by (rule show_dollars_shape)
  show "show_dollars c \<noteq> []" using s by simp
  show "\<not> is_ws (hd (show_dollars c))" using s by (auto simp: is_digit_def is_ws_def)
  show "\<not> is_ws (last (show_dollars c))" using s cents_digits(2) [of c] by (auto simp: is_digit_def is_ws_def)
qed

lemma takeWhile_digits: "list_all is_digit w \<Longrightarrow> takeWhile is_digit (w @ 46 # s) = w"
  and dropWhile_digits: "list_all is_digit w \<Longrightarrow> dropWhile is_digit (w @ 46 # s) = 46 # s"
  by (induction w) (simp_all add: is_digit_def)

lemma two_digits: "q * 100 + r = c \<Longrightarrow> d * 10 + k = r \<Longrightarrow> 10 * (10 * q + d) + k = (c :: nat)"
  by simp

lemma parse_dollars_f64: "parse_f64 (show_dollars c) = Some (f64_round False c 100)"
proof -
  let ?cents = "[48 + c mod 100 div 10, 48 + c mod 10]"
  obtain a w where "show_dollars c = a # w @ 46 # ?cents" and s2: "show_nat (c div 100) = a # w"
    "is_digit a" "list_all is_digit w"
    by (rule show_dollars_shape)
  then have s: "show_dollars c = (a # w) @ 46 # ?cents" by simp
  note s = s s2
  have digits: "list_all is_digit (a # w)" using s by simp
  have "digits_val ((a # w) @ ?cents) = digits_val (((a # w) @ [48 + c mod 100 div 10]) @ [48 + c mod 10])" by simp
  also have "\<dots> = 10 * (10 * (c div 100) + c mod 100 div 10) + c mod 10"
    using digits_val_show_nat [of "c div 100"] unfolding digits_val_snoc s(2) by simp
  also have "\<dots> = c"
  proof -
    have "c mod 100 mod 10 = c mod 10" by (simp add: mod_mod_cancel)
    then show ?thesis
      using div_mult_mod_eq [of c 100] div_mult_mod_eq [of "c mod 100" 10] by (intro two_digits) simp_all
  qed
  finally have v: "digits_val ((a # w) @ ?cents) = c" .
  have "parse_decimal False (show_dollars c) = Some (f64_round False c 100)"
    unfolding parse_decimal_def s(1) takeWhile_digits [OF digits] dropWhile_digits [OF digits]
    using v cents_digits [of c] by (simp add: parse_exponent_def)
  moreover have "take_sign (show_dollars c) = (False, show_dollars c)"
    using s take_sign_digit by simp
  moreover have "to_lower (show_dollars c) \<noteq> u ''nan''" "to_lower (show_dollars c) \<noteq> u ''inf''"
      "to_lower (show_dollars c) \<noteq> u ''infinity''"
    using s by (auto simp: to_lower_def u_def is_digit_def lower_cp_def)
  ultimately show ?thesis by (simp add: parse_f64_def)
qed

section \<open>Amounts are read as they are written\<close>

lemma parse_i64_show: "c < 2 ^ 63 \<Longrightarrow> parse_i64 (show_nat c) = Some (word_of_nat c)"
proof -
  obtain a w where s: "show_nat c = a # w" "is_digit a"
    using show_nat_digits [of c] by (cases "show_nat c") auto
  assume "c < 2 ^ 63"
  then have "int c < 2 ^ 63" by simp
  with s parse_digits_show_nat [of c] show ?thesis
    by (simp add: parse_i64_def parse_signed_def is_digit_def del: parse_digits_show_nat)
qed

text \<open>
  C40. Amounts are read as they are written. A positive amount of at most \<open>2 ^ 50\<close> cents is read exactly from each
  of its three spellings, whatever space surrounds a text: the JSON integer and its decimal text count
  cents, the text with two decimals counts dollars and cents; the two roundings of the float never
  cost a cent.
\<close>

theorem amount_read_as_written:
  fixes c :: nat
  assumes "0 < c" "c \<le> 2 ^ 50" and "trim s = show_dollars c" "trim t = show_nat c"
  shows "sint (word_of_nat c :: 64 word) = int c \<and>
    deserialize_amount (Amount_Number (Pos_Int (word_of_nat c))) = Inr (word_of_nat c) \<and>
    deserialize_amount (Amount_String t) = Inr (word_of_nat c) \<and>
    deserialize_amount (Amount_String s) = Inr (word_of_nat c)"
proof (intro conjI)
  have small: "c < 2 ^ 63" using assms(2) by simp
  show "sint (word_of_nat c :: 64 word) = int c"
    using small by (simp add: signed_of_nat signed_take_bit_int_eq_self)
  show "deserialize_amount (Amount_Number (Pos_Int (word_of_nat c))) = Inr (word_of_nat c)"
    using small by (simp add: deserialize_amount_def unat_of_nat)
  show "deserialize_amount (Amount_String t) = Inr (word_of_nat c)"
    using small assms(4) by (simp add: deserialize_amount_def parse_i64_show)
  show "deserialize_amount (Amount_String s) = Inr (word_of_nat c)"
    using assms by (simp add: deserialize_amount_def parse_dollars_i64 parse_dollars_f64 f64_cents_exact)
qed

text \<open>Nineteen dollars ninety-nine, with a space around, and 1999 cents.\<close>

theorem amount_read_as_written_witness:
  "deserialize_amount (Amount_String (u '' 19.99 '')) = Inr 1999 \<and>
   deserialize_amount (Amount_String (u ''1999'')) = Inr 1999"
proof -
  have "show_nat 19 = u ''19''" "show_nat 1999 = u ''1999''"
    by (simp_all add: show_nat.simps u_def)
  then have "trim (u '' 19.99 '') = show_dollars 1999" "trim (u ''1999'') = show_nat 1999"
    by (simp_all add: show_dollars_def u_def trim_def trim_start_def trim_end_def is_ws_def)
  from amount_read_as_written [OF _ _ this] show ?thesis by simp
qed

end
