(* ===== verification/Health.thy ===== *)
theory Health
  imports Models Service_Config
begin

text \<open>
  What the services answer about themselves, and the deadlines they read from the environment: the root
  and the health check of the accounts service, which tries a plain connection to the ledger
  (\<^verbatim>\<open>accounts-service/src/handlers/health.rs\<close>), the health checks of the two other services,
  the unsupported balance call of the accounts gRPC server (\<^verbatim>\<open>grpc/accounts.rs\<close>), the timeout
  of the ledger client (\<^verbatim>\<open>ledger_grpc.rs\<close>) and of the audit append of the users service
  (\<^verbatim>\<open>users-service/src/audit_emit.rs\<close>). The resolver and the connection are parameters.
\<close>

section \<open>Deadlines\<close>

definition ledger_timeout_secs :: "env_vars \<Rightarrow> 64 word" where
  "ledger_timeout_secs env =
     unwrap_or (keep_if (\<lambda>v. 0 < v) (Option.bind (env (u ''LEDGER_GRPC_TIMEOUT_SECS'')) parse_u64)) 60"

definition audit_append_deadline_ms :: "env_vars \<Rightarrow> 64 word" where
  "audit_append_deadline_ms env =
     unwrap_or (keep_if (\<lambda>ms. 0 < ms \<and> ms \<le> 120000)
       (Option.bind (map_option trim (env (u ''AUDIT_APPEND_TIMEOUT_MS''))) parse_u64)) 5000"

section \<open>Health of the accounts service\<close>

definition strip_scheme :: "str \<Rightarrow> str" where
  "strip_scheme endpoint =
     (if starts_with (u ''http://'') endpoint then drop 7 endpoint
      else if starts_with (u ''https://'') endpoint then drop 8 endpoint
      else endpoint)"

definition try_connect_ledger_grpc :: "(str \<Rightarrow> str list option) \<Rightarrow> (str \<Rightarrow> bool) \<Rightarrow> str \<Rightarrow> bool" where
  "try_connect_ledger_grpc resolve connect endpoint =
     (case resolve (takeWhile (\<lambda>c. c \<noteq> 47) (strip_scheme endpoint)) of
        Some (addr # _) \<Rightarrow> connect addr
      | _ \<Rightarrow> False)"

record ledger_health =
  lh_endpoint :: str
  lh_timeout_ms :: nat
  lh_status :: str

record accounts_health =
  ah_status :: str
  ah_service :: str
  ah_ledger_grpc :: ledger_health

definition accounts_health_check ::
  "(str \<Rightarrow> str list option) \<Rightarrow> (str \<Rightarrow> bool) \<Rightarrow> env_vars \<Rightarrow> str \<Rightarrow> nat \<times> accounts_health" where
  "accounts_health_check resolve connect env endpoint =
     (let grpc_ok = try_connect_ledger_grpc resolve connect endpoint in
      (200, \<lparr>ah_status = u ''healthy'', ah_service = u ''accounts-api'',
             ah_ledger_grpc = \<lparr>lh_endpoint = endpoint,
               lh_timeout_ms = unat (ledger_timeout_secs env) * 1000,
               lh_status = (if grpc_ok then u ''ok'' else u ''down'')\<rparr>\<rparr>))"

record service_root_body =
  sr_service :: str
  sr_health :: str
  sr_api_base :: str
  sr_note :: str

definition service_root :: service_root_body where
  "service_root =
     \<lparr>sr_service = u ''accounts-api'', sr_health = u ''/health'', sr_api_base = u ''/api/v1'',
      sr_note = u ''Behind gateway use paths like /accounts/health. GET /api/v1/accounts requires header X-Environment (sandbox|production) and query user_id, organization_id, or admin_user_id.''\<rparr>"

section \<open>The other services\<close>

record plain_health =
  ph_status :: str
  ph_service :: str

definition audit_health_check :: "nat \<times> plain_health" where
  "audit_health_check = (200, \<lparr>ph_status = u ''healthy'', ph_service = u ''audit-service''\<rparr>)"

definition users_health_check :: "nat \<times> plain_health" where
  "users_health_check = (200, \<lparr>ph_status = u ''healthy'', ph_service = u ''users-service''\<rparr>)"

text \<open>The balance call of the gRPC server: every request is refused.\<close>

datatype grpc_refusal = Unimplemented str

definition grpc_get_account_balance :: "'req \<Rightarrow> grpc_refusal + 'resp" where
  "grpc_get_account_balance req = Inl (Unimplemented (u ''GetAccountBalance is not supported by Accounts service''))"

section \<open>Facts\<close>

lemma unwrap_keep_if: "p dflt \<Longrightarrow> p (unwrap_or (keep_if p x) dflt)"
  by (cases x) (auto simp: keep_if_def unwrap_or_def)

text \<open>No setting makes a call without a deadline, or with one of zero.\<close>

lemma ledger_timeout_positive: "0 < ledger_timeout_secs env"
  unfolding ledger_timeout_secs_def by (rule unwrap_keep_if) simp

lemma audit_append_deadline_bounds: "0 < audit_append_deadline_ms env \<and> audit_append_deadline_ms env \<le> 120000"
  unfolding audit_append_deadline_ms_def by (rule unwrap_keep_if) simp

text \<open>The check reads host and port of the URL only, and the service is healthy whatever it finds.\<close>

lemma try_connect_host_port:
  assumes "\<forall>c \<in> set hp. c \<noteq> 47" "scheme = u ''http://'' \<or> scheme = u ''https://''"
  shows "try_connect_ledger_grpc resolve connect (scheme @ hp @ 47 # path) =
    (case resolve hp of Some (addr # _) \<Rightarrow> connect addr | _ \<Rightarrow> False)"
proof -
  have "takeWhile (\<lambda>c. c \<noteq> 47) (hp @ 47 # path) = hp" using assms(1) by (simp add: takeWhile_tail)
  moreover have "strip_scheme (scheme @ hp @ 47 # path) = hp @ 47 # path"
    using assms(2) by (auto simp: strip_scheme_def starts_with_def u_def)
  ultimately show ?thesis by (simp add: try_connect_ledger_grpc_def)
qed

lemma accounts_always_healthy:
  "\<exists>h. accounts_health_check resolve connect env endpoint = (200, h) \<and> ah_status h = u ''healthy'' \<and>
     (lh_status (ah_ledger_grpc h) = u ''ok'' \<longleftrightarrow> try_connect_ledger_grpc resolve connect endpoint)"
  by (simp add: accounts_health_check_def u_def)

end
