(* ===== verification/Analytics.thy ===== *)
theory Analytics
  imports Service_Config Middleware Users_World
begin

text \<open>
  The product analytics of the accounts and the users service
  (\<^verbatim>\<open>accounts-service/src/analytics.rs\<close>, \<^verbatim>\<open>users-service/src/analytics.rs\<close>, equal up to
  the name of the service): an event becomes at most one request to PostHog, sent in a task of its own,
  whose answer is only logged. Also here: which event a failed creation of an account or of a user is.
\<close>

type_synonym properties = "str \<Rightarrow> json_value option"

record capture_request =
  cr_url :: str
  cr_api_key :: str
  cr_event :: str
  cr_distinct_id :: str
  cr_properties :: properties

definition non_blank :: "str option \<Rightarrow> str option" where
  "non_blank v = keep_if (\<lambda>s. s \<noteq> []) (map_option trim v)"

text \<open>\<^verbatim>\<open>trim_end_matches('/')\<close>\<close>

definition trim_end_slashes :: "str \<Rightarrow> str" where
  "trim_end_slashes s = rev (dropWhile (\<lambda>c. c = 47) (rev s))"

definition posthog_host :: "env_vars \<Rightarrow> str" where
  "posthog_host env =
     unwrap_or (keep_if (\<lambda>s. s \<noteq> []) (map_option (trim_end_slashes \<circ> trim) (env (u ''POSTHOG_HOST''))))
       (u ''https://app.posthog.com'')"

text \<open>The request of an event; \<open>props\<close> is none where the JSON is not an object.\<close>

definition capture_event ::
  "env_vars \<Rightarrow> str \<Rightarrow> str \<Rightarrow> str \<Rightarrow> properties option \<Rightarrow> capture_request option" where
  "capture_event env service event distinct_id props =
     (case non_blank (env (u ''POSTHOG_API_KEY'')) of
        None \<Rightarrow> None
      | Some api_key \<Rightarrow>
          Some \<lparr>cr_url = posthog_host env @ u ''/capture'', cr_api_key = api_key, cr_event = event,
                cr_distinct_id = distinct_id,
                cr_properties = (unwrap_or props Map.empty)(u ''service'' \<mapsto> Json_String service)\<rparr>)"

definition accounts_capture_event where
  "accounts_capture_event env = capture_event env (u ''accounts'')"

definition users_capture_event where
  "users_capture_event env = capture_event env (u ''users'')"

section \<open>Failed creations\<close>

fun account_creation_failure_event :: "app_error \<Rightarrow> str" where
  "account_creation_failure_event (BusinessLogic _) = u ''account_creation_duplicate_rejected''"
| "account_creation_failure_event (Validation _) = u ''account_creation_validation_failed''"
| "account_creation_failure_event (Unauthorized _) = u ''account_creation_validation_failed''"
| "account_creation_failure_event _ = u ''account_creation_failed''"

fun sdk_user_failure_event :: "users_error \<Rightarrow> str" where
  "sdk_user_failure_event (U_Conflict _) = u ''sdk_user_creation_duplicate_rejected''"
| "sdk_user_failure_event (U_Bad_Request _) = u ''sdk_user_creation_validation_failed''"
| "sdk_user_failure_event U_Unauthorized = u ''sdk_user_creation_validation_failed''"
| "sdk_user_failure_event U_Forbidden = u ''sdk_user_creation_validation_failed''"
| "sdk_user_failure_event _ = u ''sdk_user_creation_failed''"

section \<open>Facts\<close>

lemma no_key_no_capture: "capture_event env service event distinct_id props = None \<longleftrightarrow>
    (case env (u ''POSTHOG_API_KEY'') of None \<Rightarrow> True | Some k \<Rightarrow> trim k = [])"
  by (auto simp: capture_event_def non_blank_def keep_if_def split: option.splits)

text \<open>The name of the service overrides a property of that name; every other property is sent as given.\<close>

lemma capture_properties:
  assumes "capture_event env service event distinct_id (Some props) = Some r"
  shows "cr_properties r (u ''service'') = Some (Json_String service)"
    and "k \<noteq> u ''service'' \<Longrightarrow> cr_properties r k = props k"
  using assms by (auto simp: capture_event_def unwrap_or_def split: option.splits)

lemma trim_end_slashes_last: "trim_end_slashes s = [] \<or> last (trim_end_slashes s) \<noteq> 47"
  using hd_dropWhile [of "\<lambda>c. c = 47" "rev s"] by (auto simp: trim_end_slashes_def last_rev)

lemma posthog_host_clean: "posthog_host env \<noteq> [] \<and> last (posthog_host env) \<noteq> 47"
proof -
  have "last (u ''https://app.posthog.com'') \<noteq> 47" "u ''https://app.posthog.com'' \<noteq> []" by (simp_all add: u_def)
  then show ?thesis
    using trim_end_slashes_last [of "trim s" for s]
    by (auto simp: posthog_host_def keep_if_def unwrap_or_def split: option.splits)
qed

end
