(* ===== verification/Spec2Isabelle.thy ===== *)
theory Spec2Isabelle
  imports Money Tx_Machine Worker_Spec Balance_Spec Audit_Spec Rate_Limit System Middleware_Spec Handler_Runs Store_Spec Directory_Spec Audit_Roundtrip Retry_Drain Startup Users_Email Amount Health Analytics
begin

text \<open>
  Verification library of rails-core, the Rust services of a banking back end
  (\<^verbatim>\<open>src/services\<close>): \<^verbatim>\<open>accounts-service\<close> keeps accounts and the intents of money movements
  and posts them to a ledger, \<^verbatim>\<open>users-service\<close> keeps businesses, users, sessions and API keys, and
  \<^verbatim>\<open>audit-service\<close> keeps an append-only log of what the other two have done. Every definition is
  translated from the source of one of the three.

  \<^bold>\<open>How the parts interact.\<close> A client calls the accounts service over HTTP. The middleware gives the request a
  correlation id and limits the rate of money requests; a handler checks its headers and calls the service
  layer, which works on the two tables through the repositories and posts to the ledger by gRPC. What the
  ledger does not accept at once stays \<^verbatim>\<open>pending\<close>; the retry worker claims such rows, posts them and
  records the answer, with back-off; the reconciliation worker returns rows whose poster has died. Each
  mutation is reported to the audit service by gRPC. Accounts and audit ask the users service, by gRPC, whose
  an API key is. The ledger itself, a Ruby application, is outside: its answers are a parameter.

  \<^bold>\<open>Style of the model.\<close> A Rust \<^verbatim>\<open>async fn\<close> that returns a \<^verbatim>\<open>Result\<close> is a function from a world to
  a sum (\<open>Inl\<close> the error) and the next world (\<open>io\<close> in \<open>Prelude\<close>); \<open>bind_io\<close> is the
  question mark. A world holds the tables as lists of rows, the posts sent, the audit events sent, and a tick
  that advances with every effect. Integers keep their width (\<open>word\<close>) where the code's do; a
  \<^verbatim>\<open>String\<close> is the list of its code points. An SQL statement is a function on the table
  (names end in \<open>_stmt\<close>); constraints of the migrations are checked where the statement runs, and a
  violation is an error value. What is not under \<^verbatim>\<open>src/\<close> is a field of a parameter record
  (\<open>params\<close>, \<open>audit_params\<close>, \<open>users_params\<close>, \<open>http_crates\<close>, \<open>outside\<close>): the clock, fresh
  UUIDs, random numbers, the answers of the ledger and of the peers, the crates for JWT, argon2, SHA-2,
  base64 and JSON; further, which effect fails with a database error, and what other processes do to the
  tables between two statements.
  A theorem either holds for every such parameter (faults and interference included), or names the hypotheses
  it needs: \<open>undisturbed\<close> (no fault, no interference), \<open>lawful\<close> (others change the
  tables by the statements of the service only), \<open>http_lawful\<close> (what the middleware relies on in JSON
  and headers). Each such theorem has a witness at a concrete parameter.
\<close>

text \<open>
  \<^bold>\<open>Which theory models what.\<close>

  \<^item> \<open>Prelude\<close>: strings, integers as text, the result monad with its collection \<open>io_simps\<close>, and the
    locales \<open>run_preorder\<close> and \<open>graded_runs\<close> of properties that runs inherit from their effects.
    \<open>Pagination\<close>: page arithmetic and the locale \<open>paged_listing\<close>.
  \<^item> \<open>App_Error\<close> (\<^verbatim>\<open>errors/app_error.rs\<close>), \<open>Models\<close> (\<^verbatim>\<open>models/\<close>), \<open>World\<close>
    (the tables with the constraints of \<^verbatim>\<open>migrations_accounts/\<close>), \<open>Tx_Repo\<close> and \<open>Account_Repo\<close>
    (\<^verbatim>\<open>repositories/\<close>, one definition per statement and function), \<open>Ledger_Client\<close>
    (\<^verbatim>\<open>ledger_grpc.rs\<close>, \<^verbatim>\<open>users_grpc.rs\<close>), \<open>Account_Service\<close>
    (\<^verbatim>\<open>services/account_service.rs\<close>, \<^verbatim>\<open>transaction_service.rs\<close>), \<open>Retry_Worker\<close>
    (\<^verbatim>\<open>services/transaction_retry.rs\<close>, \<^verbatim>\<open>transaction_reconcile.rs\<close>), \<open>Audit_Emit\<close>
    (\<^verbatim>\<open>audit_emit.rs\<close>), \<open>Handlers\<close> (\<^verbatim>\<open>handlers/\<close>), \<open>Amount\<close> (the deserialiser of
    amounts with its floats), \<open>Rate_Limit\<close> (\<^verbatim>\<open>routes/rate_limit.rs\<close> of accounts and users).
  \<^item> \<open>Audit_Proto\<close> (\<^verbatim>\<open>proto/audit\<close>), \<open>Audit_Validate\<close> (\<^verbatim>\<open>audit-service/src/validate.rs\<close>,
    \<^verbatim>\<open>grpc_server.rs\<close>), \<open>Audit_Service\<close> (\<^verbatim>\<open>db.rs\<close>, \<^verbatim>\<open>routes/audit_events.rs\<close>,
    \<^verbatim>\<open>users_grpc.rs\<close>).
  \<^item> \<open>Users_World\<close> (\<^verbatim>\<open>users-service/src/error.rs\<close> and the seven tables of its migrations),
    \<open>Users_Audit\<close> (\<^verbatim>\<open>audit_emit.rs\<close>), \<open>Users_Auth\<close> (\<^verbatim>\<open>auth.rs\<close>, \<^verbatim>\<open>routes/auth.rs\<close>),
    \<open>Users_Keys\<close> (\<^verbatim>\<open>routes/apikey.rs\<close>, \<^verbatim>\<open>grpc_server.rs\<close>), \<open>Users_Reset\<close>
    (\<^verbatim>\<open>routes/password_reset.rs\<close>), \<open>Users_Register\<close> (\<^verbatim>\<open>routes/business.rs\<close>, \<^verbatim>\<open>user.rs\<close>,
    \<^verbatim>\<open>beta.rs\<close>), \<open>Users_Email\<close> (\<^verbatim>\<open>email.rs\<close>).
  \<^item> All three: \<open>Middleware\<close> (\<^verbatim>\<open>routes/api.rs\<close>, \<^verbatim>\<open>routes/mod.rs\<close>), \<open>Service_Config\<close>
    (\<^verbatim>\<open>config/settings.rs\<close>, \<^verbatim>\<open>config.rs\<close>), \<open>Startup\<close> (\<^verbatim>\<open>lib.rs\<close>, \<^verbatim>\<open>bootstrap.rs\<close>,
    \<^verbatim>\<open>grpc.rs\<close>), \<open>Health\<close> (health checks and deadlines), \<open>Analytics\<close> (\<^verbatim>\<open>analytics.rs\<close>).

  \<^bold>\<open>What the lemmas show.\<close>

  \<^item> Tables: \<open>Tx_Table\<close>, \<open>Account_Table\<close>, \<open>Users_Table\<close> say what each statement
    keeps (keys, foreign keys, constraints, what no step undoes). \<open>Handler_Runs\<close> and \<open>Users_Runs\<close> lift this to every
    handler and worker under faults and interference.
  \<^item> Money: \<open>Service_Spec\<close> is the behaviour of each branch when undisturbed, \<open>Service_Runs\<close> what holds of
    every run; \<open>Money\<close> and \<open>Handler_Spec\<close> state the properties of the endpoints, \<open>Balance_Spec\<close> the
    balances next to listed transactions, \<open>Account_Spec\<close> account numbers and pages.
  \<^item> Workers: \<open>Worker_Spec\<close> (back-off, the recorded outcome with its times, the table after a sweep, recovery),
    \<open>Retry_Bound\<close> (a measure that every retry uses up), \<open>Retry_Drain\<close> (enough polls post everything due),
    \<open>Tx_Machine\<close> (the posting protocol as a step relation: no two posts in flight on timely runs, and a second
    one possible exactly when a lease has expired).
  \<^item> Refinement: \<open>Store_Spec\<close> (the repository is a store with an index from idempotency keys; the locale
    \<open>put_if_absent\<close> is what the service relies on), \<open>Directory_Spec\<close> (accounts as a directory).
  \<^item> Audit: \<open>Audit_Spec\<close> (which events are stored, append-only, scoped listings, the events of the money
    endpoints), \<open>Audit_Roundtrip\<close> (a posted event is listed as posted).
  \<^item> Users: \<open>Users_Spec\<close>, \<open>Users_Session_Spec\<close> (keys, sessions, resets, registration).
  \<^item> Across: \<open>System\<close> puts the model of the users service where accounts and audit have a parameter;
    \<open>Middleware_Spec\<close> follows answers through the layers.

  \<^bold>\<open>Bounds and fuel.\<close> Loops of the code are structural recursions, except the polling loops of the workers,
  which never end in the code: \<open>retry_worker_run\<close> and \<open>reconcile_run\<close> take the number of polls, and
  what is proved holds for every number. Account numbers are drawn at most a fixed number of times, as in the
  code. Amounts are exact up to \<open>2 ^ 50\<close> cents, where two roundings of a double stay below half a cent.
\<close>

text \<open>
  \<^bold>\<open>Modelling choices.\<close>

  \<^item> Ordered queries sort stably: rows with equal keys keep the order of the table, which PostgreSQL
    leaves open; text too long for its \<^verbatim>\<open>VARCHAR\<close> is refused, also where PostgreSQL would drop blanks at its
    end; \<^verbatim>\<open>RETURNING\<close> gives rows in the order of the table. Where a handler walks a hash set, the order is an
    argument.
  \<^item> \<^verbatim>\<open>to_lowercase\<close> acts on ASCII only, as far as the compared texts can tell. Page counts computed in floats in the
    code are the exact ceiling, which agrees below \<open>2 ^ 53\<close>. Times are integers in microseconds; the overflow of
    the chrono crate and texts with a NUL, which PostgreSQL refuses, are left out. The arithmetic of
    machine integers wraps, as in a release build.
  \<^item> An audit emission is part of the run that spawns it, and its answer has no effect on the run. Statements of
    one database transaction of the users service happen at one point.
  \<^item> A handler starts after axum's extractors: routing of paths and the field checks of
    serde are not modelled; amounts, the one custom deserialiser, are.
  \<^item> A value of the environment that is not Unicode counts as unset, as all readers treat it.

  \<^bold>\<open>Not modelled.\<close> Tracing, Sentry and metrics (output only); connection pools and TLS; code generated from
  the proto files (its messages are records here); \<^verbatim>\<open>main.rs\<close> and module lists; the tests; the
  ledger service, the gateway and the scripts. The analytics events of the handlers are modelled as requests but
  not composed with the handlers, on which they have no effect.
\<close>

end
